(* ===== verification/Prelude.thy ===== *)
theory Prelude
  imports Main "HOL-Library.Word" "HOL-Library.Sublist"
begin

text \<open>
  Shared vocabulary of the development: the machine-integer and byte types, the result type in
  which a JavaScript \<open>throw\<close> is the value \<open>Inl e\<close>, its sequencing combinator, JavaScript array
  reads and \<open>indexOf\<close>, and the generic list lemmas that the component theories rely on.
\<close>

section \<open>Types and theorem collections\<close>

type_synonym u8 = "8 word"
type_synonym u16 = "16 word"
type_synonym bytes = "8 word list"

named_theorems js_eval \<open>definitions unfolded to evaluate closed model terms\<close>
named_theorems codec_intros \<open>introduction rules that build a codec from its fields\<close>

section \<open>Results\<close>

text \<open>\<open>bindR m k\<close> runs \<open>k\<close> on the value of \<open>m\<close>; an error of \<open>m\<close> ends the computation, as an
  exception that nobody catches does.\<close>

definition bindR :: "'e + 'a \<Rightarrow> ('a \<Rightarrow> 'e + 'b) \<Rightarrow> 'e + 'b" where
  "bindR m k = (case m of Inl e \<Rightarrow> Inl e | Inr a \<Rightarrow> k a)"

text \<open>\<open>guardR c e k\<close> is \<open>if (c) throw e; k\<close>.\<close>

definition guardR :: "bool \<Rightarrow> 'e \<Rightarrow> 'e + 'b \<Rightarrow> 'e + 'b" where
  "guardR c e k = (if c then Inl e else k)"

fun isOk :: "'e + 'a \<Rightarrow> bool" where
  "isOk (Inr _) = True"
| "isOk (Inl _) = False"

text \<open>\<open>mapR f xs\<close> maps a throwing function over an array, left to right.\<close>

fun mapR :: "('a \<Rightarrow> 'e + 'b) \<Rightarrow> 'a list \<Rightarrow> 'e + 'b list" where
  "mapR f [] = Inr []"
| "mapR f (x # xs) = bindR (f x) (\<lambda>y. bindR (mapR f xs) (\<lambda>ys. Inr (y # ys)))"

lemma bindR_simps [simp]:
  "bindR (Inl e) k = Inl e"
  "bindR (Inr a) k = k a"
  by (simp_all add: bindR_def)

lemma guardR_simps [simp]:
  "guardR True e k = Inl e"
  "guardR False e k = k"
  by (simp_all add: guardR_def)

lemma bindR_eq_Inr_iff: "bindR m k = Inr b \<longleftrightarrow> (\<exists>a. m = Inr a \<and> k a = Inr b)"
  by (cases m) auto

lemma bindR_eq_Inl_iff: "bindR m k = Inl e \<longleftrightarrow> m = Inl e \<or> (\<exists>a. m = Inr a \<and> k a = Inl e)"
  by (cases m) auto

lemma guardR_eq_Inr_iff: "guardR c e k = Inr b \<longleftrightarrow> \<not> c \<and> k = Inr b"
  by (simp add: guardR_def)

lemma guardR_eq_Inl_iff: "guardR c e k = Inl e' \<longleftrightarrow> (c \<and> e' = e) \<or> (\<not> c \<and> k = Inl e')"
  by (auto simp: guardR_def)

lemmas result_iffs = bindR_eq_Inr_iff guardR_eq_Inr_iff
lemmas result_error_iffs = bindR_eq_Inl_iff guardR_eq_Inl_iff

lemma bindR_assoc: "bindR (bindR m k) h = bindR m (\<lambda>a. bindR (k a) h)"
  by (cases m) auto

lemma isOk_iff: "isOk m \<longleftrightarrow> (\<exists>a. m = Inr a)"
  by (cases m) auto

lemma mapR_Inr_iff: "mapR f xs = Inr ys \<longleftrightarrow> list_all2 (\<lambda>x y. f x = Inr y) xs ys"
  by (induction xs arbitrary: ys) (auto simp: bindR_eq_Inr_iff list_all2_Cons1)

section \<open>JavaScript arrays\<close>

text \<open>\<open>xs[i]\<close>: reading past the end gives \<open>undefined\<close>.\<close>

definition js_at :: "'a list \<Rightarrow> nat \<Rightarrow> 'a option" where
  "js_at xs i = (if i < length xs then Some (xs ! i) else None)"

text \<open>\<open>xs.indexOf(x)\<close>: the first position of \<open>x\<close>, or \<open>-1\<close>.\<close>

fun indexOf :: "'a list \<Rightarrow> 'a \<Rightarrow> int" where
  "indexOf [] x = -1"
| "indexOf (y # ys) x = (if y = x then 0 else (let i = indexOf ys x in if i < 0 then -1 else i + 1))"

lemma indexOf_bounds: "-1 \<le> indexOf xs x \<and> indexOf xs x < int (length xs)"
  by (induction xs) (auto simp: Let_def)

lemma indexOf_js_at: "x \<in> set xs \<Longrightarrow> 0 \<le> indexOf xs x \<and> js_at xs (nat (indexOf xs x)) = Some x"
proof (induction xs)
  case (Cons y ys)
  then show ?case
    by (auto simp: Let_def js_at_def nat_add_distrib split: if_splits)
qed simp

section \<open>Lists\<close>

lemma strict_prefix_appendE:
  assumes "strict_prefix p (xs @ ys)"
  obtains "strict_prefix p xs" | q where "p = xs @ q" "strict_prefix q ys"
proof (cases "prefix xs p")
  case True
  then obtain q where "p = xs @ q" by (auto simp: prefix_def)
  with assms that(2) show ?thesis by (simp add: strict_prefix_def)
next
  case False
  with assms have "prefix p xs" by (auto simp: strict_prefix_def prefix_append)
  with False have "strict_prefix p xs" by (auto simp: strict_prefix_def)
  with that(1) show ?thesis .
qed

lemma strict_prefix_length_less: "strict_prefix p xs \<Longrightarrow> length p < length xs"
  by (auto simp: strict_prefix_def prefix_def)

lemma append_eq_same_length:
  "length a = length b \<Longrightarrow> a @ xs = b @ ys \<longleftrightarrow> a = b \<and> xs = ys"
  by simp

lemma take_length_append [simp]: "take (length xs) (xs @ ys) = xs"
  by simp

end
