(* ===== verification/Js_Text.thy ===== *)
theory Js_Text
  imports Prelude
begin

text \<open>
  JavaScript text. A string is its list of UTF-16 code units; \<open>TextEncoder\<close> and \<open>TextDecoder\<close>
  are the WHATWG UTF-8 encoder and the non-fatal UTF-8 decoder (replacement characters for
  malformed input, a leading byte order mark dropped). The theory also holds the string methods
  the sources call (\<open>trim\<close>, \<open>toLowerCase\<close>, \<open>startsWith\<close>, \<open>endsWith\<close>, \<open>includes\<close>, \<open>slice\<close>) and
  proves that decoding inverts encoding on well-formed text.
\<close>

section \<open>Strings as code units\<close>

type_synonym js_string = "16 word list"

text \<open>Text literals of the sources, written with Isabelle's string literals.\<close>

definition js :: "string \<Rightarrow> js_string" where
  "js s = map of_char s"

text \<open>The code units that ECMAScript counts as white space or line terminators.\<close>

definition isSpace :: "u16 \<Rightarrow> bool" where
  "isSpace u \<longleftrightarrow> u \<in> {9, 10, 11, 12, 13, 32, 0xA0, 0x1680, 0x2028, 0x2029, 0x202F, 0x205F, 0x3000, 0xFEFF}
     \<or> (0x2000 \<le> u \<and> u \<le> 0x200A)"

definition trim :: "js_string \<Rightarrow> js_string" where
  "trim s = rev (dropWhile isSpace (rev (dropWhile isSpace s)))"

definition startsWith :: "js_string \<Rightarrow> js_string \<Rightarrow> bool" where
  "startsWith s p \<longleftrightarrow> take (length p) s = p"

definition endsWith :: "js_string \<Rightarrow> js_string \<Rightarrow> bool" where
  "endsWith s p \<longleftrightarrow> length p \<le> length s \<and> drop (length s - length p) s = p"

fun includesText :: "js_string \<Rightarrow> js_string \<Rightarrow> bool" where
  "includesText [] p = (p = [])"
| "includesText (u # s) p = (startsWith (u # s) p \<or> includesText s p)"

text \<open>Whether a pattern matches at some position of the text, as an unanchored regular expression does.\<close>

fun anySuffix :: "(js_string \<Rightarrow> bool) \<Rightarrow> js_string \<Rightarrow> bool" where
  "anySuffix p [] = p []"
| "anySuffix p (u # s) = (p (u # s) \<or> anySuffix p s)"

text \<open>\<open>s.slice(0, -n)\<close>.\<close>

definition dropEnd :: "nat \<Rightarrow> js_string \<Rightarrow> js_string" where
  "dropEnd n s = take (length s - n) s"

definition isAscii :: "js_string \<Rightarrow> bool" where
  "isAscii s \<longleftrightarrow> list_all (\<lambda>u. u < 128) s"

definition lowerUnit :: "u16 \<Rightarrow> u16" where
  "lowerUnit u = (if 65 \<le> u \<and> u \<le> 90 then u + 32 else u)"

text \<open>A case-insensitive regular expression of ASCII letters looks for its text in the ASCII-folded
  subject.\<close>

definition matchesFolded :: "js_string \<Rightarrow> js_string \<Rightarrow> bool" where
  "matchesFolded s pat = includesText (map lowerUnit s) pat"

text \<open>
  \<open>toLowerCase\<close>: the ASCII letters are folded here; the default case conversion of a text that
  has a non-ASCII code unit comes from the Unicode character database, which is data outside the
  repository and therefore the argument \<open>ucd\<close>.
\<close>

definition toLowerCase :: "(js_string \<Rightarrow> js_string) \<Rightarrow> js_string \<Rightarrow> js_string" where
  "toLowerCase ucd s = (if isAscii s then map lowerUnit s else ucd s)"

section \<open>UTF-16 and UTF-8\<close>

definition highSurrogate :: "u16 \<Rightarrow> bool" where
  "highSurrogate u \<longleftrightarrow> 0xD800 \<le> u \<and> u < 0xDC00"

definition lowSurrogate :: "u16 \<Rightarrow> bool" where
  "lowSurrogate u \<longleftrightarrow> 0xDC00 \<le> u \<and> u < 0xE000"

text \<open>The scalar values of a text; a lone surrogate reads as U+FFFD.\<close>

fun codePoints :: "js_string \<Rightarrow> nat list" where
  "codePoints [] = []"
| "codePoints [u] = [if highSurrogate u \<or> lowSurrogate u then 0xFFFD else unat u]"
| "codePoints (u # v # s) =
     (if highSurrogate u then
        (if lowSurrogate v
         then (0x10000 + (unat u - 0xD800) * 0x400 + (unat v - 0xDC00)) # codePoints s
         else 0xFFFD # codePoints (v # s))
      else if lowSurrogate u then 0xFFFD # codePoints (v # s)
      else unat u # codePoints (v # s))"

definition utf8 :: "nat \<Rightarrow> bytes" where
  "utf8 c =
     (if c < 0x80 then [of_nat c]
      else if c < 0x800 then [of_nat (0xC0 + c div 64), of_nat (0x80 + c mod 64)]
      else if c < 0x10000 then
        [of_nat (0xE0 + c div 4096), of_nat (0x80 + c div 64 mod 64), of_nat (0x80 + c mod 64)]
      else
        [of_nat (0xF0 + c div 262144), of_nat (0x80 + c div 4096 mod 64),
         of_nat (0x80 + c div 64 mod 64), of_nat (0x80 + c mod 64)])"

text \<open>\<open>new TextEncoder().encode(s)\<close>.\<close>

definition textEncode :: "js_string \<Rightarrow> bytes" where
  "textEncode s = concat (map utf8 (codePoints s))"

text \<open>
  The UTF-8 decoder: between scalar values it is \<open>Idle\<close>; inside one it has a partial code point,
  the number of bytes still needed and the bounds for the next byte. A byte outside the bounds
  emits U+FFFD and is then read afresh.
\<close>

datatype utf8_state = Idle | Need nat nat nat nat

definition utf8_first :: "nat \<Rightarrow> utf8_state \<times> nat list" where
  "utf8_first b =
     (if b < 0x80 then (Idle, [b])
      else if 0xC2 \<le> b \<and> b \<le> 0xDF then (Need 1 (b - 0xC0) 0x80 0xBF, [])
      else if 0xE0 \<le> b \<and> b \<le> 0xEF then
        (Need 2 (b - 0xE0) (if b = 0xE0 then 0xA0 else 0x80) (if b = 0xED then 0x9F else 0xBF), [])
      else if 0xF0 \<le> b \<and> b \<le> 0xF4 then
        (Need 3 (b - 0xF0) (if b = 0xF0 then 0x90 else 0x80) (if b = 0xF4 then 0x8F else 0xBF), [])
      else (Idle, [0xFFFD]))"

fun utf8_step :: "utf8_state \<Rightarrow> nat \<Rightarrow> utf8_state \<times> nat list" where
  "utf8_step Idle b = utf8_first b"
| "utf8_step (Need n cp lo hi) b =
     (if lo \<le> b \<and> b \<le> hi then
        (let cp' = cp * 64 + b mod 64
         in if n = 1 then (Idle, [cp']) else (Need (n - 1) cp' 0x80 0xBF, []))
      else (let (st, out) = utf8_first b in (st, 0xFFFD # out)))"

fun utf8_run :: "utf8_state \<Rightarrow> bytes \<Rightarrow> nat list" where
  "utf8_run st [] = (if st = Idle then [] else [0xFFFD])"
| "utf8_run st (b # bs) = (let (st', out) = utf8_step st (unat b) in out @ utf8_run st' bs)"

definition utf16 :: "nat \<Rightarrow> js_string" where
  "utf16 c =
     (if c < 0x10000 then [of_nat c]
      else [of_nat (0xD800 + (c - 0x10000) div 0x400), of_nat (0xDC00 + (c - 0x10000) mod 0x400)])"

text \<open>\<open>new TextDecoder().decode(bs)\<close>.\<close>

definition textDecode :: "bytes \<Rightarrow> js_string" where
  "textDecode bs =
     (let cps = utf8_run Idle bs
      in concat (map utf16 (case cps of [] \<Rightarrow> [] | c # cs \<Rightarrow> if c = 0xFEFF then cs else c # cs)))"

text \<open>Text without lone surrogates.\<close>

fun wellFormedText :: "js_string \<Rightarrow> bool" where
  "wellFormedText [] = True"
| "wellFormedText [u] = (\<not> highSurrogate u \<and> \<not> lowSurrogate u)"
| "wellFormedText (u # v # s) =
     (if highSurrogate u then lowSurrogate v \<and> wellFormedText s
      else \<not> lowSurrogate u \<and> wellFormedText (v # s))"

text \<open>The texts that \<open>TextDecoder\<close> gives back unchanged.\<close>

definition decodable :: "js_string \<Rightarrow> bool" where
  "decodable s \<longleftrightarrow> wellFormedText s \<and> (s = [] \<or> hd s \<noteq> 0xFEFF)"

section \<open>ASCII text\<close>

lemma isAscii_simps [simp]:
  "isAscii []"
  "isAscii (u # s) \<longleftrightarrow> u < 128 \<and> isAscii s"
  "isAscii (s @ t) \<longleftrightarrow> isAscii s \<and> isAscii t"
  by (simp_all add: isAscii_def)

lemma ascii_unit_unat: "u < 128 \<longleftrightarrow> unat u < 128" for u :: u16
  by (simp add: word_less_nat_alt)

lemma ascii_not_surrogate: "u < 128 \<Longrightarrow> \<not> highSurrogate u \<and> \<not> lowSurrogate u"
  by (simp add: highSurrogate_def lowSurrogate_def word_less_nat_alt word_le_nat_alt)

lemma codePoints_ascii: "isAscii s \<Longrightarrow> codePoints s = map unat s"
  by (induction s rule: codePoints.induct) (auto simp: ascii_not_surrogate)

lemma textEncode_ascii: "isAscii s \<Longrightarrow> textEncode s = map ucast s"
proof -
  assume s: "isAscii s"
  have "concat (map utf8 (map unat s)) = map ucast s"
    using s by (induction s) (auto simp: utf8_def word_less_nat_alt)
  with s show ?thesis by (simp add: textEncode_def codePoints_ascii)
qed

lemma length_textEncode_ascii: "isAscii s \<Longrightarrow> length (textEncode s) = length s"
  by (simp add: textEncode_ascii)

lemma wellFormed_ascii: "isAscii s \<Longrightarrow> wellFormedText s"
  by (induction s rule: wellFormedText.induct) (auto simp: ascii_not_surrogate)

lemma decodable_ascii: "isAscii s \<Longrightarrow> decodable s"
  by (cases s) (auto simp: decodable_def wellFormed_ascii)

section \<open>Decoding inverts encoding\<close>

definition scalar :: "nat \<Rightarrow> bool" where
  "scalar c \<longleftrightarrow> c < 0xD800 \<or> (0xE000 \<le> c \<and> c < 0x110000)"

lemma unat_byte_of_nat: "n < 256 \<Longrightarrow> unat (of_nat n :: 8 word) = n"
  by (simp add: unat_of_nat)

lemma unat_unit_of_nat: "n < 65536 \<Longrightarrow> unat (of_nat n :: 16 word) = n"
  by (simp add: unat_of_nat)

lemma tail_bits: "d < 64 \<Longrightarrow> (128 + d) mod 64 = d" for d :: nat
  by (simp add: mod_add_left_eq [of 128 64 d, symmetric])

lemma utf8_run_2:
  assumes "unat x = 0xC0 + a" "unat y = 0x80 + d" "2 \<le> a" "a < 32" "d < 64"
  shows "utf8_run Idle (x # y # rest) = (a * 64 + d) # utf8_run Idle rest"
  using assms by (auto simp: utf8_first_def tail_bits)

lemma utf8_run_3:
  assumes "unat x = 0xE0 + a" "unat y = 0x80 + b" "unat z = 0x80 + d"
    and "a < 16" "b < 64" "d < 64" "a = 0 \<Longrightarrow> 32 \<le> b" "a = 13 \<Longrightarrow> b < 32"
  shows "utf8_run Idle (x # y # z # rest) = (a * 4096 + b * 64 + d) # utf8_run Idle rest"
  using assms by (auto simp: utf8_first_def tail_bits)

lemma utf8_run_4:
  assumes "unat w = 0xF0 + e" "unat x = 0x80 + a" "unat y = 0x80 + b" "unat z = 0x80 + d"
    and "e < 5" "a < 64" "b < 64" "d < 64" "e = 0 \<Longrightarrow> 16 \<le> a" "e = 4 \<Longrightarrow> a < 16"
  shows "utf8_run Idle (w # x # y # z # rest) =
    (e * 262144 + a * 4096 + b * 64 + d) # utf8_run Idle rest"
  using assms by (auto simp: utf8_first_def tail_bits)

lemma digits64: "c div 4096 = c div 64 div 64" "c div 262144 = c div 64 div 64 div 64" for c :: nat
  by (simp_all flip: div_mult2_eq)

lemma base64_3: "c div 4096 * 4096 + c div 64 mod 64 * 64 + c mod 64 = c" for c :: nat
  using div_mult_mod_eq [of c 64] div_mult_mod_eq [of "c div 64" 64] unfolding digits64
  by linarith

lemma base64_4:
  "c div 262144 * 262144 + c div 4096 mod 64 * 4096 + c div 64 mod 64 * 64 + c mod 64 = c" for c :: nat
  using div_mult_mod_eq [of c 64] div_mult_mod_eq [of "c div 64" 64] div_mult_mod_eq [of "c div 64 div 64" 64]
  unfolding digits64 by linarith

lemma utf8_run_utf8:
  assumes "scalar c"
  shows "utf8_run Idle (utf8 c @ rest) = c # utf8_run Idle rest"
proof -
  consider "c < 0x80" | "0x80 \<le> c" "c < 0x800" | "0x800 \<le> c" "c < 0x10000" | "0x10000 \<le> c"
    by linarith
  then show ?thesis
  proof cases
    case 1
    then show ?thesis by (simp add: utf8_def utf8_first_def unat_byte_of_nat)
  next
    case 2
    then have "2 \<le> c div 64" "c div 64 < 32" by auto
    then have "utf8_run Idle (utf8 c @ rest) = (c div 64 * 64 + c mod 64) # utf8_run Idle rest"
      using 2 unfolding utf8_def
      by (simp del: of_nat_add utf8_run.simps add: utf8_run_2 unat_byte_of_nat)
    then show ?thesis by simp
  next
    case 3
    have "c div 4096 = 0 \<Longrightarrow> 32 \<le> c div 64 mod 64" "c div 4096 = 13 \<Longrightarrow> c div 64 mod 64 < 32"
      using 3 assms base64_3 [of c] mod_less_divisor [of 64 c] by (auto simp: scalar_def)
    moreover have "c div 4096 < 16" using 3 by auto
    ultimately have "utf8_run Idle (utf8 c @ rest) =
        (c div 4096 * 4096 + c div 64 mod 64 * 64 + c mod 64) # utf8_run Idle rest"
      using 3 unfolding utf8_def
      by (simp del: of_nat_add utf8_run.simps add: utf8_run_3 unat_byte_of_nat)
    then show ?thesis by (simp add: base64_3)
  next
    case 4
    have "c div 262144 = 0 \<Longrightarrow> 16 \<le> c div 4096 mod 64" "c div 262144 = 4 \<Longrightarrow> c div 4096 mod 64 < 16"
      using 4 assms base64_4 [of c] mod_less_divisor [of 64 c] mod_less_divisor [of 64 "c div 64"]
      by (auto simp: scalar_def)
    moreover have "c div 262144 < 5" using 4 assms by (auto simp: scalar_def)
    ultimately have "utf8_run Idle (utf8 c @ rest) =
        (c div 262144 * 262144 + c div 4096 mod 64 * 4096 + c div 64 mod 64 * 64 + c mod 64) # utf8_run Idle rest"
      using 4 unfolding utf8_def
      by (simp del: of_nat_add utf8_run.simps add: utf8_run_4 unat_byte_of_nat)
    then show ?thesis by (simp add: base64_4)
  qed
qed

lemma codePoints_scalar: "list_all scalar (codePoints s)"
proof (induction s rule: codePoints.induct)
  case (2 u)
  have "unat u < 65536" using unsigned_less [of u, where 'a = nat] by simp
  then show ?case by (auto simp: scalar_def highSurrogate_def lowSurrogate_def word_less_nat_alt word_le_nat_alt)
next
  case (3 u v s)
  have "unat u < 65536" using unsigned_less [of u, where 'a = nat] by simp
  then show ?case using 3
    by (auto simp: scalar_def highSurrogate_def lowSurrogate_def word_less_nat_alt word_le_nat_alt)
qed simp

lemma utf8_run_concat: "list_all scalar cs \<Longrightarrow> utf8_run Idle (concat (map utf8 cs)) = cs"
  by (induction cs) (simp_all add: utf8_run_utf8)

lemma utf16_pair:
  assumes "highSurrogate u" "lowSurrogate v"
  shows "utf16 (0x10000 + (unat u - 0xD800) * 0x400 + (unat v - 0xDC00)) = [u, v]"
proof -
  define a b where "a = unat u - 0xD800" and "b = unat v - 0xDC00"
  have u: "unat u = 0xD800 + a" and v: "unat v = 0xDC00 + b" and b: "b < 0x400"
    using assms by (auto simp: a_def b_def highSurrogate_def lowSurrogate_def word_less_nat_alt word_le_nat_alt)
  have "utf16 (0x10000 + a * 0x400 + b) = [of_nat (unat u), of_nat (unat v)]"
    unfolding u v using b by (simp del: of_nat_add add: utf16_def div_add1_eq)
  then show ?thesis unfolding a_def b_def by simp
qed

lemma utf16_codePoints: "wellFormedText s \<Longrightarrow> concat (map utf16 (codePoints s)) = s"
proof (induction s rule: codePoints.induct)
  case (2 u)
  have "unat u < 65536" using unsigned_less [of u, where 'a = nat] by simp
  with 2 show ?case by (simp add: utf16_def)
next
  case (3 u v s)
  have "unat u < 65536" using unsigned_less [of u, where 'a = nat] by simp
  with 3 show ?case by (auto simp: utf16_def [of "unat u"] utf16_pair split: if_splits)
qed simp

lemma codePoints_hd:
  assumes "codePoints s = c # cs" "wellFormedText s" "c = 0xFEFF"
  shows "hd s = 0xFEFF"
proof -
  have "concat (map utf16 (c # cs)) = s" using assms utf16_codePoints by metis
  then show ?thesis using assms(3) by (auto simp: utf16_def)
qed

lemma textDecode_textEncode:
  assumes "decodable s"
  shows "textDecode (textEncode s) = s"
proof -
  have wf: "wellFormedText s" using assms by (simp add: decodable_def)
  have "utf8_run Idle (textEncode s) = codePoints s"
    by (simp add: textEncode_def utf8_run_concat codePoints_scalar)
  moreover have "(case codePoints s of [] \<Rightarrow> [] | c # cs \<Rightarrow> if c = 0xFEFF then cs else c # cs) = codePoints s"
    using assms wf codePoints_hd [of s] by (auto simp: decodable_def split: list.split)
  ultimately show ?thesis
    by (simp add: textDecode_def utf16_codePoints wf)
qed

lemma codePoints_ascii_iff: "list_all (\<lambda>c. c < 128) (codePoints s) \<longleftrightarrow> isAscii s"
proof (induction s rule: codePoints.induct)
  case (2 u)
  show ?case using ascii_not_surrogate [of u] by (auto simp: word_less_nat_alt)
next
  case (3 u v s)
  show ?case using 3 ascii_not_surrogate [of u] by (auto simp: word_less_nat_alt)
qed simp

lemma utf8_ascii_iff: "scalar c \<Longrightarrow> list_all (\<lambda>b. b < 128) (utf8 c) \<longleftrightarrow> c < 128"
proof (cases "c < 128")
  case True
  then show ?thesis by (simp add: utf8_def word_less_nat_alt unat_byte_of_nat)
next
  case False
  assume "scalar c"
  with False have "\<exists>n rest. utf8 c = of_nat n # rest \<and> 128 \<le> n \<and> n < 256"
    by (auto simp del: of_nat_add simp: utf8_def scalar_def)
  with False show ?thesis by (auto simp: word_less_nat_alt unat_byte_of_nat)
qed

lemma textEncode_ascii_iff: "list_all (\<lambda>b. b < 128) (textEncode s) \<longleftrightarrow> isAscii s"
proof -
  have "list_all (\<lambda>b. b < 128) (concat (map utf8 cs)) \<longleftrightarrow> list_all (\<lambda>c. c < 128) cs"
    if "list_all scalar cs" for cs
    using that by (induction cs) (auto simp: utf8_ascii_iff)
  then show ?thesis
    by (simp add: textEncode_def codePoints_scalar codePoints_ascii_iff)
qed
section \<open>String methods\<close>

lemma startsWith_iff_prefix: "startsWith s p \<longleftrightarrow> prefix p s"
  by (metis append_take_drop_id prefixE prefixI startsWith_def take_length_append)

lemma endsWith_iff_suffix: "endsWith s p \<longleftrightarrow> suffix p s"
  unfolding endsWith_def suffix_def
  by (metis append_take_drop_id diff_diff_cancel length_append length_drop le_add2 append_eq_append_conv)

lemma includesText_iff_sublist: "includesText s p \<longleftrightarrow> sublist p s"
  by (induction s) (auto simp: startsWith_iff_prefix sublist_Cons_right)

lemma dropEnd_append [simp]: "dropEnd (length t) (s @ t) = s"
  by (simp add: dropEnd_def)

lemma dropWhile_hd: "xs = [] \<or> \<not> P (hd xs) \<Longrightarrow> dropWhile P xs = xs"
  by (cases xs) auto

lemma last_dropWhile: "dropWhile P xs \<noteq> [] \<Longrightarrow> last (dropWhile P xs) = last xs"
  by (induction xs) auto

lemma trim_noop: "s = [] \<or> (\<not> isSpace (hd s) \<and> \<not> isSpace (last s)) \<Longrightarrow> trim s = s"
  by (auto simp: trim_def dropWhile_hd hd_rev)

lemma trim_ends: "trim s = [] \<or> (\<not> isSpace (hd (trim s)) \<and> \<not> isSpace (last (trim s)))"
proof -
  define t where "t = dropWhile isSpace s"
  define r where "r = dropWhile isSpace (rev t)"
  have trim: "trim s = rev r" by (simp add: trim_def r_def t_def)
  show ?thesis
  proof (cases "r = []")
    case False
    have "\<not> isSpace (hd r)" using False hd_dropWhile [of isSpace "rev t"] by (simp add: r_def)
    moreover have "\<not> isSpace (last r)"
    proof -
      have "t \<noteq> []" using False by (auto simp: r_def)
      then have "\<not> isSpace (hd t)" using hd_dropWhile [of isSpace s] by (simp add: t_def)
      moreover have "last r = last (rev t)" using False unfolding r_def by (rule last_dropWhile)
      ultimately show ?thesis using \<open>t \<noteq> []\<close> by (simp add: last_rev)
    qed
    ultimately show ?thesis using False by (simp add: trim hd_rev last_rev)
  qed (simp add: trim)
qed

lemma trim_trim [simp]: "trim (trim s) = trim s"
  using trim_ends [of s] by (rule trim_noop)

lemma isAscii_map_lower [simp]: "isAscii (map lowerUnit s) \<longleftrightarrow> isAscii s"
  by (induction s) (auto simp: lowerUnit_def word_less_nat_alt word_le_nat_alt unat_word_ariths)

section \<open>Pattern tests on literal texts\<close>

text \<open>Tests on texts of the source are evaluated on characters, where literals compare quickly.\<close>

fun begins :: "string \<Rightarrow> string \<Rightarrow> bool" where
  "begins [] t = True"
| "begins (p # ps) [] = False"
| "begins (p # ps) (c # t) = (if p = c then begins ps t else False)"

fun occurs :: "string \<Rightarrow> string \<Rightarrow> bool" where
  "occurs p [] = (p = [])"
| "occurs p (c # t) = (if begins p (c # t) then True else occurs p t)"

lemma of_char_u16 [simp]: "(of_char c :: u16) = of_char d \<longleftrightarrow> c = d"
proof
  have less: "(of_char e :: nat) < 2 ^ LENGTH(16)" for e
    using nat_of_char_less_256 [of e] by (rule less_trans) simp
  assume "(of_char c :: u16) = of_char d"
  then have "(word_of_nat (of_char c) :: u16) = word_of_nat (of_char d)" by (simp add: of_nat_of_char)
  then have "(of_char c :: nat) = of_char d" using less by (simp add: word_of_nat_eq_iff take_bit_nat_eq_self)
  then show "c = d" by simp
qed simp

lemma startsWith_js: "startsWith (js t) (js p) = begins p t"
  by (induction p t rule: begins.induct) (auto simp: js_def startsWith_def)

lemma includesText_js: "includesText (js t) (js p) = occurs p t"
proof (induction t)
  case Nil
  show ?case by (simp add: js_def)
next
  case (Cons c t)
  have "includesText (js (c # t)) (js p) \<longleftrightarrow> startsWith (js (c # t)) (js p) \<or> includesText (js t) (js p)"
    by (simp add: js_def)
  then show ?case by (simp add: startsWith_js Cons)
qed

end
