(* ===== verification/App_Types.thy ===== *)
theory App_Types
  imports Js_Text
begin

text \<open>
  The data that the manager's error classes carry (\<^verbatim>\<open>wallet-status.ts\<close>, \<^verbatim>\<open>bip322.ts\<close> and \<^verbatim>\<open>ans.ts\<close> of the manager).
  The manager's errors pass through calls of the SDK, whose callbacks throw them, so the type of errors has them
  all and their data comes first.
\<close>

record ConnectedAccount =
  ca_address :: js_string
  ca_publicKey :: js_string
  ca_archAddress :: js_string
  ca_kind :: "js_string option"
  ca_providerId :: "js_string option"
  ca_providerLabel :: "js_string option"

datatype SignatureCheck = SigMatch | SigMismatch | SigUnverifiable

datatype pin_source = Reported | Observed

record AccountSwitchContext =
  sc_pinSource :: pin_source
  sc_pinnedAt :: int
  sc_approvalsCompleted :: nat
  sc_checkpoint :: js_string

record SignerProbe =
  pr_fingerprint :: js_string
  pr_result :: SignatureCheck

datatype SubmitPhase = AccountSetup | Mutation

text \<open>\<open>stage\<close> has the one value \<open>"confirming"\<close> where it is present.\<close>

record SubmitProgress =
  sp_phase :: SubmitPhase
  sp_confirming :: bool
  sp_approvalIndex :: nat
  sp_approvalTotal :: nat
  sp_attempt :: nat

end
