(* ===== verification/Ans_Types.thy ===== *)
theory Ans_Types
  imports App_Types
begin

text \<open>
  The data of the SDK: \<^verbatim>\<open>errors.ts\<close>, \<^verbatim>\<open>constants.ts\<close> and \<^verbatim>\<open>types.ts\<close>. An interface is a
  record whose fields carry the interface's initials; a union of string literals is an enumeration
  datatype; a discriminated union is a datatype. A JavaScript \<open>number\<close> that holds an integer and a
  \<open>bigint\<close> are both \<open>int\<close>; the ranges the on-chain format has are stated where they matter.
\<close>

section \<open>Errors (errors.ts)\<close>

datatype AnsErrorCode =
    InvalidSuffix | InvalidLabelLength | InvalidLabelCharacter | InvalidHyphenPlacement
  | InvalidDiscriminator | UnsupportedAccountVersion | InvalidAccountDerivation | NameMismatch
  | NameTaken | InactiveName | StaleRecord | RecordTypeMismatch | OwnerRecordMismatch
  | InvalidTaprootAddress | InvalidTokenAta | RecordValueTooLarge | InvalidTextRecord
  | InvalidReverseBinding | CodecError | AccountNotFound | IncorrectProgramId | ManifestMismatch

fun codeText :: "AnsErrorCode \<Rightarrow> js_string" where
  "codeText InvalidSuffix = js ''InvalidSuffix''"
| "codeText InvalidLabelLength = js ''InvalidLabelLength''"
| "codeText InvalidLabelCharacter = js ''InvalidLabelCharacter''"
| "codeText InvalidHyphenPlacement = js ''InvalidHyphenPlacement''"
| "codeText InvalidDiscriminator = js ''InvalidDiscriminator''"
| "codeText UnsupportedAccountVersion = js ''UnsupportedAccountVersion''"
| "codeText InvalidAccountDerivation = js ''InvalidAccountDerivation''"
| "codeText NameMismatch = js ''NameMismatch''"
| "codeText NameTaken = js ''NameTaken''"
| "codeText InactiveName = js ''InactiveName''"
| "codeText StaleRecord = js ''StaleRecord''"
| "codeText RecordTypeMismatch = js ''RecordTypeMismatch''"
| "codeText OwnerRecordMismatch = js ''OwnerRecordMismatch''"
| "codeText InvalidTaprootAddress = js ''InvalidTaprootAddress''"
| "codeText InvalidTokenAta = js ''InvalidTokenAta''"
| "codeText RecordValueTooLarge = js ''RecordValueTooLarge''"
| "codeText InvalidTextRecord = js ''InvalidTextRecord''"
| "codeText InvalidReverseBinding = js ''InvalidReverseBinding''"
| "codeText CodecError = js ''CodecError''"
| "codeText AccountNotFound = js ''AccountNotFound''"
| "codeText IncorrectProgramId = js ''IncorrectProgramId''"
| "codeText ManifestMismatch = js ''ManifestMismatch''"

text \<open>
  What the code throws: an \<open>AnsError\<close> with its code and message, a plain \<open>Error\<close>, the JSON-RPC
  transport's \<open>ArchRpcError\<close> (method, code, data, message), the runner's \<open>TransactionPendingError\<close>
  (transaction id and the last status-lookup failure), and the error classes of the manager. An error
  whose message is made of its data when it is created carries that message as its last field.
\<close>

datatype js_error =
    AnsError AnsErrorCode js_string
  | PlainError js_string
  | ArchRpcError js_string "int option" "js_string option" js_string
  | TransactionPendingError js_string "js_error option"
  | WalletLockedError
  | SiteNotConnectedError
  | UnsupportedWalletKindError js_string
  | WalletAccountChangedError js_string js_string "ConnectedAccount option" AccountSwitchContext js_string
  | SignerMismatchError js_string "js_string option" "SignerProbe list" nat js_string
  | AnsStepError SubmitPhase "SubmitProgress option" js_error

text \<open>\<open>new AnsError(code)\<close>: the message is the code's text.\<close>

definition ansError :: "AnsErrorCode \<Rightarrow> js_error" where
  "ansError c = AnsError c (codeText c)"

fun errorMessage :: "js_error \<Rightarrow> js_string" where
  "errorMessage (AnsError _ m) = m"
| "errorMessage (PlainError m) = m"
| "errorMessage (ArchRpcError _ _ _ m) = m"
| "errorMessage (TransactionPendingError txid lastLookup) =
     js ''Transaction '' @ txid @ js '' was submitted but the network has not confirmed it yet'' @
     (case lastLookup of None \<Rightarrow> [] | Some e \<Rightarrow> js ''; last status lookup failed: '' @ errorMessage e)"
| "errorMessage WalletLockedError = js ''Arch Wallet is locked. Unlock it, then try again.''"
| "errorMessage SiteNotConnectedError = js ''Site not connected to Arch Wallet. Connect it, then try again.''"
| "errorMessage (UnsupportedWalletKindError kind) =
     (if kind = js ''watch''
      then js ''Watch-only wallets cannot sign ANS updates. Switch to an account Arch Wallet holds keys for.''
      else js ''This wallet account kind ('' @ kind @ js '') cannot sign ANS updates.'')"
| "errorMessage (WalletAccountChangedError _ _ _ _ m) = m"
| "errorMessage (SignerMismatchError _ _ _ _ m) = m"
| "errorMessage (AnsStepError _ _ cause) = errorMessage cause"

section \<open>Data types (types.ts)\<close>

type_synonym ArchAddress = bytes

datatype BitcoinNetwork = Mainnet | Testnet | Signet | Regtest

record AccountHeader =
  ah_discriminator :: bytes
  ah_initialized :: bool
  ah_stateVersion :: int

record TokenProgramConfig =
  tp_tokenProgramId :: ArchAddress
  tp_associatedTokenProgramId :: ArchAddress

record RegistryConfig =
  rc_header :: AccountHeader
  rc_programVersion :: int
  rc_networkId :: int
  rc_namespace :: js_string
  rc_namespaceAuthority :: ArchAddress
  rc_gracePeriodSlots :: int
  rc_minRegistrationSlots :: int
  rc_maxRegistrationSlots :: int
  rc_bitcoinNetwork :: BitcoinNetwork
  rc_tokenPrograms :: "TokenProgramConfig list"
  rc_paused :: bool
  rc_mainnetEnabled :: bool

record NameAccount =
  na_header :: AccountHeader
  na_nameHash :: bytes
  na_canonicalLabel :: js_string
  na_owner :: ArchAddress
  na_registeredAtSlot :: int
  na_expiresAtSlot :: int
  na_recordEpoch :: int
  na_primaryBindingNonce :: int

datatype RecordType = ArchOwnerT | BitcoinTaprootT | TokenAtaT | TextT

datatype RecordValue =
    ArchOwner ArchAddress
  | BitcoinTaproot bytes
  | TokenAta ArchAddress ArchAddress
  | Text js_string js_string

fun kindOf :: "RecordValue \<Rightarrow> RecordType" where
  "kindOf (ArchOwner _) = ArchOwnerT"
| "kindOf (BitcoinTaproot _) = BitcoinTaprootT"
| "kindOf (TokenAta _ _) = TokenAtaT"
| "kindOf (Text _ _) = TextT"

record RecordAccount =
  ra_header :: AccountHeader
  ra_nameHash :: bytes
  ra_recordType :: RecordType
  ra_ownerSnapshot :: ArchAddress
  ra_recordEpoch :: int
  ra_revision :: int
  ra_value :: RecordValue
  ra_updatedAtSlot :: int

record ReverseAccount =
  rv_header :: AccountHeader
  rv_owner :: ArchAddress
  rv_primaryNameHash :: bytes
  rv_bindingNonce :: int
  rv_updatedAtSlot :: int

datatype QuoteCurrency = Arch | Btc

record ListingAccount =
  la_header :: AccountHeader
  la_nameHash :: bytes
  la_seller :: ArchAddress
  la_currency :: QuoteCurrency
  la_price :: int
  la_createdAtSlot :: int
  la_active :: bool

record OfferAccount =
  oa_header :: AccountHeader
  oa_nameHash :: bytes
  oa_buyer :: ArchAddress
  oa_currency :: QuoteCurrency
  oa_price :: int
  oa_createdAtSlot :: int
  oa_active :: bool

record 'a AccountAt =
  at_address :: ArchAddress
  at_state :: 'a

record AccountMeta =
  am_pubkey :: ArchAddress
  am_isSigner :: bool
  am_isWritable :: bool

record BuiltInstruction =
  bi_programId :: ArchAddress
  bi_accounts :: "AccountMeta list"
  bi_data :: bytes

datatype DeploymentNetwork = TestnetDeployment | MainnetDeployment

text \<open>\<open>features\<close> and its \<open>textRecords\<close> flag are optional in the manifest.\<close>

record AnsDeploymentManifest =
  mf_network :: DeploymentNetwork
  mf_rpcUrl :: js_string
  mf_programId :: js_string
  mf_registryConfig :: js_string
  mf_networkId :: int
  mf_namespace :: js_string
  mf_programVersion :: int
  mf_bitcoinNetwork :: BitcoinNetwork
  mf_tokenPrograms :: "(js_string \<times> js_string) list"
  mf_mainnetEnabled :: bool
  mf_smokePassed :: "bool option"
  mf_features :: "bool option"

section \<open>Constants (constants.ts)\<close>

definition STATE_VERSION :: int where "STATE_VERSION = 1"

definition REGISTRY_CONFIG_DISCRIMINATOR :: bytes where
  "REGISTRY_CONFIG_DISCRIMINATOR = textEncode (js ''ANSCFG01'')"
definition NAME_ACCOUNT_DISCRIMINATOR :: bytes where
  "NAME_ACCOUNT_DISCRIMINATOR = textEncode (js ''ANSNAME1'')"
definition RECORD_ACCOUNT_DISCRIMINATOR :: bytes where
  "RECORD_ACCOUNT_DISCRIMINATOR = textEncode (js ''ANSRECR1'')"
definition REVERSE_ACCOUNT_DISCRIMINATOR :: bytes where
  "REVERSE_ACCOUNT_DISCRIMINATOR = textEncode (js ''ANSREVR1'')"
definition LISTING_ACCOUNT_DISCRIMINATOR :: bytes where
  "LISTING_ACCOUNT_DISCRIMINATOR = textEncode (js ''ANSLIST1'')"
definition OFFER_ACCOUNT_DISCRIMINATOR :: bytes where
  "OFFER_ACCOUNT_DISCRIMINATOR = textEncode (js ''ANSOFFR1'')"

definition CONFIG_SEED :: bytes where "CONFIG_SEED = textEncode (js ''ans:config:v1'')"
definition NAME_SEED :: bytes where "NAME_SEED = textEncode (js ''ans:name:v1'')"
definition RECORD_SEED :: bytes where "RECORD_SEED = textEncode (js ''ans:record:v1'')"
definition REVERSE_SEED :: bytes where "REVERSE_SEED = textEncode (js ''ans:reverse:v1'')"
definition LISTING_SEED :: bytes where "LISTING_SEED = textEncode (js ''ans:listing:v1'')"
definition OFFER_SEED :: bytes where "OFFER_SEED = textEncode (js ''ans:offer:v1'')"

definition NAMESPACE_DOMAIN :: bytes where
  "NAMESPACE_DOMAIN = textEncode (js ''arch-name-service:namespace:v1'' @ [0])"
definition NAME_HASH_DOMAIN :: bytes where
  "NAME_HASH_DOMAIN = textEncode (js ''arch-name-service:name-hash:v1'' @ [0])"
definition RECORD_KEY_DOMAIN :: bytes where
  "RECORD_KEY_DOMAIN = textEncode (js ''arch-name-service:record-key:v1'' @ [0])"

definition ARCH_SUFFIX :: js_string where "ARCH_SUFFIX = js ''.arch''"
definition MAX_TEXT_KEY_LEN :: nat where "MAX_TEXT_KEY_LEN = 32"
definition MAX_TEXT_VALUE_LEN :: nat where "MAX_TEXT_VALUE_LEN = 256"

definition SYSTEM_PROGRAM_ID :: bytes where "SYSTEM_PROGRAM_ID = replicate 32 0"

definition TOKEN_PROGRAM_ID :: bytes where
  "TOKEN_PROGRAM_ID =
    [6, 221, 246, 225, 185, 234, 132, 65, 44, 16, 184, 223, 2, 28, 16, 15, 200, 135, 25, 7, 195, 9,
     195, 53, 53, 222, 32, 156, 52, 23, 99, 191]"

definition ASSOCIATED_TOKEN_PROGRAM_ID :: bytes where
  "ASSOCIATED_TOKEN_PROGRAM_ID =
    [140, 151, 35, 17, 132, 146, 123, 119, 181, 241, 128, 17, 143, 204, 104, 52, 20, 183, 124, 82, 30,
     90, 119, 8, 28, 247, 29, 95, 96, 106, 83, 132]"

text \<open>The hex literal of the testnet aBTC mint, byte by byte.\<close>

definition TESTNET_ABTC_MINT :: bytes where
  "TESTNET_ABTC_MINT =
    [0x72, 0x61, 0x79, 0xcf, 0x49, 0xb6, 0xdc, 0x40, 0x7c, 0x14, 0x38, 0xce, 0xc9, 0x88, 0x15, 0xd9,
     0x22, 0x77, 0xb6, 0x25, 0xb0, 0x9d, 0xe8, 0x18, 0x18, 0xf5, 0xf3, 0xa5, 0x79, 0x89, 0xf1, 0xf1]"

lemmas discriminator_defs =
  REGISTRY_CONFIG_DISCRIMINATOR_def NAME_ACCOUNT_DISCRIMINATOR_def RECORD_ACCOUNT_DISCRIMINATOR_def
  REVERSE_ACCOUNT_DISCRIMINATOR_def LISTING_ACCOUNT_DISCRIMINATOR_def OFFER_ACCOUNT_DISCRIMINATOR_def

lemmas seed_defs = CONFIG_SEED_def NAME_SEED_def RECORD_SEED_def REVERSE_SEED_def LISTING_SEED_def OFFER_SEED_def

lemma isAscii_js: "list_all (\<lambda>c. (of_char c :: u16) < 128) s \<Longrightarrow> isAscii (js s)"
  by (simp add: isAscii_def js_def list_all_iff)

lemma discriminator_bytes:
  "REGISTRY_CONFIG_DISCRIMINATOR = [65, 78, 83, 67, 70, 71, 48, 49]"
  "NAME_ACCOUNT_DISCRIMINATOR = [65, 78, 83, 78, 65, 77, 69, 49]"
  "RECORD_ACCOUNT_DISCRIMINATOR = [65, 78, 83, 82, 69, 67, 82, 49]"
  "REVERSE_ACCOUNT_DISCRIMINATOR = [65, 78, 83, 82, 69, 86, 82, 49]"
  "LISTING_ACCOUNT_DISCRIMINATOR = [65, 78, 83, 76, 73, 83, 84, 49]"
  "OFFER_ACCOUNT_DISCRIMINATOR = [65, 78, 83, 79, 70, 70, 82, 49]"
  by (simp_all add: discriminator_defs js_def textEncode_ascii)

lemma seed_bytes:
  "CONFIG_SEED = [97, 110, 115, 58, 99, 111, 110, 102, 105, 103, 58, 118, 49]"
  "NAME_SEED = [97, 110, 115, 58, 110, 97, 109, 101, 58, 118, 49]"
  "RECORD_SEED = [97, 110, 115, 58, 114, 101, 99, 111, 114, 100, 58, 118, 49]"
  "REVERSE_SEED = [97, 110, 115, 58, 114, 101, 118, 101, 114, 115, 101, 58, 118, 49]"
  "LISTING_SEED = [97, 110, 115, 58, 108, 105, 115, 116, 105, 110, 103, 58, 118, 49]"
  "OFFER_SEED = [97, 110, 115, 58, 111, 102, 102, 101, 114, 58, 118, 49]"
  by (simp_all add: seed_defs js_def textEncode_ascii)

lemma program_id_lengths [simp]:
  "length SYSTEM_PROGRAM_ID = 32" "length TOKEN_PROGRAM_ID = 32"
  "length ASSOCIATED_TOKEN_PROGRAM_ID = 32" "length TESTNET_ABTC_MINT = 32"
  by (simp_all add: SYSTEM_PROGRAM_ID_def TOKEN_PROGRAM_ID_def ASSOCIATED_TOKEN_PROGRAM_ID_def
      TESTNET_ABTC_MINT_def)

end
