(* ===== verification/Transport.thy ===== *)
theory Transport
  imports Ans_Types
begin

text \<open>
  The transport interface of \<^verbatim>\<open>transport/types.ts\<close> and asynchronous computations. A promise that is
  awaited where it is made is a state transformer: it takes the world \<open>'w\<close> (network, clock, whatever
  a transport observes and changes) to its settlement, a value or a rejection, and the next world.
  The transport's methods are functions into such computations; the optional ones are options.
\<close>

section \<open>Asynchronous computations\<close>

type_synonym ('w, 'a) io = "'w \<Rightarrow> (js_error + 'a) \<times> 'w"

definition retIO :: "'a \<Rightarrow> ('w, 'a) io" where
  "retIO a w = (Inr a, w)"

definition throwIO :: "js_error \<Rightarrow> ('w, 'a) io" where
  "throwIO e w = (Inl e, w)"

text \<open>A synchronous expression inside an asynchronous function.\<close>

definition pureIO :: "js_error + 'a \<Rightarrow> ('w, 'a) io" where
  "pureIO r w = (r, w)"

definition bindIO :: "('w, 'a) io \<Rightarrow> ('a \<Rightarrow> ('w, 'b) io) \<Rightarrow> ('w, 'b) io" where
  "bindIO m k w = (case m w of (Inl e, w') \<Rightarrow> (Inl e, w') | (Inr a, w') \<Rightarrow> k a w')"

text \<open>\<open>try { m } catch (e) { h e }\<close>.\<close>

definition catchIO :: "('w, 'a) io \<Rightarrow> (js_error \<Rightarrow> ('w, 'a) io) \<Rightarrow> ('w, 'a) io" where
  "catchIO m h w = (case m w of (Inl e, w') \<Rightarrow> h e w' | (Inr a, w') \<Rightarrow> (Inr a, w'))"

text \<open>\<open>Promise.all\<close> over calls that settle in the order in which they are issued: all of them run, and
  the first rejection is the result.\<close>

fun allIO :: "('w, 'a) io list \<Rightarrow> ('w, 'a list) io" where
  "allIO [] w = (Inr [], w)"
| "allIO (m # ms) w =
     (let (r, w') = m w; (rs, w'') = allIO ms w' in
      (bindR r (\<lambda>a. bindR rs (\<lambda>as. Inr (a # as))), w''))"

lemma io_simps [simp]:
  "retIO a w = (Inr a, w)" "throwIO e w = (Inl e, w)" "pureIO r w = (r, w)"
  by (simp_all add: retIO_def throwIO_def pureIO_def)

lemma bindIO_pure [simp]:
  "bindIO (retIO a) k = k a" "bindIO (pureIO (Inr a)) k = k a" "bindIO (pureIO (Inl e)) k = throwIO e"
  "bindIO (throwIO e) k = throwIO e"
  by (simp_all add: bindIO_def fun_eq_iff)

lemma bindIO_assoc: "bindIO (bindIO m k) h = bindIO m (\<lambda>a. bindIO (k a) h)"
  by (auto simp: bindIO_def fun_eq_iff split: prod.splits sum.splits)

lemma bindIO_step: "m w = (Inr a, w') \<Longrightarrow> bindIO m k w = k a w'"
  by (simp add: bindIO_def)

lemma bindIO_fail: "m w = (Inl e, w') \<Longrightarrow> bindIO m k w = (Inl e, w')"
  by (simp add: bindIO_def)

section \<open>The transport interface (transport/types.ts)\<close>

record AccountInfo =
  ai_data :: bytes
  ai_owner :: bytes
  ai_lamports :: int
  ai_isExecutable :: bool

record ProgramAccountEntry =
  pe_pubkey :: bytes
  pe_account :: AccountInfo

record ProcessedTransaction =
  pt_status :: js_string
  pt_error :: "js_string option"

datatype AccountFilter = DataSize nat | DataContent nat bytes

record ('w, 'tx) AnsTransport =
  readAccountInfo :: "bytes \<Rightarrow> ('w, AccountInfo option) io"
  getMultipleAccounts :: "(bytes list \<Rightarrow> ('w, AccountInfo option list) io) option"
  getProgramAccounts :: "(bytes \<Rightarrow> AccountFilter list \<Rightarrow> ('w, ProgramAccountEntry list) io) option"
  getCurrentSlot :: "('w, int) io"
  getBestBlockHash :: "('w, bytes) io"
  sendTransaction :: "'tx \<Rightarrow> ('w, js_string) io"
  getProcessedTransaction :: "js_string \<Rightarrow> ('w, ProcessedTransaction option) io"

section \<open>Computations that settle alike in a set of worlds\<close>

text \<open>\<open>settles W m r\<close>: from every world of \<open>W\<close> the computation \<open>m\<close> settles with \<open>r\<close> and stays in \<open>W\<close>.\<close>

definition settles :: "'w set \<Rightarrow> ('w, 'a) io \<Rightarrow> js_error + 'a \<Rightarrow> bool" where
  "settles W m r \<longleftrightarrow> (\<forall>w \<in> W. \<exists>w' \<in> W. m w = (r, w'))"

named_theorems io_intros \<open>how composed computations settle\<close>

lemma settles_fst: "settles W m r \<Longrightarrow> w \<in> W \<Longrightarrow> fst (m w) = r"
  by (fastforce simp: settles_def)

lemma settles_eq: "settles W m r \<Longrightarrow> r = r' \<Longrightarrow> settles W m r'"
  by simp

lemma settles_pure [io_intros]:
  "settles W (retIO a) (Inr a)" "settles W (throwIO e) (Inl e)" "settles W (pureIO r) r"
  by (simp_all add: settles_def)

lemma settles_bind [io_intros]:
  assumes "settles W m r" "\<And>a. r = Inr a \<Longrightarrow> settles W (k a) (f a)"
  shows "settles W (bindIO m k) (bindR r f)"
  using assms by (cases r) (fastforce simp: settles_def bindIO_def)+

lemma settles_option [io_intros]:
  assumes "x = None \<Longrightarrow> settles W m r" "\<And>a. x = Some a \<Longrightarrow> settles W (k a) (f a)"
  shows "settles W (case x of None \<Rightarrow> m | Some a \<Rightarrow> k a) (case x of None \<Rightarrow> r | Some a \<Rightarrow> f a)"
  using assms by (cases x) auto

lemma settles_if [io_intros]:
  assumes "b \<Longrightarrow> settles W m r" "\<not> b \<Longrightarrow> settles W m' r'"
  shows "settles W (if b then m else m') (if b then r else r')"
  using assms by auto

lemma settles_all: "list_all2 (settles W) ms rs \<Longrightarrow> settles W (allIO ms) (mapR (\<lambda>r. r) rs)"
proof (induction rule: list_all2_induct)
  case Nil
  show ?case by (simp add: settles_def)
next
  case (Cons m ms r rs)
  then show ?case by (fastforce simp: settles_def split: prod.splits)
qed

section \<open>Computations with a precondition\<close>

text \<open>\<open>triple P m Q F\<close>: from every world of \<open>P\<close> the computation \<open>m\<close> ends with a value and a world of \<open>Q\<close>, or with an error
  and a world of \<open>F\<close>.\<close>

definition triple :: "('w \<Rightarrow> bool) \<Rightarrow> ('w, 'a) io \<Rightarrow> ('a \<Rightarrow> 'w \<Rightarrow> bool) \<Rightarrow> (js_error \<Rightarrow> 'w \<Rightarrow> bool) \<Rightarrow> bool" where
  "triple P m Q F \<longleftrightarrow> (\<forall>w. P w \<longrightarrow> (case m w of (Inl e, w') \<Rightarrow> F e w' | (Inr a, w') \<Rightarrow> Q a w'))"

named_theorems triple_intros \<open>triples of composed computations\<close>

lemma tripleI:
  assumes "\<And>w a w'. P w \<Longrightarrow> m w = (Inr a, w') \<Longrightarrow> Q a w'" "\<And>w e w'. P w \<Longrightarrow> m w = (Inl e, w') \<Longrightarrow> F e w'"
  shows "triple P m Q F"
  using assms unfolding triple_def by (auto split: prod.splits sum.splits)

lemma tripleD:
  assumes "triple P m Q F" "P w"
  shows "m w = (Inr a, w') \<Longrightarrow> Q a w'" "m w = (Inl e, w') \<Longrightarrow> F e w'"
  using assms unfolding triple_def by fastforce+

lemma triple_weaken:
  assumes "triple P m Q F" "\<And>w. P' w \<Longrightarrow> P w" "\<And>a w. Q a w \<Longrightarrow> Q' a w" "\<And>e w. F e w \<Longrightarrow> F' e w"
  shows "triple P' m Q' F'"
  using tripleD [OF assms(1)] assms(2-4) by (blast intro: tripleI)

lemma triple_pure [triple_intros]:
  "(\<And>w. P w \<Longrightarrow> Q a w) \<Longrightarrow> triple P (retIO a) Q F" "(\<And>w. P w \<Longrightarrow> F e w) \<Longrightarrow> triple P (throwIO e) Q F"
  by (simp_all add: triple_def)

lemma triple_pureIO:
  "(\<And>a w. r = Inr a \<Longrightarrow> P w \<Longrightarrow> Q a w) \<Longrightarrow> (\<And>e w. r = Inl e \<Longrightarrow> P w \<Longrightarrow> F e w) \<Longrightarrow> triple P (pureIO r) Q F"
  by (auto intro: tripleI)

lemma triple_bind:
  assumes "triple P m R F" "\<And>a. triple (R a) (k a) Q F"
  shows "triple P (bindIO m k) Q F"
  using tripleD [OF assms(1)] tripleD [OF assms(2)]
  unfolding triple_def bindIO_def by (auto split: prod.splits sum.splits) blast+

lemma triple_catch:
  assumes "triple P m Q G" "\<And>e. triple (G e) (h e) Q F"
  shows "triple P (catchIO m h) Q F"
  using tripleD [OF assms(1)] tripleD [OF assms(2)]
  unfolding triple_def catchIO_def by (auto split: prod.splits sum.splits) blast+

lemma triple_option [triple_intros]:
  "(x = None \<Longrightarrow> triple P m Q F) \<Longrightarrow> (\<And>a. x = Some a \<Longrightarrow> triple P (k a) Q F) \<Longrightarrow>
   triple P (case x of None \<Rightarrow> m | Some a \<Rightarrow> k a) Q F"
  by (cases x) auto

lemma triple_if [triple_intros]:
  "(b \<Longrightarrow> triple P m Q F) \<Longrightarrow> (\<not> b \<Longrightarrow> triple P m' Q F) \<Longrightarrow> triple P (if b then m else m') Q F"
  by auto

text \<open>A synchronous step that may throw, before the rest.\<close>

lemma triple_bind_pure:
  assumes "\<And>a. r = Inr a \<Longrightarrow> triple P (k a) Q F" "\<And>e w. r = Inl e \<Longrightarrow> P w \<Longrightarrow> F e w"
  shows "triple P (bindIO (pureIO r) k) Q F"
  using assms by (cases r) (auto intro: triple_pure(2))

text \<open>All of a list, where no call throws.\<close>

lemma triple_all:
  assumes "\<And>x. x \<in> set xs \<Longrightarrow> triple P (f x) (\<lambda>y w. P w \<and> R x y) (\<lambda>_ _. False)"
  shows "triple P (allIO (map f xs)) (\<lambda>ys w. P w \<and> list_all2 R xs ys) (\<lambda>_ _. False)"
  using assms
proof (induction xs)
  case (Cons x xs)
  then have x: "triple P (f x) (\<lambda>y w. P w \<and> R x y) (\<lambda>_ _. False)"
    and xs: "triple P (allIO (map f xs)) (\<lambda>ys w. P w \<and> list_all2 R xs ys) (\<lambda>_ _. False)" by simp_all
  show ?case unfolding triple_def
  proof (intro allI impI)
    fix w assume w: "P w"
    obtain r w1 where m: "f x w = (r, w1)" by fastforce
    obtain rs w2 where ms: "allIO (map f xs) w1 = (rs, w2)" by fastforce
    from m tripleD [OF x w] obtain y where y: "r = Inr y" "P w1" "R x y" by (cases r) auto
    from ms tripleD [OF xs y(2)] obtain ys where "rs = Inr ys" "P w2" "list_all2 R xs ys" by (cases rs) auto
    then show "case allIO (map f (x # xs)) w of (Inl e, w') \<Rightarrow> False | (Inr ys, w') \<Rightarrow> P w' \<and> list_all2 R (x # xs) ys"
      using m ms y by simp
  qed
qed (simp add: triple_def)

section \<open>Transports that show a ledger\<close>

text \<open>The state of the chain that reads observe: accounts, the slot, and program scans.\<close>

record ledger =
  lg_account :: "bytes \<Rightarrow> AccountInfo option"
  lg_slot :: int
  lg_scan :: "bytes \<Rightarrow> AccountFilter list \<Rightarrow> ProgramAccountEntry list"

text \<open>Whether \<open>data\<close> passes a filter of a program scan.\<close>

fun passes :: "bytes \<Rightarrow> AccountFilter \<Rightarrow> bool" where
  "passes data (DataSize n) = (length data = n)"
| "passes data (DataContent off bs) = (take (length bs) (drop off data) = bs)"

text \<open>
  A transport \<open>T\<close> shows the ledger \<open>L\<close> in the worlds \<open>W\<close>: single and batch reads give the accounts of \<open>L\<close>,
  and a program scan lists exactly the program's accounts that pass all filters.
\<close>

definition showsLedger :: "('w, 'tx) AnsTransport \<Rightarrow> 'w set \<Rightarrow> ledger \<Rightarrow> bool" where
  "showsLedger T W L \<longleftrightarrow>
     (\<forall>a. settles W (readAccountInfo T a) (Inr (lg_account L a))) \<and>
     settles W (getCurrentSlot T) (Inr (lg_slot L)) \<and>
     (\<forall>f as. getMultipleAccounts T = Some f \<longrightarrow> settles W (f as) (Inr (map (lg_account L) as))) \<and>
     (\<forall>f pid fs. getProgramAccounts T = Some f \<longrightarrow> settles W (f pid fs) (Inr (lg_scan L pid fs))) \<and>
     (\<forall>pid fs. set (lg_scan L pid fs) =
        {e. lg_account L (pe_pubkey e) = Some (pe_account e) \<and> ai_owner (pe_account e) = pid \<and>
            list_all (passes (ai_data (pe_account e))) fs})"

lemma showsLedgerD:
  assumes "showsLedger T W L"
  shows "settles W (readAccountInfo T a) (Inr (lg_account L a))"
    and "settles W (getCurrentSlot T) (Inr (lg_slot L))"
    and "getMultipleAccounts T = Some f \<Longrightarrow> settles W (f as) (Inr (map (lg_account L) as))"
    and "getProgramAccounts T = Some g \<Longrightarrow> settles W (g pid fs) (Inr (lg_scan L pid fs))"
    and "e \<in> set (lg_scan L pid fs) \<longleftrightarrow> lg_account L (pe_pubkey e) = Some (pe_account e) \<and>
      ai_owner (pe_account e) = pid \<and> list_all (passes (ai_data (pe_account e))) fs"
  using assms by (auto simp: showsLedger_def)

text \<open>A transport over a finite list of accounts.\<close>

definition listLedger :: "(bytes \<times> AccountInfo) list \<Rightarrow> int \<Rightarrow> ledger" where
  "listLedger as slot = \<lparr>lg_account = map_of as, lg_slot = slot,
     lg_scan = (\<lambda>pid fs. map (\<lambda>(a, i). \<lparr>pe_pubkey = a, pe_account = i\<rparr>)
       (filter (\<lambda>(a, i). ai_owner i = pid \<and> list_all (passes (ai_data i)) fs) as))\<rparr>"

definition ledgerTransport :: "ledger \<Rightarrow> (unit, unit) AnsTransport" where
  "ledgerTransport L = \<lparr>
     readAccountInfo = (\<lambda>a w. (Inr (lg_account L a), w)),
     getMultipleAccounts = Some (\<lambda>as w. (Inr (map (lg_account L) as), w)),
     getProgramAccounts = Some (\<lambda>pid fs w. (Inr (lg_scan L pid fs), w)),
     getCurrentSlot = (\<lambda>w. (Inr (lg_slot L), w)),
     getBestBlockHash = (\<lambda>w. (Inr [], w)),
     sendTransaction = (\<lambda>tx w. (Inr [], w)),
     getProcessedTransaction = (\<lambda>txid w. (Inr None, w))\<rparr>"

lemma listLedger_scan:
  assumes "distinct (map fst as)"
  shows "e \<in> set (lg_scan (listLedger as slot) pid fs) \<longleftrightarrow>
    lg_account (listLedger as slot) (pe_pubkey e) = Some (pe_account e) \<and> ai_owner (pe_account e) = pid \<and>
    list_all (passes (ai_data (pe_account e))) fs"
proof -
  have "map_of as (pe_pubkey e) = Some (pe_account e) \<longleftrightarrow> (pe_pubkey e, pe_account e) \<in> set as"
    using assms by (simp add: map_of_eq_Some_iff)
  then show ?thesis
    by (cases e) (auto simp: listLedger_def image_iff)
qed

lemma ledgerTransport_shows:
  assumes "distinct (map fst as)"
  shows "showsLedger (ledgerTransport (listLedger as slot)) UNIV (listLedger as slot)"
  unfolding showsLedger_def
proof (intro conjI allI impI)
  show "set (lg_scan (listLedger as slot) pid fs) =
        {e. lg_account (listLedger as slot) (pe_pubkey e) = Some (pe_account e) \<and> ai_owner (pe_account e) = pid \<and>
            list_all (passes (ai_data (pe_account e))) fs}" for pid fs
    using listLedger_scan [OF assms] by (intro set_eqI) (simp only: mem_Collect_eq)
qed (auto simp: ledgerTransport_def settles_def)

end
