(* ===== verification/Confirm.thy ===== *)
theory Confirm
  imports Transport
begin

text \<open>
  Waiting for a transaction: \<^verbatim>\<open>transactions/confirm.ts\<close>. The loop has no bound on its rounds, only a
  deadline on the clock, so it is a partial function whose value is \<open>None\<close> where it does not return;
  that it returns is a theorem about clocks that advance. Clock and timer are the parameter \<open>timer\<close>.
\<close>

section \<open>The wait (transactions/confirm.ts)\<close>

text \<open>\<open>Date.now()\<close> and \<open>setTimeout\<close>.\<close>

record 'w timer =
  now :: "'w \<Rightarrow> int"
  sleep :: "int \<Rightarrow> 'w \<Rightarrow> 'w"

definition DEFAULT_CONFIRM_TIMEOUT_MS :: int where "DEFAULT_CONFIRM_TIMEOUT_MS = 90000"

definition isTransactionPendingError :: "js_error \<Rightarrow> bool" where
  "isTransactionPendingError e = (case e of TransactionPendingError _ _ \<Rightarrow> True | _ \<Rightarrow> False)"

datatype ConfirmOutcome = Complete | Timeout "js_error option"

definition settledStatus :: "js_string \<Rightarrow> bool" where
  "settledStatus s \<longleftrightarrow> matchesFolded s (js ''processed'') \<or> matchesFolded s (js ''confirmed'') \<or>
     matchesFolded s (js ''finalized'')"

record wait_state =
  ws_lastLookupError :: "js_error option"
  ws_processed :: bool

text \<open>What one round decides: to return, to throw, or to go on waiting.\<close>

datatype round = Return ConfirmOutcome | Throw js_error | Again wait_state

definition failureOf :: "js_string \<Rightarrow> ProcessedTransaction \<Rightarrow> js_error" where
  "failureOf txid status = PlainError
     (case pt_error status of Some e \<Rightarrow> e | None \<Rightarrow> js ''transaction '' @ txid @ js '' failed'')"

text \<open>The first part of a round: the caller's own success signal.\<close>

definition probe :: "('w, bool) io option \<Rightarrow> wait_state \<Rightarrow> 'w \<Rightarrow> round \<times> 'w" where
  "probe isComplete st w =
     (case isComplete of
        None \<Rightarrow> (Again st, w)
      | Some check \<Rightarrow>
          (case check w of
             (Inr True, w') \<Rightarrow> (Return Complete, w')
           | (Inr False, w') \<Rightarrow> (Again st, w')
           | (Inl e, w') \<Rightarrow> (Again (st\<lparr>ws_lastLookupError := Some e\<rparr>), w')))"

text \<open>The second part: the transaction's status.\<close>

definition lookup :: "('w, 'tx) AnsTransport \<Rightarrow> js_string \<Rightarrow> bool \<Rightarrow> wait_state \<Rightarrow> 'w \<Rightarrow> round \<times> 'w" where
  "lookup T txid hasSignal st w =
     (case getProcessedTransaction T txid w of
        (Inl e, w') \<Rightarrow> (Again (st\<lparr>ws_lastLookupError := Some e\<rparr>), w')
      | (Inr None, w') \<Rightarrow> (Again st, w')
      | (Inr (Some status), w') \<Rightarrow>
          if pt_status status = js ''Failed'' then (Throw (failureOf txid status), w')
          else if settledStatus (pt_status status) then
            (if \<not> hasSignal then Return Complete else Again (st\<lparr>ws_processed := True\<rparr>), w')
          else (Again st, w'))"

definition waitRound ::
  "('w, 'tx) AnsTransport \<Rightarrow> js_string \<Rightarrow> ('w, bool) io option \<Rightarrow> wait_state \<Rightarrow> 'w \<Rightarrow> round \<times> 'w" where
  "waitRound T txid isComplete st w =
     (case probe isComplete st w of
        (Again st', w') \<Rightarrow> lookup T txid (isComplete \<noteq> None) st' w'
      | decided \<Rightarrow> decided)"

partial_function (option) waitLoop ::
  "'w timer \<Rightarrow> ('w, 'tx) AnsTransport \<Rightarrow> js_string \<Rightarrow> ('w, bool) io option \<Rightarrow> int \<Rightarrow> int \<Rightarrow> wait_state \<Rightarrow> 'w \<Rightarrow>
   ((js_error + ConfirmOutcome) \<times> 'w) option" where
  "waitLoop C T txid isComplete interval deadline st w =
     (case waitRound T txid isComplete st w of
        (Return r, w') \<Rightarrow> Some (Inr r, w')
      | (Throw e, w') \<Rightarrow> Some (Inl e, w')
      | (Again st', w') \<Rightarrow>
          if now C w' + interval > deadline
          then Some (Inr (Timeout (if ws_processed st' then None else ws_lastLookupError st')), w')
          else waitLoop C T txid isComplete interval deadline st' (sleep C interval w'))"

definition waitForTransaction ::
  "'w timer \<Rightarrow> ('w, 'tx) AnsTransport \<Rightarrow> js_string \<Rightarrow> ('w, bool) io option \<Rightarrow> int option \<Rightarrow> int option \<Rightarrow> 'w \<Rightarrow>
   ((js_error + ConfirmOutcome) \<times> 'w) option" where
  "waitForTransaction C T txid isComplete timeoutMs intervalMs w =
     (let timeout = (case timeoutMs of Some t \<Rightarrow> t | None \<Rightarrow> DEFAULT_CONFIRM_TIMEOUT_MS);
          interval = (case intervalMs of Some i \<Rightarrow> i | None \<Rightarrow> 1000);
          deadline = now C w + timeout in
      waitLoop C T txid isComplete interval deadline \<lparr>ws_lastLookupError = None, ws_processed = False\<rparr> w)"

section \<open>Rounds\<close>

text \<open>Clocks: reading the network never turns the clock back, and sleeping advances it by the whole
  interval.\<close>

definition advancingClock :: "'w timer \<Rightarrow> ('w, 'tx) AnsTransport \<Rightarrow> js_string \<Rightarrow> ('w, bool) io option \<Rightarrow> int \<Rightarrow> bool" where
  "advancingClock C T txid isComplete interval \<longleftrightarrow> 0 < interval \<and>
     (\<forall>w. now C w \<le> now C (snd (getProcessedTransaction T txid w))) \<and>
     (\<forall>check w. isComplete = Some check \<longrightarrow> now C w \<le> now C (snd (check w))) \<and>
     (\<forall>w. now C w + interval \<le> now C (sleep C interval w))"

lemma probe_clock:
  assumes "advancingClock C T txid isComplete interval"
  shows "now C w \<le> now C (snd (probe isComplete st w))"
proof (cases isComplete)
  case (Some check)
  have "now C w \<le> now C (snd (check w))" using assms Some by (simp add: advancingClock_def)
  then show ?thesis
    by (auto simp: probe_def Some split: prod.splits sum.splits bool.splits)
qed (simp add: probe_def)

lemma lookup_clock:
  assumes "advancingClock C T txid isComplete interval"
  shows "now C w \<le> now C (snd (lookup T txid hasSignal st w))"
proof -
  have "now C w \<le> now C (snd (getProcessedTransaction T txid w))" using assms by (simp add: advancingClock_def)
  then show ?thesis
    by (auto simp: lookup_def split: prod.splits sum.splits option.splits)
qed

lemma waitRound_clock:
  assumes "advancingClock C T txid isComplete interval"
  shows "now C w \<le> now C (snd (waitRound T txid isComplete st w))"
proof -
  obtain d w' where p: "probe isComplete st w = (d, w')" by fastforce
  have "now C w \<le> now C w'" using probe_clock [OF assms, of w st] by (simp add: p)
  also have "now C w' \<le> now C (snd (lookup T txid (isComplete \<noteq> None) st' w'))" for st'
    using lookup_clock [OF assms] .
  finally show ?thesis
    using probe_clock [OF assms, of w st] by (cases d) (auto simp: waitRound_def p)
qed

text \<open>A round throws only what a status of \<open>Failed\<close> says, and completes only on the caller's signal or,
  without one, on a settled status. Both name the world the wait ends in.\<close>

definition failedStatus :: "('w, 'tx) AnsTransport \<Rightarrow> js_string \<Rightarrow> 'w \<Rightarrow> js_error \<Rightarrow> bool" where
  "failedStatus T txid w' e \<longleftrightarrow> (\<exists>w status. getProcessedTransaction T txid w = (Inr (Some status), w') \<and>
     pt_status status = js ''Failed'' \<and> e = failureOf txid status)"

definition completeSignal :: "('w, 'tx) AnsTransport \<Rightarrow> js_string \<Rightarrow> ('w, bool) io option \<Rightarrow> 'w \<Rightarrow> bool" where
  "completeSignal T txid isComplete w' \<longleftrightarrow>
     (case isComplete of
        Some check \<Rightarrow> \<exists>w. check w = (Inr True, w')
      | None \<Rightarrow> \<exists>w status. getProcessedTransaction T txid w = (Inr (Some status), w') \<and>
          settledStatus (pt_status status) \<and> pt_status status \<noteq> js ''Failed'')"

definition decidedBy :: "('w, 'tx) AnsTransport \<Rightarrow> js_string \<Rightarrow> ('w, bool) io option \<Rightarrow> 'w \<Rightarrow> round \<Rightarrow> bool" where
  "decidedBy T txid isComplete w' d \<longleftrightarrow>
     (case d of
        Throw e \<Rightarrow> failedStatus T txid w' e
      | Return r \<Rightarrow> r = Complete \<and> completeSignal T txid isComplete w'
      | Again _ \<Rightarrow> True)"

lemma probe_decides:
  "probe isComplete st w = (d, w') \<Longrightarrow> decidedBy T txid isComplete w' d"
  by (auto simp: probe_def decidedBy_def completeSignal_def split: option.splits prod.splits sum.splits bool.splits)

lemma lookup_decides:
  assumes "lookup T txid (isComplete \<noteq> None) st w = (d, w')"
  shows "decidedBy T txid isComplete w' d"
proof -
  obtain r w1 where "getProcessedTransaction T txid w = (r, w1)" by fastforce
  with assms show ?thesis
    unfolding lookup_def decidedBy_def completeSignal_def failedStatus_def
    by (auto simp del: ex_simps split: option.splits sum.splits if_splits intro!: exI [of _ w])
qed

lemma waitRound_decides:
  assumes "waitRound T txid isComplete st w = (d, w')"
  shows "decidedBy T txid isComplete w' d"
proof -
  obtain d1 w1 where p: "probe isComplete st w = (d1, w1)" by fastforce
  show ?thesis
  proof (cases "\<exists>st'. d1 = Again st'")
    case True
    then obtain st' where "d1 = Again st'" ..
    with p assms have "lookup T txid (isComplete \<noteq> None) st' w1 = (d, w')" by (simp add: waitRound_def)
    then show ?thesis by (rule lookup_decides)
  next
    case False
    with p assms have "d = d1" "w' = w1" by (auto simp: waitRound_def split: round.splits)
    then show ?thesis using probe_decides [OF p] by simp
  qed
qed

section \<open>The loop\<close>

definition endsRightly ::
  "'w timer \<Rightarrow> ('w, 'tx) AnsTransport \<Rightarrow> js_string \<Rightarrow> ('w, bool) io option \<Rightarrow> int \<Rightarrow> int \<Rightarrow>
   (js_error + ConfirmOutcome) \<times> 'w \<Rightarrow> bool" where
  "endsRightly C T txid isComplete interval deadline out \<longleftrightarrow>
     (case out of
        (Inl e, w') \<Rightarrow> failedStatus T txid w' e
      | (Inr Complete, w') \<Rightarrow> completeSignal T txid isComplete w'
      | (Inr (Timeout _), w') \<Rightarrow> now C w' + interval > deadline)"

lemma waitLoop_ends:
  assumes "waitLoop C T txid isComplete interval deadline st w = Some out"
  shows "endsRightly C T txid isComplete interval deadline out"
  using assms
proof (rule waitLoop.raw_induct [where P = "\<lambda>C T txid isComplete interval deadline st w out.
    endsRightly C T txid isComplete interval deadline out", rotated])
  fix loop C T txid isComplete interval deadline st w out
  assume IH: "\<And>C T txid isComplete interval deadline st w out.
      loop C T txid isComplete interval deadline st w = Some out \<Longrightarrow> endsRightly C T txid isComplete interval deadline out"
    and body: "(case waitRound T txid isComplete st w of
        (Return r, w') \<Rightarrow> Some (Inr r, w')
      | (Throw e, w') \<Rightarrow> Some (Inl e, w')
      | (Again st', w') \<Rightarrow>
          if now C w' + interval > deadline
          then Some (Inr (Timeout (if ws_processed st' then None else ws_lastLookupError st')), w')
          else loop C T txid isComplete interval deadline st' (sleep C interval w')) = Some out"
  obtain d w' where round: "waitRound T txid isComplete st w = (d, w')" by fastforce
  show "endsRightly C T txid isComplete interval deadline out"
    using body waitRound_decides [OF round] IH
    by (cases d) (auto simp: round decidedBy_def endsRightly_def split: if_splits)
qed

lemma waitLoop_returns:
  assumes "advancingClock C T txid isComplete interval"
  shows "\<exists>out. waitLoop C T txid isComplete interval deadline st w = Some out"
proof (induction "nat (deadline - now C w)" arbitrary: st w rule: less_induct)
  case less
  obtain d w' where round: "waitRound T txid isComplete st w = (d, w')" by fastforce
  have "now C w \<le> now C w'" using waitRound_clock [OF assms, of w st] by (simp add: round)
  moreover have "now C w' + interval \<le> now C (sleep C interval w')" "0 < interval"
    using assms by (auto simp: advancingClock_def)
  ultimately have "now C w' + interval \<le> deadline \<Longrightarrow>
      nat (deadline - now C (sleep C interval w')) < nat (deadline - now C w)" by linarith
  from less [OF this] show ?case
    by (subst waitLoop.simps) (cases d, auto simp: round not_less)
qed

text \<open>A clock that a poll advances by 1, and an endpoint that cannot find the transaction before the
  time 20, does not know it before 40, and has processed it from then on.\<close>

definition tickingTimer :: "int timer" where
  "tickingTimer = \<lparr>now = (\<lambda>w. w), sleep = (\<lambda>ms w. w + ms)\<rparr>"

definition slowTransport :: "(int, unit) AnsTransport" where
  "slowTransport = \<lparr>
     readAccountInfo = (\<lambda>a w. (Inr None, w)),
     getMultipleAccounts = None,
     getProgramAccounts = None,
     getCurrentSlot = (\<lambda>w. (Inr 0, w)),
     getBestBlockHash = (\<lambda>w. (Inr [], w)),
     sendTransaction = (\<lambda>tx w. (Inr [], w)),
     getProcessedTransaction = (\<lambda>txid w.
       (if w < 20 then Inl (PlainError (js ''fetch failed''))
        else if w < 40 then Inr None
        else Inr (Some \<lparr>pt_status = js ''Processed'', pt_error = None\<rparr>), w + 1))\<rparr>"

lemma timer_now: "now tickingTimer w = w"
  by (simp add: tickingTimer_def)

lemma sample_clock: "advancingClock tickingTimer slowTransport txid None 10"
  by (simp add: advancingClock_def tickingTimer_def slowTransport_def)

text \<open>C20. Every wait ends. When polling never turns the clock back and sleeping takes at least the interval,
  \<open>waitForTransaction\<close> returns, whatever the endpoint answers; it rejects only with what a status of
  \<open>Failed\<close> says, completes only on the caller's signal (without one: on a settled status), and gives up
  only when the next poll would be past the deadline.\<close>

theorem waitForTransaction_ends:
  assumes "advancingClock C T txid isComplete (case intervalMs of Some i \<Rightarrow> i | None \<Rightarrow> 1000)"
  shows "\<exists>r w'. waitForTransaction C T txid isComplete timeoutMs intervalMs w = Some (r, w') \<and>
    (case r of
       Inl e \<Rightarrow> failedStatus T txid w' e
     | Inr Complete \<Rightarrow> completeSignal T txid isComplete w'
     | Inr (Timeout _) \<Rightarrow> now C w + (case timeoutMs of Some t \<Rightarrow> t | None \<Rightarrow> 90000)
         < now C w' + (case intervalMs of Some i \<Rightarrow> i | None \<Rightarrow> 1000))"
proof -
  obtain out where "waitForTransaction C T txid isComplete timeoutMs intervalMs w = Some out"
    using waitLoop_returns [OF assms] by (fastforce simp: waitForTransaction_def Let_def)
  then show ?thesis
    using waitLoop_ends unfolding waitForTransaction_def Let_def DEFAULT_CONFIRM_TIMEOUT_MS_def
    by (cases out) (fastforce simp: endsRightly_def split: sum.splits ConfirmOutcome.splits)
qed

theorem waitForTransaction_ends_witness:
  "\<exists>r w'. waitForTransaction tickingTimer slowTransport (js ''7f'') None (Some 90) (Some 10) 0 = Some (r, w') \<and>
    (case r of
       Inl e \<Rightarrow> failedStatus slowTransport (js ''7f'') w' e
     | Inr Complete \<Rightarrow> completeSignal slowTransport (js ''7f'') None w'
     | Inr (Timeout _) \<Rightarrow> 90 < w' + 10)"
  using waitForTransaction_ends [of tickingTimer slowTransport "js ''7f''" None "Some 10" "Some 90" 0]
  by (simp add: sample_clock timer_now cong: sum.case_cong ConfirmOutcome.case_cong)

section \<open>A transaction that becomes visible is reported complete\<close>

text \<open>From the time \<open>t\<close> on, every poll shows the success that the wait looks for; no poll shows a
  failure; and a poll takes at most \<open>d\<close>.\<close>

definition visibleFrom :: "'w timer \<Rightarrow> ('w, 'tx) AnsTransport \<Rightarrow> js_string \<Rightarrow> ('w, bool) io option \<Rightarrow> int \<Rightarrow> bool" where
  "visibleFrom C T txid isComplete t \<longleftrightarrow> (\<forall>w. t \<le> now C w \<longrightarrow>
     (case isComplete of
        Some check \<Rightarrow> fst (check w) = Inr True
      | None \<Rightarrow> \<exists>status. fst (getProcessedTransaction T txid w) = Inr (Some status) \<and>
          settledStatus (pt_status status)))"

definition neverFailed :: "('w, 'tx) AnsTransport \<Rightarrow> js_string \<Rightarrow> bool" where
  "neverFailed T txid \<longleftrightarrow> (\<forall>w status. fst (getProcessedTransaction T txid w) = Inr (Some status) \<longrightarrow>
     pt_status status \<noteq> js ''Failed'')"

definition promptPolls :: "'w timer \<Rightarrow> ('w, 'tx) AnsTransport \<Rightarrow> js_string \<Rightarrow> ('w, bool) io option \<Rightarrow> int \<Rightarrow> bool" where
  "promptPolls C T txid isComplete d \<longleftrightarrow> 0 \<le> d \<and>
     (\<forall>w. now C (snd (getProcessedTransaction T txid w)) \<le> now C w + d) \<and>
     (\<forall>check w. isComplete = Some check \<longrightarrow> now C (snd (check w)) \<le> now C w + d)"

lemma probe_prompt:
  assumes "promptPolls C T txid isComplete d"
  shows "now C (snd (probe isComplete st w)) \<le> now C w + d"
proof (cases isComplete)
  case (Some check)
  have "now C (snd (check w)) \<le> now C w + d" using assms Some by (simp add: promptPolls_def)
  then show ?thesis by (auto simp: probe_def Some split: prod.splits sum.splits bool.splits)
qed (use assms in \<open>simp add: probe_def promptPolls_def\<close>)

lemma lookup_prompt:
  assumes "promptPolls C T txid isComplete d"
  shows "now C (snd (lookup T txid hasSignal st w)) \<le> now C w + d"
proof -
  have "now C (snd (getProcessedTransaction T txid w)) \<le> now C w + d" using assms by (simp add: promptPolls_def)
  then show ?thesis by (auto simp: lookup_def split: prod.splits sum.splits option.splits)
qed

lemma waitRound_prompt:
  assumes "promptPolls C T txid isComplete d"
  shows "now C (snd (waitRound T txid isComplete st w)) \<le> now C w + 2 * d"
proof -
  obtain r w' where p: "probe isComplete st w = (r, w')" by fastforce
  have w': "now C w' \<le> now C w + d" using probe_prompt [OF assms, of st w] by (simp add: p)
  have "now C (snd (lookup T txid (isComplete \<noteq> None) st' w')) \<le> now C w + 2 * d" for st'
    using lookup_prompt [OF assms, of _ st' w'] w' by (smt (verit))
  moreover have "0 \<le> d" using assms by (simp add: promptPolls_def)
  ultimately show ?thesis
    using w' by (cases r) (auto simp: waitRound_def p)
qed

lemma waitRound_visible:
  assumes "visibleFrom C T txid isComplete t" "neverFailed T txid" "t \<le> now C w"
  shows "fst (waitRound T txid isComplete st w) = Return Complete"
proof (cases isComplete)
  case None
  then obtain status where s: "fst (getProcessedTransaction T txid w) = Inr (Some status)" "settledStatus (pt_status status)"
    using assms(1,3) by (auto simp: visibleFrom_def)
  moreover have "pt_status status \<noteq> js ''Failed''" using s assms(2) by (simp add: neverFailed_def)
  ultimately show ?thesis
    using None by (auto simp: waitRound_def probe_def lookup_def split: prod.splits)
next
  case (Some check)
  then have "fst (check w) = Inr True" using assms(1,3) by (auto simp: visibleFrom_def)
  then show ?thesis by (auto simp: waitRound_def probe_def Some split: prod.splits)
qed

lemma waitLoop_completes:
  assumes clock: "advancingClock C T txid isComplete interval"
    and visible: "visibleFrom C T txid isComplete t" "neverFailed T txid"
    and prompt: "promptPolls C T txid isComplete d" "t + 2 * d + interval \<le> deadline"
  shows "\<exists>w'. waitLoop C T txid isComplete interval deadline st w = Some (Inr Complete, w')"
proof (induction "nat (deadline - now C w)" arbitrary: st w rule: less_induct)
  case less
  obtain r w' where round: "waitRound T txid isComplete st w = (r, w')" by fastforce
  show ?case
  proof (cases r)
    case (Again st')
    then have "now C w < t"
      using waitRound_visible [OF visible, of w st] by (fastforce simp: round)
    then have dl: "now C w' + interval \<le> deadline"
      using waitRound_prompt [OF prompt(1), of st w] prompt(2) by (simp add: round)
    have "now C w \<le> now C w'" "0 < interval" "now C w' + interval \<le> now C (sleep C interval w')"
      using waitRound_clock [OF clock, of w st] clock by (auto simp: round advancingClock_def)
    with dl less [of "sleep C interval w'" st'] show ?thesis
      by (subst waitLoop.simps) (simp add: round Again)
  next
    case (Return x)
    then show ?thesis
      using waitRound_decides [OF round] by (subst waitLoop.simps) (simp add: round decidedBy_def)
  next
    case (Throw e)
    then have "failedStatus T txid w' e" using waitRound_decides [OF round] by (simp add: decidedBy_def)
    then have False using visible(2) unfolding failedStatus_def neverFailed_def by (metis fst_conv)
    then show ?thesis ..
  qed
qed

text \<open>C31. A change that becomes visible in time is reported. Where no lookup, before or after, shows the status
  \<open>Failed\<close>, a probe and a lookup take at most \<open>d\<close> each, and the clock advances over polls and pauses: if the success
  signal (the caller's; without one, a settled status) holds from some time on that leaves room for one probe, one lookup and
  one pause before the deadline, the wait reports completion. Before that time lookups and probes may be rejected, the transaction may be
  unknown and its status unsettled; none of these ends the wait.\<close>

theorem waitForTransaction_completes:
  assumes "advancingClock C T txid isComplete (case intervalMs of Some i \<Rightarrow> i | None \<Rightarrow> 1000)"
    and "visibleFrom C T txid isComplete t" "neverFailed T txid"
    and "promptPolls C T txid isComplete d"
    and "t + 2 * d + (case intervalMs of Some i \<Rightarrow> i | None \<Rightarrow> 1000)
           \<le> now C w + (case timeoutMs of Some m \<Rightarrow> m | None \<Rightarrow> 90000)"
  shows "\<exists>w'. waitForTransaction C T txid isComplete timeoutMs intervalMs w = Some (Inr Complete, w')"
  using waitLoop_completes [OF assms(1-4)] assms(5)
  unfolding waitForTransaction_def Let_def DEFAULT_CONFIRM_TIMEOUT_MS_def by blast

lemma slow_settled:
  "neverFailed slowTransport txid" "promptPolls tickingTimer slowTransport txid None 1"
  "visibleFrom tickingTimer slowTransport txid None 40"
proof -
  have "settledStatus (js ''Processed'')" by code_simp
  then show "visibleFrom tickingTimer slowTransport txid None 40"
    by (simp add: visibleFrom_def tickingTimer_def slowTransport_def)
qed (auto simp: neverFailed_def promptPolls_def tickingTimer_def slowTransport_def js_def split: if_splits)

theorem waitForTransaction_completes_witness:
  "\<exists>w'. waitForTransaction tickingTimer slowTransport (js ''7f'') None (Some 90) (Some 10) 0 = Some (Inr Complete, w')"
  by (rule waitForTransaction_completes [where t = 40 and d = 1])
    (use sample_clock slow_settled in \<open>auto simp: timer_now\<close>)

end
