(* ===== verification/Hex.thy ===== *)
theory Hex
  imports Ans_Types
begin

text \<open>
  Hexadecimal text and byte comparison: \<^verbatim>\<open>hex.ts\<close>, with the parts of \<open>Number.prototype.toString\<close>,
  \<open>padStart\<close> and \<open>Number.parseInt\<close> it uses. \<open>parseInt\<close> is modelled on every input: it skips
  leading white space, takes a sign and a \<open>0x\<close> prefix and stops at the first character that is not
  a digit; a \<open>Uint8Array\<close> element stores \<open>NaN\<close> as 0 and any integer modulo 256.
\<close>

section \<open>Digits\<close>

definition hexDigit :: "nat \<Rightarrow> u16" where
  "hexDigit n = (if n < 10 then of_nat (48 + n) else of_nat (87 + n))"

text \<open>\<open>n.toString(16)\<close>.\<close>

fun toHex :: "nat \<Rightarrow> js_string" where
  "toHex n = (if n < 16 then [hexDigit n] else toHex (n div 16) @ [hexDigit (n mod 16)])"

declare toHex.simps [simp del]

definition padStart :: "nat \<Rightarrow> u16 \<Rightarrow> js_string \<Rightarrow> js_string" where
  "padStart n c s = replicate (n - length s) c @ s"

definition hexValue :: "u16 \<Rightarrow> nat option" where
  "hexValue u =
     (if 48 \<le> u \<and> u \<le> 57 then Some (unat u - 48)
      else if 97 \<le> u \<and> u \<le> 102 then Some (unat u - 87)
      else if 65 \<le> u \<and> u \<le> 70 then Some (unat u - 55)
      else None)"

definition isHexDigit :: "u16 \<Rightarrow> bool" where
  "isHexDigit u \<longleftrightarrow> hexValue u \<noteq> None"

definition stripHexPrefix :: "js_string \<Rightarrow> js_string" where
  "stripHexPrefix s = (if startsWith s (js ''0x'') \<or> startsWith s (js ''0X'') then drop 2 s else s)"

text \<open>\<open>Number.parseInt(s, 16)\<close>; \<open>None\<close> is \<open>NaN\<close>.\<close>

definition parseInt16 :: "js_string \<Rightarrow> int option" where
  "parseInt16 s =
     (let s1 = dropWhile isSpace s;
          neg = startsWith s1 (js ''-'');
          s2 = (if neg \<or> startsWith s1 (js ''+'') then drop 1 s1 else s1);
          ds = takeWhile isHexDigit (stripHexPrefix s2);
          v = foldl (\<lambda>acc u. acc * 16 + int (the (hexValue u))) 0 ds
      in if ds = [] then None else Some (if neg then - v else v))"

text \<open>Storing a number in a \<open>Uint8Array\<close>.\<close>

definition storeByte :: "int option \<Rightarrow> u8" where
  "storeByte v = (case v of None \<Rightarrow> 0 | Some i \<Rightarrow> of_int i)"

section \<open>hex.ts\<close>

definition bytesToHex :: "bytes \<Rightarrow> js_string" where
  "bytesToHex bs = concat (map (\<lambda>b. padStart 2 48 (toHex (unat b))) bs)"

text \<open>The loop shared by every copy of \<open>hexToBytes\<close>: two characters at a time.\<close>

definition hexPairs :: "js_string \<Rightarrow> bytes" where
  "hexPairs clean =
     map (\<lambda>i. storeByte (parseInt16 (take 2 (drop (2 * i) clean)))) [0..<length clean div 2]"

definition hexToBytes :: "js_string \<Rightarrow> js_error + bytes" where
  "hexToBytes hex =
     (let clean = stripHexPrefix hex
      in guardR (length clean mod 2 \<noteq> 0) (PlainError (js ''hexToBytes: odd-length input''))
           (Inr (hexPairs clean)))"

definition bytesEqual :: "bytes \<Rightarrow> bytes \<Rightarrow> bool" where
  "bytesEqual a b \<longleftrightarrow>
     (if length a \<noteq> length b then False else list_all (\<lambda>i. a ! i = b ! i) [0..<length a])"

section \<open>Comparison\<close>

lemma bytesEqual_iff [simp]: "bytesEqual a b \<longleftrightarrow> a = b"
  unfolding bytesEqual_def list_all_iff by (simp add: list_eq_iff_nth_eq [of a b] Ball_def)

section \<open>Round trip\<close>

lemma toHex_digit: "n < 16 \<Longrightarrow> toHex n = [hexDigit n]"
  by (subst toHex.simps) simp

lemma toHex_two: "16 \<le> n \<Longrightarrow> n < 256 \<Longrightarrow> toHex n = [hexDigit (n div 16), hexDigit (n mod 16)]"
  by (subst toHex.simps) (simp add: toHex_digit less_mult_imp_div_less)

lemma toHex_byte: "n < 256 \<Longrightarrow> padStart 2 48 (toHex n) = [hexDigit (n div 16), hexDigit (n mod 16)]"
  by (cases "n < 16") (simp_all add: toHex_digit toHex_two padStart_def hexDigit_def)

lemma hexDigit_cases: "n < 16 \<Longrightarrow> hexDigit n \<in> {48, 49, 50, 51, 52, 53, 54, 55, 56, 57, 97, 98, 99, 100, 101, 102}"
proof -
  assume "n < 16"
  then have "n \<in> {0, 1, 2, 3, 4, 5, 6, 7, 8, 9, 10, 11, 12, 13, 14, 15}" by (simp; presburger)
  then show ?thesis by (elim insertE) (simp_all add: hexDigit_def)
qed

lemma hexValue_hexDigit: "n < 16 \<Longrightarrow> hexValue (hexDigit n) = Some n"
proof -
  assume "n < 16"
  then have "n \<in> {0, 1, 2, 3, 4, 5, 6, 7, 8, 9, 10, 11, 12, 13, 14, 15}" by (simp; presburger)
  then show ?thesis by (elim insertE) (simp_all add: hexDigit_def hexValue_def)
qed

lemma hexDigit_plain:
  assumes "n < 16"
  shows "\<not> isSpace (hexDigit n)" "hexDigit n \<noteq> 43" "hexDigit n \<noteq> 45" "hexDigit n \<noteq> 120" "hexDigit n \<noteq> 88"
  using hexDigit_cases [OF assms] by (auto simp: isSpace_def)

lemma parseInt16_digits:
  assumes "a < 16" "b < 16"
  shows "parseInt16 [hexDigit a, hexDigit b] = Some (int (a * 16 + b))"
  using hexDigit_plain [OF assms(1)] hexDigit_plain [OF assms(2)] assms
  by (simp add: parseInt16_def startsWith_def js_def stripHexPrefix_def isHexDigit_def hexValue_hexDigit)

lemma hexPairs_step: "hexPairs (u # v # s) = storeByte (parseInt16 [u, v]) # hexPairs s"
proof -
  have "[0..<Suc (length s div 2)] = 0 # map Suc [0..<length s div 2]"
    by (simp add: map_Suc_upt upt_conv_Cons del: upt_Suc)
  then show ?thesis by (simp add: hexPairs_def)
qed

lemma bytesToHex_Nil [simp]: "bytesToHex [] = []"
  by (simp add: bytesToHex_def)

lemma bytesToHex_Cons:
  "bytesToHex (b # bs) = hexDigit (unat b div 16) # hexDigit (unat b mod 16) # bytesToHex bs"
  using unsigned_less [of b, where 'a = nat] by (simp add: bytesToHex_def toHex_byte)

lemma length_bytesToHex: "length (bytesToHex bs) = 2 * length bs"
  by (induction bs) (simp_all add: bytesToHex_Cons)

lemma unat_div16: "unat b div 16 < 16" for b :: u8
  using unsigned_less [of b, where 'a = nat] by auto

lemma storeByte_digits: "storeByte (parseInt16 [hexDigit (unat b div 16), hexDigit (unat b mod 16)]) = b"
proof -
  have "parseInt16 [hexDigit (unat b div 16), hexDigit (unat b mod 16)] = Some (int (unat b))"
    using parseInt16_digits [OF unat_div16 [of b], of "unat b mod 16"] by simp
  then show ?thesis by (simp add: storeByte_def)
qed

lemma hexPairs_bytesToHex: "hexPairs (bytesToHex bs) = bs"
proof (induction bs)
  case Nil
  then show ?case by (simp add: hexPairs_def)
next
  case (Cons b bs)
  then show ?case by (simp add: bytesToHex_Cons hexPairs_step storeByte_digits)
qed

lemma stripHexPrefix_bytesToHex: "stripHexPrefix (bytesToHex bs) = bytesToHex bs"
  using hexDigit_plain by (cases bs) (simp_all add: bytesToHex_Cons stripHexPrefix_def startsWith_def js_def)

lemma hexToBytes_bytesToHex: "hexToBytes (bytesToHex bs) = Inr bs"
  by (simp add: hexToBytes_def stripHexPrefix_bytesToHex length_bytesToHex hexPairs_bytesToHex)

lemma bytesToHex_inj: "bytesToHex a = bytesToHex b \<longleftrightarrow> a = b"
  by (metis hexPairs_bytesToHex)

lemma hexToBytes_error_iff: "(\<exists>e. hexToBytes s = Inl e) \<longleftrightarrow> odd (length (stripHexPrefix s))"
  by (simp add: hexToBytes_def Let_def guardR_def odd_iff_mod_2_eq_one)

lemma hexToBytes_length: "hexToBytes s = Inr bs \<Longrightarrow> 2 * length bs = length (stripHexPrefix s)"
  by (auto simp: hexToBytes_def Let_def guardR_def hexPairs_def split: if_splits)

end
