(* ===== verification/Js_Sort.thy ===== *)
theory Js_Sort
  imports Js_Text "HOL-Library.Multiset"
begin

text \<open>
  \<open>Array.prototype.sort\<close> with a comparator, and the order of texts. The standard makes the sort stable,
  so for a consistent comparator its result is determined; the interface \<open>comparator\<close> states
  consistency, and what sorting guarantees is proved from it once.
\<close>

section \<open>The order of texts\<close>

text \<open>\<open>a < b\<close> on texts compares code units from the left.\<close>

fun textLess :: "js_string \<Rightarrow> js_string \<Rightarrow> bool" where
  "textLess s [] = False"
| "textLess [] (v # t) = True"
| "textLess (u # s) (v # t) = (if u = v then textLess s t else u < v)"

lemma textLess_irrefl [simp]: "\<not> textLess s s"
  by (induction s) auto

lemma textLess_total: "textLess s t \<or> s = t \<or> textLess t s"
proof (induction s t rule: textLess.induct)
  case (1 s)
  show ?case by (cases s) auto
qed (auto simp: not_less_iff_gr_or_eq)

lemma textLess_trans: "textLess s t \<Longrightarrow> textLess t u \<Longrightarrow> textLess s u"
proof (induction s t arbitrary: u rule: textLess.induct)
  case (3 a s b t)
  then show ?case by (cases u) (auto split: if_splits dest: less_trans)
qed (auto elim: textLess.elims)

lemma textLess_asym: "textLess s t \<Longrightarrow> \<not> textLess t s"
  using textLess_trans textLess_irrefl by blast

lemma textLess_not_trans: "\<not> textLess s t \<Longrightarrow> \<not> textLess t u \<Longrightarrow> \<not> textLess s u"
  using textLess_total [of t u] textLess_trans [of s u t] by blast

section \<open>Sorting with a comparator\<close>

text \<open>Insertion from the right; an element goes before the first one that it may precede.\<close>

fun insertBy :: "('a \<Rightarrow> 'a \<Rightarrow> int) \<Rightarrow> 'a \<Rightarrow> 'a list \<Rightarrow> 'a list" where
  "insertBy cmp x [] = [x]"
| "insertBy cmp x (y # ys) = (if cmp x y \<le> 0 then x # y # ys else y # insertBy cmp x ys)"

definition sortBy :: "('a \<Rightarrow> 'a \<Rightarrow> int) \<Rightarrow> 'a list \<Rightarrow> 'a list" where
  "sortBy cmp xs = foldr (insertBy cmp) xs []"

lemma mset_insertBy [simp]: "mset (insertBy cmp x ys) = add_mset x (mset ys)"
  by (induction ys) auto

lemma mset_sortBy [simp]: "mset (sortBy cmp xs) = mset xs"
  by (induction xs) (auto simp: sortBy_def)

lemma set_insertBy [simp]: "set (insertBy cmp x ys) = insert x (set ys)"
  by (induction ys) auto

lemma length_sortBy [simp]: "length (sortBy cmp xs) = length xs"
  by (metis mset_sortBy size_mset)

locale comparator =
  fixes cmp :: "'a \<Rightarrow> 'a \<Rightarrow> int"
  assumes opposite: "0 < cmp x y \<Longrightarrow> cmp y x < 0"
    and transitive: "cmp x y \<le> 0 \<Longrightarrow> cmp y z \<le> 0 \<Longrightarrow> cmp x z \<le> 0"
begin

lemma sorted_insertBy: "sorted_wrt (\<lambda>a b. cmp a b \<le> 0) ys \<Longrightarrow> sorted_wrt (\<lambda>a b. cmp a b \<le> 0) (insertBy cmp x ys)"
proof (induction ys)
  case (Cons y ys)
  then show ?case
    using opposite [of x y] transitive [of x y] by (auto simp: less_le)
qed simp

lemma sorted_sortBy: "sorted_wrt (\<lambda>a b. cmp a b \<le> 0) (sortBy cmp xs)"
  by (induction xs) (auto simp: sortBy_def sorted_insertBy)

text \<open>The first \<open>n\<close> elements precede all the others.\<close>

lemma take_precedes:
  assumes "x \<in> set (take n (sortBy cmp xs))" "y \<in># mset xs - mset (take n (sortBy cmp xs))"
  shows "cmp x y \<le> 0"
proof -
  have "mset xs = mset (take n (sortBy cmp xs)) + mset (drop n (sortBy cmp xs))"
    by (metis append_take_drop_id mset_append mset_sortBy)
  then have "y \<in> set (drop n (sortBy cmp xs))" using assms(2) by simp
  then show ?thesis
    using assms(1) sorted_sortBy [of xs] by (metis append_take_drop_id sorted_wrt_append)
qed

text \<open>Elements that compare as equal keep their order.\<close>

lemma insertBy_stable:
  assumes "\<And>a b. P a \<Longrightarrow> P b \<Longrightarrow> cmp a b = 0"
  shows "filter P (insertBy cmp x ys) = filter P (x # ys)"
  by (induction ys) (auto simp: assms)

lemma sortBy_stable:
  assumes "\<And>a b. P a \<Longrightarrow> P b \<Longrightarrow> cmp a b = 0"
  shows "filter P (sortBy cmp xs) = filter P xs"
  by (induction xs) (auto simp: sortBy_def insertBy_stable [OF assms])

end

end
