(* ===== verification/Js_Value.thy ===== *)
theory Js_Value
  imports Ans_Types Hex Js_Sort Complex_Main
begin

text \<open>
  JavaScript values as the transports meet them: what \<open>response.json()\<close> gives, byte buffers, and the
  conversions \<open>Number(v)\<close>, \<open>String(v)\<close> and \<open>BigInt(v)\<close> of the standard. A number is \<open>NaN\<close>, an infinity
  or a rational; rounding to 53 bits is left out. An object is the list of its own enumerable
  properties, in property order.
\<close>

section \<open>Values\<close>

datatype jsnum = NaN | Infinite bool | Fin rat

datatype jsval =
    Undefined | Null | Bool bool | Number jsnum | Str js_string
  | Arr "jsval list" | Buf bytes | Obj "(js_string \<times> jsval) list"

definition num :: "int \<Rightarrow> jsval" where
  "num i = Number (Fin (of_int i))"

definition isNullish :: "jsval \<Rightarrow> bool" where
  "isNullish v \<longleftrightarrow> v = Undefined \<or> v = Null"

fun truthy :: "jsval \<Rightarrow> bool" where
  "truthy Undefined = False"
| "truthy Null = False"
| "truthy (Bool b) = b"
| "truthy (Number n) = (n \<noteq> NaN \<and> n \<noteq> Fin 0)"
| "truthy (Str s) = (s \<noteq> [])"
| "truthy _ = True"

text \<open>\<open>a ?? b\<close>.\<close>

definition orElse :: "jsval \<Rightarrow> jsval \<Rightarrow> jsval" where
  "orElse a b = (if isNullish a then b else a)"

text \<open>The message of a \<open>TypeError\<close> is the engine's; nothing depends on it.\<close>

definition typeError :: js_error where
  "typeError = PlainError (js ''TypeError'')"

text \<open>\<open>v.k\<close> and \<open>v?.k\<close>, for names \<open>k\<close> that no built-in prototype has.\<close>

definition optField :: "jsval \<Rightarrow> js_string \<Rightarrow> jsval" where
  "optField v k =
     (case v of Obj fs \<Rightarrow> (case map_of fs k of Some x \<Rightarrow> x | None \<Rightarrow> Undefined) | _ \<Rightarrow> Undefined)"

definition field :: "jsval \<Rightarrow> js_string \<Rightarrow> js_error + jsval" where
  "field v k = (if isNullish v then Inl typeError else Inr (optField v k))"

definition hasField :: "jsval \<Rightarrow> js_string \<Rightarrow> bool" where
  "hasField v k = (case v of Obj fs \<Rightarrow> map_of fs k \<noteq> None | _ \<Rightarrow> False)"

section \<open>Conversions\<close>

definition isDigit :: "u16 \<Rightarrow> bool" where
  "isDigit u \<longleftrightarrow> 48 \<le> u \<and> u \<le> 57"

definition digitsValue :: "js_string \<Rightarrow> nat" where
  "digitsValue ds = foldl (\<lambda>acc u. acc * 10 + (unat u - 48)) 0 ds"

text \<open>The exponent part of a decimal literal, up to the end of the text.\<close>

fun exponentPart :: "js_string \<Rightarrow> int option" where
  "exponentPart [] = Some 0"
| "exponentPart (c # t) =
     (if c = 101 \<or> c = 69 then
        (let neg = startsWith t (js ''-'');
             ds = (if neg \<or> startsWith t (js ''+'') then drop 1 t else t) in
         if ds \<noteq> [] \<and> list_all isDigit ds
         then Some (if neg then - int (digitsValue ds) else int (digitsValue ds)) else None)
      else None)"

definition tenTo :: "int \<Rightarrow> rat" where
  "tenTo e = (if 0 \<le> e then 10 ^ nat e else 1 / 10 ^ nat (- e))"

definition decimalLiteral :: "js_string \<Rightarrow> rat option" where
  "decimalLiteral s =
     (let i = takeWhile isDigit s; r = dropWhile isDigit s;
          f = (if startsWith r (js ''.'') then takeWhile isDigit (drop 1 r) else []);
          r' = (if startsWith r (js ''.'') then dropWhile isDigit (drop 1 r) else r) in
      if i = [] \<and> f = [] then None
      else map_option (\<lambda>e. of_nat (digitsValue (i @ f)) * tenTo (e - int (length f))) (exponentPart r'))"

text \<open>Digits in the base of a prefixed literal; \<open>None\<close> when there is none or one does not fit.\<close>

definition baseLiteral :: "nat \<Rightarrow> js_string \<Rightarrow> nat option" where
  "baseLiteral base ds =
     (if ds \<noteq> [] \<and> list_all (\<lambda>u. case hexValue u of Some d \<Rightarrow> d < base | None \<Rightarrow> False) ds
      then Some (foldl (\<lambda>acc u. acc * base + the (hexValue u)) 0 ds) else None)"

text \<open>A literal with the prefix \<open>0x\<close>, \<open>0o\<close> or \<open>0b\<close>: \<open>None\<close> where the text has no such prefix.\<close>

definition prefixedLiteral :: "js_string \<Rightarrow> nat option option" where
  "prefixedLiteral s =
     (let p = map lowerUnit (take 2 s) in
      if p = js ''0x'' then Some (baseLiteral 16 (drop 2 s))
      else if p = js ''0o'' then Some (baseLiteral 8 (drop 2 s))
      else if p = js ''0b'' then Some (baseLiteral 2 (drop 2 s))
      else None)"

text \<open>\<open>Number(s)\<close> for a text.\<close>

definition textToNumber :: "js_string \<Rightarrow> jsnum" where
  "textToNumber text =
     (let s = trim text in
      if s = [] then Fin 0
      else case prefixedLiteral s of
        Some v \<Rightarrow> (case v of Some n \<Rightarrow> Fin (of_nat n) | None \<Rightarrow> NaN)
      | None \<Rightarrow>
          (let neg = startsWith s (js ''-'');
               t = (if neg \<or> startsWith s (js ''+'') then drop 1 s else s) in
           if t = js ''Infinity'' then Infinite neg
           else case decimalLiteral t of Some q \<Rightarrow> Fin (if neg then - q else q) | None \<Rightarrow> NaN))"

text \<open>\<open>Number(v)\<close>. An array converts through its \<open>join\<close>: empty to 0, one element as that element's text,
  several to \<open>NaN\<close> since the text has a comma. Objects that redefine \<open>valueOf\<close> or \<open>toString\<close> are left out.\<close>

fun toNumber :: "jsval \<Rightarrow> jsnum" where
  "toNumber Undefined = NaN"
| "toNumber Null = Fin 0"
| "toNumber (Bool b) = Fin (if b then 1 else 0)"
| "toNumber (Number n) = n"
| "toNumber (Str s) = textToNumber s"
| "toNumber (Arr []) = Fin 0"
| "toNumber (Arr [v]) =
     (case v of Undefined \<Rightarrow> Fin 0 | Null \<Rightarrow> Fin 0 | Bool _ \<Rightarrow> NaN | _ \<Rightarrow> toNumber v)"
| "toNumber (Arr (_ # _ # _)) = NaN"
| "toNumber (Buf bs) = (case bs of [] \<Rightarrow> Fin 0 | [b] \<Rightarrow> Fin (of_nat (unat b)) | _ \<Rightarrow> NaN)"
| "toNumber (Obj _) = NaN"

text \<open>\<open>Number(v) || 0\<close>.\<close>

definition numberOrZero :: "jsval \<Rightarrow> jsnum" where
  "numberOrZero v = (case toNumber v of NaN \<Rightarrow> Fin 0 | n \<Rightarrow> n)"

text \<open>Storing a number in a \<open>Uint8Array\<close>: truncated towards zero, modulo 256.\<close>

definition byteOf :: "jsnum \<Rightarrow> u8" where
  "byteOf n = (case n of Fin q \<Rightarrow> of_int (if q < 0 then \<lceil>q\<rceil> else \<lfloor>q\<rfloor>) | _ \<Rightarrow> 0)"

text \<open>Decimal digits of a natural number.\<close>

fun decimal :: "nat \<Rightarrow> js_string" where
  "decimal n = (if n < 10 then [of_nat (48 + n)] else decimal (n div 10) @ [of_nat (48 + n mod 10)])"

declare decimal.simps [simp del]

definition showInt :: "int \<Rightarrow> js_string" where
  "showInt i = (if i < 0 then js ''-'' @ decimal (nat (- i)) else decimal (nat i))"

text \<open>\<open>String(n)\<close>. Integers below \<open>10^21\<close> are written out; the shortest decimal text of any other
  double is the argument \<open>fr\<close>.\<close>

definition showNumber :: "(rat \<Rightarrow> js_string) \<Rightarrow> jsnum \<Rightarrow> js_string" where
  "showNumber fr n =
     (case n of
        NaN \<Rightarrow> js ''NaN''
      | Infinite neg \<Rightarrow> (if neg then js ''-Infinity'' else js ''Infinity'')
      | Fin q \<Rightarrow> if of_int \<lfloor>q\<rfloor> = q \<and> \<bar>q\<bar> < 10 ^ 21 then showInt \<lfloor>q\<rfloor> else fr q)"

text \<open>\<open>join(",")\<close>.\<close>

fun commaJoin :: "js_string list \<Rightarrow> js_string" where
  "commaJoin [] = []"
| "commaJoin [s] = s"
| "commaJoin (s # t # ts) = s @ js '','' @ commaJoin (t # ts)"

text \<open>\<open>String(v)\<close>; inside an array \<open>null\<close> and \<open>undefined\<close> are empty.\<close>

fun showValue :: "(rat \<Rightarrow> js_string) \<Rightarrow> jsval \<Rightarrow> js_string" where
  "showValue fr Undefined = js ''undefined''"
| "showValue fr Null = js ''null''"
| "showValue fr (Bool b) = (if b then js ''true'' else js ''false'')"
| "showValue fr (Number n) = showNumber fr n"
| "showValue fr (Str s) = s"
| "showValue fr (Arr vs) = commaJoin (map (\<lambda>v. if isNullish v then [] else showValue fr v) vs)"
| "showValue fr (Buf bs) = commaJoin (map (\<lambda>b. decimal (unat b)) bs)"
| "showValue fr (Obj _) = js ''[object Object]''"

text \<open>\<open>BigInt(v)\<close> throws on anything that does not denote an integer, \<open>undefined\<close> and \<open>null\<close> included.\<close>

definition textToBigInt :: "js_string \<Rightarrow> int option" where
  "textToBigInt text =
     (let s = trim text in
      if s = [] then Some 0
      else case prefixedLiteral s of
        Some v \<Rightarrow> map_option int v
      | None \<Rightarrow>
          (let neg = startsWith s (js ''-'');
               t = (if neg \<or> startsWith s (js ''+'') then drop 1 s else s) in
           if t \<noteq> [] \<and> list_all isDigit t
           then Some (if neg then - int (digitsValue t) else int (digitsValue t)) else None))"

definition parseBigInt :: "js_string \<Rightarrow> js_error + int" where
  "parseBigInt s =
     (case textToBigInt s of Some i \<Rightarrow> Inr i | None \<Rightarrow> Inl (PlainError (js ''SyntaxError'')))"

fun toBigInt :: "(rat \<Rightarrow> js_string) \<Rightarrow> jsval \<Rightarrow> js_error + int" where
  "toBigInt fr (Number n) =
     (case n of
        Fin q \<Rightarrow> if of_int \<lfloor>q\<rfloor> = q then Inr \<lfloor>q\<rfloor> else Inl (PlainError (js ''RangeError''))
      | _ \<Rightarrow> Inl (PlainError (js ''RangeError'')))"
| "toBigInt fr (Bool b) = Inr (if b then 1 else 0)"
| "toBigInt fr Undefined = Inl typeError"
| "toBigInt fr Null = Inl typeError"
| "toBigInt fr v = parseBigInt (showValue fr v)"

section \<open>Facts\<close>

lemma toNumber_num [simp]: "toNumber (num i) = Fin (of_int i)"
  by (simp add: num_def)

lemma numberOrZero_num [simp]: "numberOrZero (num i) = Fin (of_int i)"
  by (simp add: numberOrZero_def)

lemma byteOf_int: "byteOf (Fin (of_int i)) = of_int i"
  by (simp add: byteOf_def)

lemma byteOf_num [simp]: "byteOf (numberOrZero (num (uint b))) = b"
  using byteOf_int [of "uint b"] by (simp add: numberOrZero_num)

lemma toBigInt_num [simp]: "toBigInt fr (num i) = Inr i"
  by (simp add: num_def)

lemma digitsValue_snoc [simp]: "digitsValue (ds @ [u]) = digitsValue ds * 10 + (unat u - 48)"
  by (simp add: digitsValue_def)

lemma decimal_digit: "d < 10 \<Longrightarrow> unat (of_nat (48 + d) :: u16) = 48 + d"
  using unat_unit_of_nat [of "48 + d"] by simp

lemma isDigit_decimal: "d < 10 \<Longrightarrow> isDigit (of_nat (48 + d))"
  by (simp add: isDigit_def word_le_nat_alt decimal_digit [simplified])

lemma digitsValue_decimal: "digitsValue (decimal n) = n \<and> list_all isDigit (decimal n) \<and> decimal n \<noteq> []"
proof (induction n rule: decimal.induct)
  case (1 n)
  then show ?case
  proof (cases "n < 10")
    case True
    then show ?thesis
      using decimal_digit [of n] isDigit_decimal [of n]
      by (subst (1 2 3) decimal.simps) (simp add: digitsValue_def)
  next
    case False
    with 1 show ?thesis
      using decimal_digit [of "n mod 10"] isDigit_decimal [of "n mod 10"]
      by (subst (1 2 3) decimal.simps) simp
  qed
qed

end
