(* ===== verification/Rpc_Params.thy ===== *)
theory Rpc_Params
  imports Js_Value Transport
begin

text \<open>
  The request parameters of every Arch method and the normal form of a runtime transaction:
  \<^verbatim>\<open>transport/rpc-params.ts\<close>. Endpoints reject a \<open>Uint8Array\<close>, which serialises as a map, so every
  buffer becomes an array of numbers; the theorems show that no form of a buffer loses a byte and
  that normalising is idempotent.
\<close>

section \<open>Keys and transaction ids (transport/rpc-params.ts)\<close>

datatype pubkey = KeyBytes bytes | KeyHex js_string

text \<open>\<open>Array.from(bytes)\<close> as the request carries it.\<close>

definition numberArray :: "bytes \<Rightarrow> jsval" where
  "numberArray bs = Arr (map (\<lambda>b. num (uint b)) bs)"

definition pubkeyBytes :: "pubkey \<Rightarrow> js_error + bytes" where
  "pubkeyBytes pubkey =
     bindR (case pubkey of KeyHex s \<Rightarrow> hexToBytes (stripHexPrefix s) | KeyBytes bs \<Rightarrow> Inr bs) (\<lambda>bytes.
     guardR (length bytes \<noteq> 32)
       (PlainError (js ''Arch pubkey must be 32 bytes, got '' @ decimal (length bytes)))
       (Inr bytes))"

text \<open>The test \<open>/^[0-9a-f]{64}$/\<close>.\<close>

definition isTxid :: "js_string \<Rightarrow> bool" where
  "isTxid s \<longleftrightarrow> length s = 64 \<and> list_all (\<lambda>u. isDigit u \<or> 97 \<le> u \<and> u \<le> 102) s"

definition txidHex :: "(js_string \<Rightarrow> js_string) \<Rightarrow> js_string \<Rightarrow> js_error + js_string" where
  "txidHex ucd txid =
     (let normalized = toLowerCase ucd (stripHexPrefix txid) in
      guardR (\<not> isTxid normalized)
        (PlainError (js ''Arch txid must be 64 hex characters, got \"'' @ txid @ js ''\"''))
        (Inr normalized))"

section \<open>Runtime transactions\<close>

definition numericKey :: "js_string \<Rightarrow> bool" where
  "numericKey k \<longleftrightarrow> k \<noteq> [] \<and> list_all isDigit k"

definition compareKeys :: "js_string \<Rightarrow> js_string \<Rightarrow> int" where
  "compareKeys a b = int (digitsValue a) - int (digitsValue b)"

definition toNumberArray :: "jsval \<Rightarrow> jsnum list" where
  "toNumberArray value =
     (case value of
        Buf bs \<Rightarrow> map (\<lambda>b. Fin (of_int (uint b))) bs
      | Arr items \<Rightarrow> map numberOrZero items
      | Obj fs \<Rightarrow> map (\<lambda>key. numberOrZero (optField value key)) (sortBy compareKeys (filter numericKey (map fst fs)))
      | _ \<Rightarrow> [])"

record MessageHeader =
  mh_numRequiredSignatures :: jsnum
  mh_numReadonlySignedAccounts :: jsnum
  mh_numReadonlyUnsignedAccounts :: jsnum

record CompiledInstruction =
  ci_programIdIndex :: jsnum
  ci_accounts :: "jsnum list"
  ci_data :: "jsnum list"

record SanitizedMessage =
  sm_header :: MessageHeader
  sm_accountKeys :: "jsnum list list"
  sm_recentBlockhash :: "jsnum list"
  sm_instructions :: "CompiledInstruction list"

record RuntimeTransaction =
  rt_version :: jsnum
  rt_signatures :: "jsnum list list"
  rt_message :: SanitizedMessage

text \<open>\<open>Array.isArray(v) ? v.map(f) : []\<close>.\<close>

definition arrayItems :: "jsval \<Rightarrow> jsval list" where
  "arrayItems v = (case v of Arr vs \<Rightarrow> vs | _ \<Rightarrow> [])"

text \<open>One compiled instruction; reading a property of \<open>null\<close> throws.\<close>

definition normalizeInstruction :: "jsval \<Rightarrow> js_error + CompiledInstruction" where
  "normalizeInstruction ix =
     bindR (field ix (js ''program_id_index'')) (\<lambda>index.
     bindR (field ix (js ''accounts'')) (\<lambda>accounts.
     bindR (field ix (js ''data'')) (\<lambda>data.
     Inr \<lparr>ci_programIdIndex = numberOrZero index,
          ci_accounts = map numberOrZero (arrayItems accounts),
          ci_data = toNumberArray data\<rparr>)))"

definition normalizeHeader :: "jsval \<Rightarrow> MessageHeader" where
  "normalizeHeader header =
     \<lparr>mh_numRequiredSignatures = numberOrZero (optField header (js ''num_required_signatures'')),
      mh_numReadonlySignedAccounts = numberOrZero (optField header (js ''num_readonly_signed_accounts'')),
      mh_numReadonlyUnsignedAccounts = numberOrZero (optField header (js ''num_readonly_unsigned_accounts''))\<rparr>"

definition normalizeMessage :: "jsval \<Rightarrow> js_error + SanitizedMessage" where
  "normalizeMessage message =
     bindR (mapR normalizeInstruction (arrayItems (optField message (js ''instructions'')))) (\<lambda>instructions.
     Inr \<lparr>sm_header = normalizeHeader (optField message (js ''header'')),
          sm_accountKeys = map toNumberArray (arrayItems (optField message (js ''account_keys''))),
          sm_recentBlockhash = toNumberArray (optField message (js ''recent_blockhash'')),
          sm_instructions = instructions\<rparr>)"

definition normalizeRuntimeTransaction :: "jsval \<Rightarrow> js_error + RuntimeTransaction" where
  "normalizeRuntimeTransaction tx =
     bindR (normalizeMessage (optField tx (js ''message''))) (\<lambda>message.
     Inr \<lparr>rt_version = (case optField tx (js ''version'') of Number n \<Rightarrow> n | _ \<Rightarrow> Fin 0),
          rt_signatures = map toNumberArray (arrayItems (optField tx (js ''signatures''))),
          rt_message = message\<rparr>)"

section \<open>Values for the wire\<close>

text \<open>The transaction object that is serialised.\<close>

definition numbersValue :: "jsnum list \<Rightarrow> jsval" where
  "numbersValue ns = Arr (map Number ns)"

definition headerValue :: "MessageHeader \<Rightarrow> jsval" where
  "headerValue h = Obj
     [(js ''num_required_signatures'', Number (mh_numRequiredSignatures h)),
      (js ''num_readonly_signed_accounts'', Number (mh_numReadonlySignedAccounts h)),
      (js ''num_readonly_unsigned_accounts'', Number (mh_numReadonlyUnsignedAccounts h))]"

definition instructionValue :: "CompiledInstruction \<Rightarrow> jsval" where
  "instructionValue ix = Obj
     [(js ''program_id_index'', Number (ci_programIdIndex ix)),
      (js ''accounts'', numbersValue (ci_accounts ix)),
      (js ''data'', numbersValue (ci_data ix))]"

definition messageValue :: "SanitizedMessage \<Rightarrow> jsval" where
  "messageValue m = Obj
     [(js ''header'', headerValue (sm_header m)),
      (js ''account_keys'', Arr (map numbersValue (sm_accountKeys m))),
      (js ''recent_blockhash'', numbersValue (sm_recentBlockhash m)),
      (js ''instructions'', Arr (map instructionValue (sm_instructions m)))]"

definition transactionValue :: "RuntimeTransaction \<Rightarrow> jsval" where
  "transactionValue t = Obj
     [(js ''version'', Number (rt_version t)),
      (js ''signatures'', Arr (map numbersValue (rt_signatures t))),
      (js ''message'', messageValue (rt_message t))]"

section \<open>archRpcParams (transport/rpc-params.ts)\<close>

text \<open>One builder per method.\<close>

definition filterValue :: "AccountFilter \<Rightarrow> jsval" where
  "filterValue f =
     (case f of
        DataSize n \<Rightarrow> Obj [(js ''DataSize'', num (int n))]
      | DataContent off bs \<Rightarrow>
          Obj [(js ''DataContent'', Obj [(js ''offset'', num (int off)), (js ''bytes'', numberArray bs)])])"

definition params_read_account_info :: "pubkey \<Rightarrow> js_error + jsval" where
  "params_read_account_info pubkey = bindR (pubkeyBytes pubkey) (\<lambda>bs. Inr (Arr [numberArray bs]))"

definition params_get_multiple_accounts :: "pubkey list \<Rightarrow> js_error + jsval" where
  "params_get_multiple_accounts pubkeys =
     bindR (mapR pubkeyBytes pubkeys) (\<lambda>bss. Inr (Arr [Arr (map numberArray bss)]))"

definition params_get_program_accounts :: "pubkey \<Rightarrow> AccountFilter list \<Rightarrow> js_error + jsval" where
  "params_get_program_accounts programId filters =
     bindR (pubkeyBytes programId) (\<lambda>bs. Inr (Arr [numberArray bs, Arr (map filterValue filters)]))"

definition params_create_account_with_faucet :: "pubkey \<Rightarrow> js_error + jsval" where
  "params_create_account_with_faucet pubkey = bindR (pubkeyBytes pubkey) (\<lambda>bs. Inr (numberArray bs))"

definition params_send_transaction :: "jsval \<Rightarrow> js_error + jsval" where
  "params_send_transaction transaction =
     bindR (normalizeRuntimeTransaction transaction) (\<lambda>t. Inr (transactionValue t))"

definition params_get_processed_transaction :: "(js_string \<Rightarrow> js_string) \<Rightarrow> js_string \<Rightarrow> js_error + jsval" where
  "params_get_processed_transaction ucd txid =
     bindR (txidHex ucd txid) (\<lambda>t. Inr (Obj [(js ''tx_id'', Str t)]))"

definition params_empty :: jsval where
  "params_empty = Arr []"

section \<open>Normal forms\<close>

interpretation keys: comparator compareKeys
  by unfold_locales (auto simp: compareKeys_def)

lemma numberOrZero_not_NaN: "numberOrZero v \<noteq> NaN"
  by (auto simp: numberOrZero_def split: jsnum.splits)

lemma numberOrZero_id: "n \<noteq> NaN \<Longrightarrow> numberOrZero (Number n) = n"
  by (auto simp: numberOrZero_def split: jsnum.splits)

text \<open>What normalising yields has no \<open>NaN\<close>, and normalises to itself.\<close>

definition plainNumbers :: "jsnum list \<Rightarrow> bool" where
  "plainNumbers ns \<longleftrightarrow> NaN \<notin> set ns"

lemma toNumberArray_plain: "plainNumbers (toNumberArray v)"
  using numberOrZero_not_NaN
  by (auto simp: toNumberArray_def plainNumbers_def image_iff split: jsval.splits) metis+

lemma toNumberArray_numbersValue: "plainNumbers ns \<Longrightarrow> toNumberArray (numbersValue ns) = ns"
  by (induction ns) (auto simp: toNumberArray_def numbersValue_def plainNumbers_def numberOrZero_id)

lemma field_keys [simp]:
  "optField (Obj ((k, v) # fs)) k = v" "k \<noteq> j \<Longrightarrow> optField (Obj ((j, v) # fs)) k = optField (Obj fs) k"
  "field (Obj fs) k = Inr (optField (Obj fs) k)"
  by (simp_all add: optField_def field_def isNullish_def)

lemma instructionValue_normal:
  assumes "normalizeInstruction v = Inr ix"
  shows "normalizeInstruction (instructionValue ix) = Inr ix"
  using assms toNumberArray_plain toNumberArray_numbersValue
  by (auto simp: normalizeInstruction_def instructionValue_def result_iffs js_def arrayItems_def numbersValue_def
      numberOrZero_id numberOrZero_not_NaN)

lemma messageValue_normal:
  assumes "normalizeMessage v = Inr m"
  shows "normalizeMessage (messageValue m) = Inr m"
proof -
  obtain ixs where "mapR normalizeInstruction (arrayItems (optField v (js ''instructions''))) = Inr ixs"
    and m: "m = \<lparr>sm_header = normalizeHeader (optField v (js ''header'')),
          sm_accountKeys = map toNumberArray (arrayItems (optField v (js ''account_keys''))),
          sm_recentBlockhash = toNumberArray (optField v (js ''recent_blockhash'')),
          sm_instructions = ixs\<rparr>"
    using assms by (auto simp: normalizeMessage_def result_iffs)
  then have "mapR normalizeInstruction (map instructionValue ixs) = Inr ixs"
    using instructionValue_normal by (fastforce simp: mapR_Inr_iff list_all2_conv_all_nth)
  then show ?thesis
    by (simp add: m normalizeMessage_def messageValue_def normalizeHeader_def headerValue_def js_def arrayItems_def
        numberOrZero_id numberOrZero_not_NaN toNumberArray_plain toNumberArray_numbersValue o_def)
qed

lemma transactionValue_normal:
  assumes "normalizeRuntimeTransaction v = Inr t"
  shows "normalizeRuntimeTransaction (transactionValue t) = Inr t"
  using assms messageValue_normal
  by (auto simp: normalizeRuntimeTransaction_def transactionValue_def result_iffs js_def arrayItems_def o_def
      toNumberArray_plain toNumberArray_numbersValue)

section \<open>Buffers\<close>

text \<open>\<open>JSON.stringify\<close> writes a \<open>Uint8Array\<close> as an object with one property per index.\<close>

definition bufferEntries :: "bytes \<Rightarrow> (js_string \<times> jsval) list" where
  "bufferEntries bs = map (\<lambda>i. (decimal i, num (uint (bs ! i)))) [0..<length bs]"

lemma digitsValue_of_decimal [simp]: "digitsValue (decimal n) = n"
  using digitsValue_decimal by blast

lemma sorted_decimal_keys:
  assumes "mset ks = mset (map decimal [0..<n])"
  shows "sortBy compareKeys ks = map decimal [0..<n]"
proof -
  let ?s = "sortBy compareKeys ks"
  have "sorted (map digitsValue ?s)"
    using keys.sorted_sortBy [of ks] by (simp add: sorted_map compareKeys_def)
  moreover have perm: "mset ?s = mset (map decimal [0..<n])" by (simp add: assms)
  then have "mset (map digitsValue ?s) = mset (map digitsValue (map decimal [0..<n]))" by (metis mset_map)
  then have "mset (map digitsValue ?s) = mset [0..<n]" by (simp add: o_def)
  ultimately have d: "map digitsValue ?s = [0..<n]"
    by (metis properties_for_sort sorted_sort_id sorted_upt)
  have "set ?s = decimal ` {0..<n}" using perm by (metis mset_eq_setD set_map set_upt)
  then have "map decimal (map digitsValue ?s) = ?s"
    by (simp only: map_map, intro map_idI) auto
  then show ?thesis by (simp only: d)
qed

lemma toNumberArray_entries:
  assumes "mset fs = mset (bufferEntries bs)"
  shows "toNumberArray (Obj fs) = map (\<lambda>b. Fin (of_int (uint b))) bs"
proof -
  have keys: "mset (map fst fs) = mset (map decimal [0..<length bs])"
    using arg_cong [OF assms, of "image_mset fst"] by (simp add: bufferEntries_def o_def image_mset.compositionality)
  have "inj decimal" by (rule inj_on_inverseI [where g = digitsValue]) simp
  then have "distinct (map decimal [0..<length bs])" by (auto simp: distinct_map intro: inj_on_subset)
  then have "distinct (map fst fs)" using keys mset_eq_imp_distinct_iff by blast
  then have "map_of fs (decimal i) = Some (num (uint (bs ! i)))" if "i < length bs" for i
    by (rule map_of_is_SomeI) (use that mset_eq_setD [OF assms] in \<open>simp add: bufferEntries_def\<close>)
  then have entry: "optField (Obj fs) (decimal i) = num (uint (bs ! i))" if "i < length bs" for i
    by (simp add: optField_def that)
  have "filter numericKey (map fst fs) = map fst fs"
    using mset_eq_setD [OF keys] digitsValue_decimal by (auto simp: filter_id_conv numericKey_def)
  then have "toNumberArray (Obj fs) = map (\<lambda>k. numberOrZero (optField (Obj fs) k)) (map decimal [0..<length bs])"
    by (simp only: toNumberArray_def jsval.case sorted_decimal_keys [OF keys])
  also have "\<dots> = map (\<lambda>i. Fin (of_int (uint (bs ! i)))) [0..<length bs]"
    by (simp add: entry)
  also have "\<dots> = map (\<lambda>b. Fin (of_int (uint b))) (map ((!) bs) [0..<length bs])"
    by (simp only: map_map o_def)
  finally show ?thesis by (simp only: map_nth)
qed

text \<open>C36. No form of a buffer loses a byte on the wire. A \<open>Uint8Array\<close>, the array of its numbers, and the
  object that \<open>JSON.stringify\<close> makes of it, in any order of its properties, normalise to the same
  numbers; and a transaction that was normalised once is a fixed point: sending it again changes nothing.\<close>

theorem runtime_transaction_normal_form:
  "toNumberArray (Buf bs) = map (\<lambda>b. Fin (of_int (uint b))) bs \<and>
   toNumberArray (numberArray bs) = toNumberArray (Buf bs) \<and>
   (mset fs = mset (bufferEntries bs) \<longrightarrow> toNumberArray (Obj fs) = toNumberArray (Buf bs)) \<and>
   (normalizeRuntimeTransaction v = Inr t \<longrightarrow> normalizeRuntimeTransaction (transactionValue t) = Inr t)"
  using toNumberArray_entries transactionValue_normal
  by (auto simp: toNumberArray_def numberArray_def)

theorem runtime_transaction_normal_form_witness:
  "toNumberArray (Obj [(js ''1'', num 255), (js ''0'', num 7)]) = [Fin 7, Fin 255] \<and>
   (\<exists>t. normalizeRuntimeTransaction (Obj [(js ''signatures'', Arr [Buf [7, 255]])]) = Inr t \<and>
      rt_signatures t = [[Fin 7, Fin 255]] \<and> normalizeRuntimeTransaction (transactionValue t) = Inr t)"
proof -
  obtain t where t: "normalizeRuntimeTransaction (Obj [(js ''signatures'', Arr [Buf [7, 255]])]) = Inr t"
      "rt_signatures t = [[Fin 7, Fin 255]]"
    by (simp add: normalizeRuntimeTransaction_def normalizeMessage_def optField_def js_def arrayItems_def toNumberArray_def)
  show ?thesis
    using runtime_transaction_normal_form [of "[7, 255]" "[(js ''1'', num 255), (js ''0'', num 7)]"
        "Obj [(js ''signatures'', Arr [Buf [7, 255]])]" t] t
    by (simp add: bufferEntries_def decimal.simps js_def toNumberArray_def upt_rec)
qed

end
