(* ===== verification/Arch_Rpc.thy ===== *)
theory Arch_Rpc
  imports Rpc_Params
begin

text \<open>
  The JSON-RPC transport: \<^verbatim>\<open>transport/arch-rpc.ts\<close>. \<open>fetch\<close> and the clock are the parameter \<open>endpoint\<close>; a
  request is the value that is serialised. The transport keeps two maps between calls, the account
  cache and the reads in flight; its methods run in the world \<open>rpc_world\<close> that pairs them with the network.
  The last part takes the interleaving of calls and answers apart into steps.
\<close>

section \<open>Errors\<close>

definition ACCOUNT_CACHE_TTL_MS :: int where "ACCOUNT_CACHE_TTL_MS = 5000"

text \<open>\<open>new ArchRpcError(method, error)\<close>.\<close>

definition archRpcError :: "(rat \<Rightarrow> js_string) \<Rightarrow> js_string \<Rightarrow> jsval \<Rightarrow> js_error" where
  "archRpcError fr method error =
     (let detail = (case optField error (js ''data'') of Str d \<Rightarrow> Some d | _ \<Rightarrow> None);
          message = showValue fr (orElse (optField error (js ''message'')) (Str (js ''Arch RPC error for '' @ method)));
          code = (case optField error (js ''code'') of
                    Number (Fin q) \<Rightarrow> if of_int \<lfloor>q\<rfloor> = q then Some \<lfloor>q\<rfloor> else None | _ \<Rightarrow> None) in
      ArchRpcError method code detail
        (case detail of
           Some d \<Rightarrow> if d \<noteq> [] then message @ js '' ('' @ d @ js '')'' else message
         | None \<Rightarrow> message))"

text \<open>\<open>/account [0-9a-f]+ not found/\<close>, at the start of a text.\<close>

definition accountHexNotFound :: "js_string \<Rightarrow> bool" where
  "accountHexNotFound s \<longleftrightarrow> startsWith s (js ''account '') \<and>
     (let r = drop 8 s; h = takeWhile (\<lambda>u. isDigit u \<or> 97 \<le> u \<and> u \<le> 102) r in
      h \<noteq> [] \<and> startsWith (drop (length h) r) (js '' not found''))"

definition isAccountMissingError :: "(js_string \<Rightarrow> js_string) \<Rightarrow> js_string \<Rightarrow> bool" where
  "isAccountMissingError ucd message =
     (let normalized = toLowerCase ucd message in
      includesText normalized (js ''account is not in database'') \<or>
      anySuffix accountHexNotFound normalized \<or>
      includesText normalized (js ''account not found''))"

definition notIndexedDetail :: "js_string \<Rightarrow> bool" where
  "notIndexedDetail s = matchesFolded s (js ''invalid type: sequence, expected a string'')"

text \<open>A value that somebody throws: an error, a text, or nothing at all. The \<open>cause\<close> of an error is the
  argument \<open>causeOf\<close>, which may lead back to the error itself.\<close>

datatype thrown = ThrownError js_error | ThrownText js_string | ThrownNothing

fun errorCode :: "js_error \<Rightarrow> int option" where
  "errorCode (ArchRpcError _ c _ _) = c"
| "errorCode _ = None"

fun errorData :: "js_error \<Rightarrow> js_string option" where
  "errorData (ArchRpcError _ _ d _) = d"
| "errorData _ = None"

definition saysNotIndexed :: "js_error \<Rightarrow> bool" where
  "saysNotIndexed e \<longleftrightarrow>
     errorCode e = Some (-32602) \<and> (case errorData e of Some d \<Rightarrow> notIndexedDetail d | None \<Rightarrow> False) \<or>
     notIndexedDetail (errorMessage e)"

text \<open>The walk along the causes; the argument is the number of links it may still follow.\<close>

fun walkCauses :: "(js_error \<Rightarrow> js_error option) \<Rightarrow> nat \<Rightarrow> js_error \<Rightarrow> bool" where
  "walkCauses causeOf 0 e = False"
| "walkCauses causeOf (Suc n) e =
     (saysNotIndexed e \<or> (case causeOf e of Some c \<Rightarrow> walkCauses causeOf n c | None \<Rightarrow> False))"

fun isTransactionNotIndexedError :: "(js_error \<Rightarrow> js_error option) \<Rightarrow> thrown \<Rightarrow> bool" where
  "isTransactionNotIndexedError causeOf (ThrownError e) = walkCauses causeOf 8 e"
| "isTransactionNotIndexedError causeOf (ThrownText s) = notIndexedDetail s"
| "isTransactionNotIndexedError causeOf ThrownNothing = False"

text \<open>\<open>/transaction .*not found|not found in|no transaction/i\<close>; the dot stops at a line terminator.\<close>

definition transactionNotFoundText :: "js_string \<Rightarrow> bool" where
  "transactionNotFoundText s =
     (let f = map lowerUnit s in
      anySuffix (\<lambda>t. startsWith t (js ''transaction '') \<and>
        includesText (takeWhile (\<lambda>u. u \<notin> {10, 13, 0x2028, 0x2029}) (drop 12 t)) (js ''not found'')) f \<or>
      includesText f (js ''not found in'') \<or> includesText f (js ''no transaction''))"

definition isTransactionUnavailableError :: "(js_error \<Rightarrow> js_error option) \<Rightarrow> js_error \<Rightarrow> bool" where
  "isTransactionUnavailableError causeOf e =
     ((case e of ArchRpcError _ _ _ m \<Rightarrow> transactionNotFoundText m | _ \<Rightarrow> False) \<or>
      isTransactionNotIndexedError causeOf (ThrownError e))"

section \<open>Requests and payloads\<close>

record response =
  rs_status :: int
  rs_retryAfter :: "js_string option"
  rs_json :: "js_error + jsval"

definition responseOk :: "response \<Rightarrow> bool" where
  "responseOk r \<longleftrightarrow> 200 \<le> rs_status r \<and> rs_status r \<le> 299"

text \<open>The outside: posting a JSON value to an address, the clock, how a read that another caller has
  in flight settles, the causes of errors, and the two texts of the platform that are data.\<close>

record 'w endpoint =
  ep_post :: "js_string \<Rightarrow> jsval \<Rightarrow> ('w, response) io"
  ep_now :: "'w \<Rightarrow> int"
  ep_pending :: "js_string \<Rightarrow> ('w, AccountInfo option) io"
  ep_cause :: "js_error \<Rightarrow> js_error option"
  ep_fraction :: "rat \<Rightarrow> js_string"
  ep_lower :: "js_string \<Rightarrow> js_string"

definition requestBody :: "js_string \<Rightarrow> jsval \<Rightarrow> jsval" where
  "requestBody method params = Obj
     [(js ''jsonrpc'', Str (js ''2.0'')), (js ''id'', num 1), (js ''method'', Str method), (js ''params'', params)]"

definition rpc :: "'w endpoint \<Rightarrow> js_string \<Rightarrow> js_string \<Rightarrow> jsval \<Rightarrow> ('w, jsval) io" where
  "rpc E url method params =
     bindIO (ep_post E url (requestBody method params)) (\<lambda>response.
     if \<not> responseOk response
     then throwIO (PlainError (js ''Arch RPC HTTP '' @ showInt (rs_status response)))
     else bindIO (pureIO (rs_json response)) (\<lambda>body.
       bindIO (pureIO (field body (js ''error''))) (\<lambda>error.
       if truthy error then throwIO (archRpcError (ep_fraction E) method error)
       else retIO (optField body (js ''result'')))))"

definition toBytes :: "jsval \<Rightarrow> js_error + bytes" where
  "toBytes value =
     (case value of
        Buf bs \<Rightarrow> Inr bs
      | Str s \<Rightarrow> hexToBytes s
      | Arr items \<Rightarrow> Inr (map (\<lambda>item. byteOf (numberOrZero item)) items)
      | _ \<Rightarrow> Inr [])"

text \<open>\<open>lamports ?? 0\<close>, by its declared type a number.\<close>

definition lamportsOf :: "jsval \<Rightarrow> int" where
  "lamportsOf v = (case orElse v (num 0) of Number (Fin q) \<Rightarrow> \<lfloor>q\<rfloor> | _ \<Rightarrow> 0)"

definition accountFields :: "jsval \<Rightarrow> js_error + AccountInfo" where
  "accountFields v =
     bindR (toBytes (optField v (js ''data''))) (\<lambda>data.
     bindR (toBytes (optField v (js ''owner''))) (\<lambda>owner.
     Inr \<lparr>ai_data = data, ai_owner = owner, ai_lamports = lamportsOf (optField v (js ''lamports'')),
          ai_isExecutable = truthy (optField v (js ''is_executable''))\<rparr>))"

definition parseAccountPayload :: "jsval \<Rightarrow> js_error + AccountInfo option" where
  "parseAccountPayload result =
     (if \<not> truthy result then Inr None else bindR (accountFields result) (\<lambda>i. Inr (Some i)))"

definition pubkeyCacheKey :: "(js_string \<Rightarrow> js_string) \<Rightarrow> pubkey \<Rightarrow> js_string" where
  "pubkeyCacheKey ucd pubkey =
     (case pubkey of KeyHex s \<Rightarrow> toLowerCase ucd (stripHexPrefix s) | KeyBytes bs \<Rightarrow> bytesToHex bs)"

text \<open>\<open>(v ?? []).map(f)\<close>: anything else that has no \<open>map\<close> throws.\<close>

definition listOf :: "jsval \<Rightarrow> js_error + jsval list" where
  "listOf v = (if isNullish v then Inr [] else case v of Arr vs \<Rightarrow> Inr vs | _ \<Rightarrow> Inl typeError)"

section \<open>The account cache\<close>

record rpc_cache =
  ac_accountCache :: "js_string \<rightharpoonup> int \<times> AccountInfo option"
  ac_inflightReads :: "js_string set"

datatype read_decision = Cached "AccountInfo option" | Pending | Request

text \<open>What \<open>readAccountInfo\<close> does first, up to its first \<open>await\<close>.\<close>

definition readDecision :: "int \<Rightarrow> js_string \<Rightarrow> rpc_cache \<Rightarrow> read_decision" where
  "readDecision t key c =
     (case ac_accountCache c key of
        Some (expiresAt, v) \<Rightarrow>
          if expiresAt > t then Cached v else if key \<in> ac_inflightReads c then Pending else Request
      | None \<Rightarrow> if key \<in> ac_inflightReads c then Pending else Request)"

definition readStarted :: "js_string \<Rightarrow> rpc_cache \<Rightarrow> rpc_cache" where
  "readStarted key c = c\<lparr>ac_inflightReads := insert key (ac_inflightReads c)\<rparr>"

definition cacheSet :: "js_string \<Rightarrow> int \<Rightarrow> AccountInfo option \<Rightarrow> rpc_cache \<Rightarrow> rpc_cache" where
  "cacheSet key expiresAt v c = c\<lparr>ac_accountCache := (ac_accountCache c)(key \<mapsto> (expiresAt, v))\<rparr>"

text \<open>The \<open>then\<close> and \<open>finally\<close> of a read.\<close>

definition readSettled :: "int \<Rightarrow> js_string \<Rightarrow> js_error + AccountInfo option \<Rightarrow> rpc_cache \<Rightarrow> rpc_cache" where
  "readSettled t key r c =
     (let c' = (case r of Inr v \<Rightarrow> cacheSet key (t + ACCOUNT_CACHE_TTL_MS) v c | Inl _ \<Rightarrow> c) in
      c'\<lparr>ac_inflightReads := ac_inflightReads c' - {key}\<rparr>)"

definition batchStored :: "int \<Rightarrow> (js_string \<times> AccountInfo option) list \<Rightarrow> rpc_cache \<Rightarrow> rpc_cache" where
  "batchStored t entries c = fold (\<lambda>(key, v). cacheSet key (t + ACCOUNT_CACHE_TTL_MS) v) entries c"

section \<open>createArchRpcTransport (transport/arch-rpc.ts)\<close>

record 'w rpc_world =
  rw_net :: 'w
  rw_cache :: rpc_cache

text \<open>A computation on the network alone.\<close>

definition onNet :: "('w, 'a) io \<Rightarrow> ('w rpc_world, 'a) io" where
  "onNet m w = (case m (rw_net w) of (r, n) \<Rightarrow> (r, w\<lparr>rw_net := n\<rparr>))"

definition updateCache :: "(rpc_cache \<Rightarrow> rpc_cache) \<Rightarrow> 'w rpc_world \<Rightarrow> 'w rpc_world" where
  "updateCache f w = w\<lparr>rw_cache := f (rw_cache w)\<rparr>"

definition readAccountInfoUncached :: "'w endpoint \<Rightarrow> js_string \<Rightarrow> pubkey \<Rightarrow> ('w, AccountInfo option) io" where
  "readAccountInfoUncached E rpcUrl pubkey =
     catchIO
       (bindIO (pureIO (params_read_account_info pubkey)) (\<lambda>params.
        bindIO (rpc E rpcUrl (js ''read_account_info'') params) (\<lambda>result.
        pureIO (parseAccountPayload result))))
       (\<lambda>e. if isAccountMissingError (ep_lower E) (errorMessage e) then retIO None else throwIO e)"

definition archReadAccountInfo :: "'w endpoint \<Rightarrow> js_string \<Rightarrow> pubkey \<Rightarrow> ('w rpc_world, AccountInfo option) io" where
  "archReadAccountInfo E rpcUrl pubkey w =
     (let key = pubkeyCacheKey (ep_lower E) pubkey in
      case readDecision (ep_now E (rw_net w)) key (rw_cache w) of
        Cached v \<Rightarrow> (Inr v, w)
      | Pending \<Rightarrow> onNet (ep_pending E key) w
      | Request \<Rightarrow>
          (let (r, w') = onNet (readAccountInfoUncached E rpcUrl pubkey) (updateCache (readStarted key) w) in
           (r, updateCache (readSettled (ep_now E (rw_net w')) key r) w')))"

definition padAccounts :: "nat \<Rightarrow> AccountInfo option list \<Rightarrow> AccountInfo option list" where
  "padAccounts n accounts = take n (accounts @ replicate (n - length accounts) None)"

definition archGetMultipleAccounts ::
  "'w endpoint \<Rightarrow> js_string \<Rightarrow> pubkey list \<Rightarrow> ('w rpc_world, AccountInfo option list) io" where
  "archGetMultipleAccounts E rpcUrl pubkeys =
     (if pubkeys = [] then retIO []
      else bindIO (pureIO (params_get_multiple_accounts pubkeys)) (\<lambda>params.
        bindIO (onNet (rpc E rpcUrl (js ''get_multiple_accounts'') params)) (\<lambda>result.
        bindIO (pureIO (bindR (listOf result) (mapR parseAccountPayload))) (\<lambda>accounts.
        let sliced = padAccounts (length pubkeys) accounts in
        (\<lambda>w. (Inr sliced,
          updateCache (batchStored (ep_now E (rw_net w))
            (zip (map (pubkeyCacheKey (ep_lower E)) pubkeys) sliced)) w))))))"

definition programEntry :: "jsval \<Rightarrow> js_error + ProgramAccountEntry" where
  "programEntry entry =
     bindR (field entry (js ''pubkey'')) (\<lambda>k.
     bindR (toBytes k) (\<lambda>pubkey.
     bindR (accountFields (optField entry (js ''account''))) (\<lambda>account.
     Inr \<lparr>pe_pubkey = pubkey, pe_account = account\<rparr>)))"

definition archGetProgramAccounts ::
  "'w endpoint \<Rightarrow> js_string \<Rightarrow> pubkey \<Rightarrow> AccountFilter list \<Rightarrow> ('w, ProgramAccountEntry list) io" where
  "archGetProgramAccounts E rpcUrl programId filters =
     bindIO (pureIO (params_get_program_accounts programId filters)) (\<lambda>params.
     bindIO (rpc E rpcUrl (js ''get_program_accounts'') params) (\<lambda>result.
     pureIO (bindR (listOf result) (mapR programEntry))))"

definition archGetCurrentSlot :: "'w endpoint \<Rightarrow> js_string \<Rightarrow> ('w, int) io" where
  "archGetCurrentSlot E rpcUrl =
     catchIO
       (bindIO (rpc E rpcUrl (js ''get_slot'') params_empty) (\<lambda>slot. pureIO (toBigInt (ep_fraction E) slot)))
       (\<lambda>_. bindIO (rpc E rpcUrl (js ''get_block_count'') params_empty) (\<lambda>height.
              pureIO (toBigInt (ep_fraction E) height)))"

definition archGetBestBlockHash :: "'w endpoint \<Rightarrow> js_string \<Rightarrow> ('w, bytes) io" where
  "archGetBestBlockHash E rpcUrl =
     bindIO (rpc E rpcUrl (js ''get_best_block_hash'') params_empty) (\<lambda>hash. pureIO (toBytes hash))"

text \<open>The declared result of \<open>send_transaction\<close> is a text.\<close>

definition archSendTransaction :: "'w endpoint \<Rightarrow> js_string \<Rightarrow> jsval \<Rightarrow> ('w, js_string) io" where
  "archSendTransaction E rpcUrl transaction =
     bindIO (pureIO (params_send_transaction transaction)) (\<lambda>params.
     bindIO (rpc E rpcUrl (js ''send_transaction'') params) (\<lambda>txid.
     retIO (showValue (ep_fraction E) txid)))"

definition errorText :: "(rat \<Rightarrow> js_string) \<Rightarrow> jsval \<Rightarrow> js_string option" where
  "errorText fr v = (if isNullish v then None else Some (showValue fr v))"

definition parseProcessed :: "(rat \<Rightarrow> js_string) \<Rightarrow> jsval \<Rightarrow> ProcessedTransaction option" where
  "parseProcessed fr result =
     (if \<not> truthy result then None
      else Some
        (let status = optField result (js ''status''); error = optField result (js ''error'');
             other = \<lparr>pt_status = showValue fr (orElse status (Str (js ''Unknown''))), pt_error = errorText fr error\<rparr> in
         case status of
           Str s \<Rightarrow> \<lparr>pt_status = s, pt_error = errorText fr error\<rparr>
         | Obj _ \<Rightarrow>
             if hasField status (js ''Failed'')
             then \<lparr>pt_status = js ''Failed'', pt_error = Some (showValue fr
                    (orElse (optField status (js ''Failed'')) (orElse error (Str (js ''failed'')))))\<rparr>
             else if hasField status (js ''Processed'') \<or> hasField status (js ''Confirmed'')
             then \<lparr>pt_status = js ''Processed'', pt_error = None\<rparr>
             else (case optField status (js ''type'') of
                     Str s \<Rightarrow> \<lparr>pt_status = s,
                       pt_error = (if s = js ''Failed'' then errorText fr (orElse error (Str (js ''failed'')))
                                   else errorText fr error)\<rparr>
                   | _ \<Rightarrow> other)
         | _ \<Rightarrow> other))"

definition archGetProcessedTransaction ::
  "'w endpoint \<Rightarrow> js_string \<Rightarrow> js_string \<Rightarrow> ('w, ProcessedTransaction option) io" where
  "archGetProcessedTransaction E rpcUrl txid =
     bindIO
       (catchIO
         (bindIO (pureIO (params_get_processed_transaction (ep_lower E) txid)) (\<lambda>params.
          rpc E rpcUrl (js ''get_processed_transaction'') params))
         (\<lambda>e. if isTransactionUnavailableError (ep_cause E) e then retIO Null else throwIO e))
       (\<lambda>result. retIO (parseProcessed (ep_fraction E) result))"

definition createArchRpcTransport :: "'w endpoint \<Rightarrow> js_string \<Rightarrow> ('w rpc_world, jsval) AnsTransport" where
  "createArchRpcTransport E rpcUrl = \<lparr>
     readAccountInfo = (\<lambda>a. archReadAccountInfo E rpcUrl (KeyBytes a)),
     getMultipleAccounts = Some (\<lambda>as. archGetMultipleAccounts E rpcUrl (map KeyBytes as)),
     getProgramAccounts = Some (\<lambda>pid fs. onNet (archGetProgramAccounts E rpcUrl (KeyBytes pid) fs)),
     getCurrentSlot = onNet (archGetCurrentSlot E rpcUrl),
     getBestBlockHash = onNet (archGetBestBlockHash E rpcUrl),
     sendTransaction = (\<lambda>tx. onNet (archSendTransaction E rpcUrl tx)),
     getProcessedTransaction = (\<lambda>txid. onNet (archGetProcessedTransaction E rpcUrl txid))\<rparr>"

section \<open>Calls and answers, interleaved\<close>

text \<open>
  What can happen between the calls of one transport: time passes; \<open>readAccountInfo\<close> is called, and
  opens a request when it has neither a fresh entry nor a read in flight; an open request is
  answered or rejected; a batch read is answered. \<open>rs_open\<close> are the requests on the network and
  \<open>rs_log\<close> what the network reported, with the time.
\<close>

record read_state =
  rs_time :: int
  rs_caches :: rpc_cache
  rs_open :: "js_string list"
  rs_log :: "(int \<times> js_string \<times> AccountInfo option) list"

definition emptyReads :: "int \<Rightarrow> read_state" where
  "emptyReads t = \<lparr>rs_time = t, rs_caches = \<lparr>ac_accountCache = Map.empty, ac_inflightReads = {}\<rparr>, rs_open = [], rs_log = []\<rparr>"

inductive readStep :: "read_state \<Rightarrow> read_state \<Rightarrow> bool" where
  tick: "0 \<le> d \<Longrightarrow> readStep s (s\<lparr>rs_time := rs_time s + d\<rparr>)"
| call: "readDecision (rs_time s) key (rs_caches s) = Request \<Longrightarrow>
    readStep s (s\<lparr>rs_caches := readStarted key (rs_caches s), rs_open := key # rs_open s\<rparr>)"
| answer: "key \<in> set (rs_open s) \<Longrightarrow>
    readStep s (s\<lparr>rs_caches := readSettled (rs_time s) key (Inr v) (rs_caches s),
      rs_open := remove1 key (rs_open s), rs_log := (rs_time s, key, v) # rs_log s\<rparr>)"
| reject: "key \<in> set (rs_open s) \<Longrightarrow>
    readStep s (s\<lparr>rs_caches := readSettled (rs_time s) key (Inl e) (rs_caches s), rs_open := remove1 key (rs_open s)\<rparr>)"
| batch: "readStep s (s\<lparr>rs_caches := batchStored (rs_time s) entries (rs_caches s),
      rs_log := map (\<lambda>(key, v). (rs_time s, key, v)) entries @ rs_log s\<rparr>)"

inductive reachableReads :: "read_state \<Rightarrow> bool" where
  start: "reachableReads (emptyReads t)"
| step: "reachableReads s \<Longrightarrow> readStep s s' \<Longrightarrow> reachableReads s'"

text \<open>The invariant: the reads in flight are exactly the open requests, one per key, and every entry of the
  cache is what the network reported a time-to-live before it expires.\<close>

definition readInvariant :: "read_state \<Rightarrow> bool" where
  "readInvariant s \<longleftrightarrow>
     distinct (rs_open s) \<and> set (rs_open s) = ac_inflightReads (rs_caches s) \<and>
     (\<forall>key x v. ac_accountCache (rs_caches s) key = Some (x, v) \<longrightarrow>
        (x - ACCOUNT_CACHE_TTL_MS, key, v) \<in> set (rs_log s)) \<and>
     (\<forall>(t, key, v) \<in> set (rs_log s). t \<le> rs_time s)"

lemma batchStored_inflight [simp]: "ac_inflightReads (batchStored t es c) = ac_inflightReads c"
  by (induction es arbitrary: c) (auto simp: batchStored_def cacheSet_def split: prod.splits)

lemma batchStored_entry:
  "ac_accountCache (batchStored t es c) key = Some (x, v) \<Longrightarrow>
   (x = t + ACCOUNT_CACHE_TTL_MS \<and> (key, v) \<in> set es) \<or> ac_accountCache c key = Some (x, v)"
proof (induction es arbitrary: c)
  case (Cons e es)
  then show ?case
    using Cons.IH [of "case e of (k, u) \<Rightarrow> cacheSet k (t + ACCOUNT_CACHE_TTL_MS) u c"]
    by (cases e) (auto simp: batchStored_def cacheSet_def split: if_splits)
qed (simp add: batchStored_def)

lemma readInvariant_step:
  assumes "readInvariant s" "readStep s s'"
  shows "readInvariant s'"
  using assms(2)
proof (cases rule: readStep.cases)
  case (tick d)
  then show ?thesis using assms(1) by (fastforce simp: readInvariant_def)
next
  case (call key)
  then have "key \<notin> ac_inflightReads (rs_caches s)"
    by (auto simp: readDecision_def split: option.splits if_splits)
  then show ?thesis using assms(1) call by (simp add: readInvariant_def readStarted_def)
next
  case (answer key v)
  then show ?thesis
    using assms(1) by (auto simp: readInvariant_def readSettled_def cacheSet_def Let_def)
next
  case (reject key e)
  then show ?thesis
    using assms(1) by (auto simp: readInvariant_def readSettled_def Let_def)
next
  case (batch es)
  then show ?thesis
    using assms(1) by (auto simp: readInvariant_def image_iff dest!: batchStored_entry)
qed

lemma reachable_readInvariant: "reachableReads s \<Longrightarrow> readInvariant s"
proof (induction rule: reachableReads.induct)
  case (start t)
  show ?case by (simp add: readInvariant_def emptyReads_def)
qed (rule readInvariant_step)

text \<open>C12. In every interleaving of calls, answers, rejections and batch reads, the cache is sound and reads are
  not duplicated: a read answered from memory returns what the network reported for that key less than
  five seconds before; a call waits only on a request that is really open; and a new request is opened
  only when none is open for its key, so there is at most one per key at any time.\<close>

theorem account_cache_invariant:
  assumes "reachableReads s"
  shows "distinct (rs_open s) \<and> set (rs_open s) = ac_inflightReads (rs_caches s) \<and>
    (case readDecision (rs_time s) key (rs_caches s) of
       Cached v \<Rightarrow> \<exists>t. (t, key, v) \<in> set (rs_log s) \<and> t \<le> rs_time s \<and> rs_time s < t + 5000
     | Pending \<Rightarrow> key \<in> set (rs_open s)
     | Request \<Rightarrow> key \<notin> set (rs_open s))"
proof -
  have inv: "readInvariant s" using assms by (rule reachable_readInvariant)
  show ?thesis
  proof (cases "readDecision (rs_time s) key (rs_caches s)")
    case (Cached v)
    then obtain x where x: "ac_accountCache (rs_caches s) key = Some (x, v)" "rs_time s < x"
      by (auto simp: readDecision_def split: option.splits if_splits)
    then have log: "(x - ACCOUNT_CACHE_TTL_MS, key, v) \<in> set (rs_log s)" using inv by (simp add: readInvariant_def)
    then have "x - ACCOUNT_CACHE_TTL_MS \<le> rs_time s" using inv by (fastforce simp: readInvariant_def)
    with log x(2) show ?thesis
      using inv by (auto simp: Cached readInvariant_def ACCOUNT_CACHE_TTL_MS_def intro!: exI [of _ "x - 5000"])
  qed (use inv in \<open>auto simp: readInvariant_def readDecision_def split: option.splits if_splits\<close>)
qed

theorem account_cache_invariant_witness:
  "\<exists>s t. reachableReads s \<and> rs_time s = 4000 \<and> readDecision (rs_time s) (js ''ab'') (rs_caches s) = Cached None \<and>
     (t, js ''ab'', None) \<in> set (rs_log s) \<and> 4000 < t + 5000"
proof -
  let ?s1 = "emptyReads 0\<lparr>rs_caches := readStarted (js ''ab'') (rs_caches (emptyReads 0)), rs_open := [js ''ab'']\<rparr>"
  let ?s2 = "?s1\<lparr>rs_caches := readSettled 0 (js ''ab'') (Inr None) (rs_caches ?s1), rs_open := [], rs_log := [(0, js ''ab'', None)]\<rparr>"
  let ?s3 = "?s2\<lparr>rs_time := 4000\<rparr>"
  have "reachableReads ?s1"
    using step [OF start [of 0] call [of "emptyReads 0" "js ''ab''"]] by (simp add: emptyReads_def readDecision_def)
  from step [OF this answer [of "js ''ab''" ?s1 None]] have "reachableReads ?s2"
    by (simp add: emptyReads_def)
  from step [OF this tick [of 4000 ?s2]] have r: "reachableReads ?s3" by (simp add: emptyReads_def)
  have d: "readDecision 4000 (js ''ab'') (rs_caches ?s3) = Cached None"
    by (simp add: readDecision_def readSettled_def cacheSet_def ACCOUNT_CACHE_TTL_MS_def)
  have tm: "rs_time ?s3 = 4000" by simp
  obtain t where "(t, js ''ab'', None) \<in> set (rs_log ?s3)" "4000 < t + 5000"
    using account_cache_invariant [OF r, of "js ''ab''"] unfolding tm d by auto
  with r d tm show ?thesis by (intro exI [of _ ?s3] exI [of _ t] conjI) simp_all
qed

end
