(* ===== verification/Borsh.thy ===== *)
theory Borsh
  imports Ans_Types
begin

text \<open>
  The Borsh codec classes: \<^verbatim>\<open>codec/writer.ts\<close> and \<^verbatim>\<open>codec/reader.ts\<close>. A writer is its array of
  chunks, a reader its buffer and offset; each method maps the object to its next state and may
  throw. On top of them stands the interface \<open>message_codec\<close>: a writer and a reader of one message
  agree, a truncated message ends in the end-of-buffer error, and decoding a whole buffer inverts
  encoding. It is proved once and used for every account type and for the instructions.
\<close>

section \<open>BorshWriter (codec/writer.ts)\<close>

record BorshWriter =
  chunks :: bytes

type_synonym writer = "BorshWriter \<Rightarrow> js_error + BorshWriter"

definition newWriter :: BorshWriter where
  "newWriter = \<lparr>chunks = []\<rparr>"

definition push :: "bytes \<Rightarrow> writer" where
  "push bs w = Inr (w\<lparr>chunks := chunks w @ bs\<rparr>)"

text \<open>\<open>value & 0xff\<close> and its shifted forms, on any integer.\<close>

definition lowByte :: "int \<Rightarrow> u8" where
  "lowByte v = of_int v"

definition w_u8 :: "int \<Rightarrow> writer" where
  "w_u8 v = push [lowByte v]"

definition w_bool :: "bool \<Rightarrow> writer" where
  "w_bool b = w_u8 (if b then 1 else 0)"

definition w_u16 :: "int \<Rightarrow> writer" where
  "w_u16 v = push [lowByte v, lowByte (v div 2 ^ 8)]"

definition w_u32 :: "int \<Rightarrow> writer" where
  "w_u32 v = push [lowByte v, lowByte (v div 2 ^ 8), lowByte (v div 2 ^ 16), lowByte (v div 2 ^ 24)]"

text \<open>The eight iterations of the loop: the low byte of \<open>v\<close>, then \<open>v >>= 8\<close>.\<close>

fun leBytes :: "nat \<Rightarrow> int \<Rightarrow> bytes" where
  "leBytes 0 v = []"
| "leBytes (Suc n) v = lowByte v # leBytes n (v div 2 ^ 8)"

definition w_u64 :: "int \<Rightarrow> writer" where
  "w_u64 v = push (leBytes 8 v)"

definition w_bytes :: "bytes \<Rightarrow> writer" where
  "w_bytes bs = push bs"

definition w_pubkey :: "bytes \<Rightarrow> writer" where
  "w_pubkey bs w = guardR (length bs \<noteq> 32) (PlainError (js ''pubkey must be 32 bytes'')) (w_bytes bs w)"

text \<open>A fluent chain \<open>writer.a().b()\<dots>\<close> runs its methods in order.\<close>

fun chain :: "writer list \<Rightarrow> writer" where
  "chain [] w = Inr w"
| "chain (f # fs) w = bindR (f w) (chain fs)"

declare chain.simps [simp del]

definition w_string :: "js_string \<Rightarrow> writer" where
  "w_string s = (let encoded = textEncode s in chain [w_u32 (int (length encoded)), w_bytes encoded])"

definition finishWriter :: "writer \<Rightarrow> js_error + bytes" where
  "finishWriter f = bindR (f newWriter) (\<lambda>w. Inr (chunks w))"

section \<open>BorshReader (codec/reader.ts)\<close>

record BorshReader =
  rdata :: bytes
  offset :: nat

type_synonym 'a reader = "BorshReader \<Rightarrow> js_error + ('a \<times> BorshReader)"

definition newReader :: "bytes \<Rightarrow> BorshReader" where
  "newReader d = \<lparr>rdata = d, offset = 0\<rparr>"

definition remaining :: "BorshReader \<Rightarrow> int" where
  "remaining r = int (length (rdata r)) - int (offset r)"

definition trailingError :: js_error where
  "trailingError = AnsError CodecError (js ''trailing bytes after decode'')"

definition eofError :: js_error where
  "eofError = AnsError CodecError (js ''unexpected end of buffer'')"

definition r_finish :: "unit reader" where
  "r_finish r = guardR (offset r \<noteq> length (rdata r)) trailingError (Inr ((), r))"

text \<open>\<open>this.require(n)\<close>, then the \<open>n\<close> bytes from the offset, which it advances.\<close>

definition takeBytes :: "nat \<Rightarrow> bytes reader" where
  "takeBytes n r =
     guardR (offset r + n > length (rdata r)) eofError
       (Inr (take n (drop (offset r) (rdata r)), r\<lparr>offset := offset r + n\<rparr>))"

definition retP :: "'a \<Rightarrow> 'a reader" where
  "retP a r = Inr (a, r)"

definition throwP :: "js_error \<Rightarrow> 'a reader" where
  "throwP e r = Inl e"

definition bindP :: "'a reader \<Rightarrow> ('a \<Rightarrow> 'b reader) \<Rightarrow> 'b reader" where
  "bindP m k r = bindR (m r) (\<lambda>(a, r'). k a r')"

lemma bindP_Inr: "bindP m k r = Inr x \<longleftrightarrow> (\<exists>a r'. m r = Inr (a, r') \<and> k a r' = Inr x)"
  by (auto simp: bindP_def result_iffs)

lemma takeBytes_Inr:
  "takeBytes n r = Inr (bs, r') \<longleftrightarrow>
   offset r + n \<le> length (rdata r) \<and> bs = take n (drop (offset r) (rdata r)) \<and> r' = r\<lparr>offset := offset r + n\<rparr>"
  by (auto simp: takeBytes_def result_iffs)

text \<open>The little-endian value of a byte sequence.\<close>

fun leValue :: "bytes \<Rightarrow> int" where
  "leValue [] = 0"
| "leValue (b # bs) = uint b + 2 ^ 8 * leValue bs"

definition r_u8 :: "int reader" where
  "r_u8 = bindP (takeBytes 1) (\<lambda>bs. retP (leValue bs))"

definition r_bool :: "bool reader" where
  "r_bool = bindP r_u8 (\<lambda>v. retP (v \<noteq> 0))"

definition r_u16 :: "int reader" where
  "r_u16 = bindP (takeBytes 2) (\<lambda>bs. retP (leValue bs))"

definition r_u32 :: "int reader" where
  "r_u32 = bindP (takeBytes 4) (\<lambda>bs. retP (leValue bs))"

definition r_u64 :: "int reader" where
  "r_u64 = bindP (takeBytes 8) (\<lambda>bs. retP (leValue bs))"

definition r_bytes :: "nat \<Rightarrow> bytes reader" where
  "r_bytes n = takeBytes n"

definition r_pubkey :: "bytes reader" where
  "r_pubkey = r_bytes 32"

definition r_string :: "js_string reader" where
  "r_string = bindP r_u32 (\<lambda>n. bindP (r_bytes (nat n)) (\<lambda>bs. retP (textDecode bs)))"

text \<open>\<open>n\<close> rounds of a counting loop that pushes what \<open>m\<close> reads.\<close>

fun replicateP :: "nat \<Rightarrow> 'a reader \<Rightarrow> 'a list reader" where
  "replicateP 0 m = retP []"
| "replicateP (Suc n) m = bindP m (\<lambda>a. bindP (replicateP n m) (\<lambda>as. retP (a # as)))"

text \<open>\<open>new BorshReader(data)\<close>, the reads, \<open>reader.finish()\<close>, return.\<close>

definition decodeWith :: "'a reader \<Rightarrow> bytes \<Rightarrow> js_error + 'a" where
  "decodeWith m d =
     bindR (m (newReader d)) (\<lambda>(a, r). bindR (r_finish r) (\<lambda>_. Inr a))"

section \<open>Writers and readers that agree\<close>

text \<open>A reader that stands after \<open>pre\<close> in the buffer \<open>pre @ xs\<close>.\<close>

definition readerAt :: "bytes \<Rightarrow> bytes \<Rightarrow> BorshReader" where
  "readerAt pre xs = \<lparr>rdata = pre @ xs, offset = length pre\<rparr>"

definition writes :: "writer \<Rightarrow> bytes \<Rightarrow> bool" where
  "writes w xs \<longleftrightarrow> (\<forall>v. w v = Inr (v\<lparr>chunks := chunks v @ xs\<rparr>))"

definition reads :: "'a reader \<Rightarrow> bytes \<Rightarrow> 'a \<Rightarrow> bool" where
  "reads r xs a \<longleftrightarrow> (\<forall>pre rest. r (readerAt pre (xs @ rest)) = Inr (a, readerAt (pre @ xs) rest))"

definition starves :: "'a reader \<Rightarrow> bytes \<Rightarrow> bool" where
  "starves r xs \<longleftrightarrow> (\<forall>pre p. strict_prefix p xs \<longrightarrow> r (readerAt pre p) = Inl eofError)"

text \<open>\<open>w\<close> writes bytes that \<open>r\<close> reads back as \<open>a\<close>, and \<open>r\<close> runs out of input on every proper
  prefix of them.\<close>

definition codes :: "writer \<Rightarrow> 'a reader \<Rightarrow> 'a \<Rightarrow> bool" where
  "codes w r a \<longleftrightarrow> (\<exists>xs. writes w xs \<and> reads r xs a \<and> starves r xs)"

lemma writes_push [simp]: "writes (push xs) xs"
  by (simp add: writes_def push_def)

lemma writes_nil [simp]: "writes (chain []) []"
  by (simp add: writes_def chain.simps)

lemma writes_cons: "writes w xs \<Longrightarrow> writes (chain ws) ys \<Longrightarrow> writes (chain (w # ws)) (xs @ ys)"
  by (simp add: writes_def chain.simps)

lemma reads_ret [simp]: "reads (retP a) [] a"
  by (simp add: reads_def retP_def)

lemma reads_bind: "reads r xs a \<Longrightarrow> reads (k a) ys b \<Longrightarrow> reads (bindP r k) (xs @ ys) b"
  by (simp add: reads_def bindP_def)

lemma starves_bind:
  assumes "starves r xs" "reads r xs a" "starves (k a) ys"
  shows "starves (bindP r k) (xs @ ys)"
  unfolding starves_def
proof (intro allI impI)
  fix pre p
  assume "strict_prefix p (xs @ ys)"
  then show "bindP r k (readerAt pre p) = Inl eofError"
    using assms
    by (cases rule: strict_prefix_appendE) (auto simp: starves_def reads_def bindP_def)
qed

lemma codes_nil [codec_intros]: "codes (chain []) (retP a) a"
  unfolding codes_def by (rule exI [of _ "[]"]) (simp add: starves_def)

lemma codes_cons [codec_intros]:
  assumes "codes w r a" "codes (chain ws) (k a) b"
  shows "codes (chain (w # ws)) (bindP r k) b"
  using assms unfolding codes_def by (blast intro: writes_cons reads_bind starves_bind)

lemma codes_ret:
  assumes "codes w r a" "k a = retP b"
  shows "codes w (bindP r k) b"
proof -
  from assms(1) obtain xs where xs: "writes w xs" "reads r xs a" "starves r xs"
    by (auto simp: codes_def)
  have "reads (bindP r k) (xs @ []) b"
    using xs(2) by (rule reads_bind) (simp add: assms(2))
  moreover have "starves (bindP r k) (xs @ [])"
    using xs(3,2) by (rule starves_bind) (simp add: starves_def)
  ultimately show ?thesis using xs(1) by (auto simp: codes_def)
qed

lemma codes_map: "codes w r a \<Longrightarrow> codes w (bindP r (\<lambda>x. retP (f x))) (f a)"
  by (rule codes_ret) simp_all

section \<open>Fields\<close>

lemma codes_take: "length xs = n \<Longrightarrow> codes (push xs) (takeBytes n) xs"
  unfolding codes_def
  by (rule exI [of _ xs])
    (auto simp: reads_def starves_def takeBytes_def readerAt_def dest: strict_prefix_length_less)

lemma length_leBytes [simp]: "length (leBytes n v) = n"
  by (induction n arbitrary: v) auto

lemma leValue_leBytes: "leValue (leBytes n v) = v mod 2 ^ (8 * n)"
proof (induction n arbitrary: v)
  case (Suc n)
  have "uint (lowByte v) = v mod 256"
    by (simp add: lowByte_def uint_word_of_int)
  moreover have "v mod (256 * 2 ^ (8 * n)) = 256 * (v div 256 mod 2 ^ (8 * n)) + v mod 256"
    by (rule zmod_zmult2_eq) simp
  ultimately show ?case
    by (simp add: Suc.IH power_add)
qed simp

text \<open>Writing a value and writing its residue at the width give the same bytes.\<close>

lemma leBytes_mod: "leBytes n (v mod 2 ^ (8 * n)) = leBytes n v"
proof (induction n arbitrary: v)
  case (Suc n)
  have split: "v mod (256 * 2 ^ (8 * n)) = 256 * (v div 256 mod 2 ^ (8 * n)) + v mod 256"
    by (rule zmod_zmult2_eq) simp
  have "lowByte (v mod (256 * 2 ^ (8 * n))) = lowByte v"
    unfolding lowByte_def by (rule word_of_int_eq_iff [THEN iffD2]) (simp add: take_bit_eq_mod mod_mod_cancel)
  moreover have "v mod (256 * 2 ^ (8 * n)) div 256 = v div 256 mod 2 ^ (8 * n)"
    unfolding split by simp
  ultimately show ?case by (simp add: power_add Suc.IH)
qed simp

lemma leBytes_unfold:
  "w_u8 v = push (leBytes 1 v)" "w_u16 v = push (leBytes 2 v)" "w_u32 v = push (leBytes 4 v)"
  using zdiv_zmult2_eq [of 256 v 256] zdiv_zmult2_eq [of 256 v 65536]
  by (simp_all add: w_u8_def w_u16_def w_u32_def eval_nat_numeral)

lemma codes_int: "codes (push (leBytes n v)) (bindP (takeBytes n) (\<lambda>bs. retP (leValue bs))) (v mod 2 ^ (8 * n))"
  using codes_map [OF codes_take [of "leBytes n v" n], of leValue] by (simp add: leValue_leBytes)

text \<open>Each integer field wraps around at its width.\<close>

lemma codes_u8_wrap: "codes (w_u8 v) r_u8 (v mod 2 ^ 8)"
  using codes_int [of 1 v] by (simp add: leBytes_unfold r_u8_def)

lemma codes_u16_wrap: "codes (w_u16 v) r_u16 (v mod 2 ^ 16)"
  using codes_int [of 2 v] by (simp add: leBytes_unfold r_u16_def)

lemma codes_u32_wrap: "codes (w_u32 v) r_u32 (v mod 2 ^ 32)"
  using codes_int [of 4 v] by (simp add: leBytes_unfold r_u32_def)

lemma codes_u64_wrap: "codes (w_u64 v) r_u64 (v mod 2 ^ 64)"
  using codes_int [of 8 v] by (simp add: w_u64_def r_u64_def)

abbreviation fitsU16 :: "int \<Rightarrow> bool" where "fitsU16 v \<equiv> 0 \<le> v \<and> v < 2 ^ 16"
abbreviation fitsU32 :: "int \<Rightarrow> bool" where "fitsU32 v \<equiv> 0 \<le> v \<and> v < 2 ^ 32"
abbreviation fitsU64 :: "int \<Rightarrow> bool" where "fitsU64 v \<equiv> 0 \<le> v \<and> v < 2 ^ 64"

lemma codes_u8 [codec_intros]: "0 \<le> v \<Longrightarrow> v < 2 ^ 8 \<Longrightarrow> codes (w_u8 v) r_u8 v"
  using codes_u8_wrap [of v] by simp

lemma codes_u16 [codec_intros]: "0 \<le> v \<Longrightarrow> v < 2 ^ 16 \<Longrightarrow> codes (w_u16 v) r_u16 v"
  using codes_u16_wrap [of v] by simp

lemma codes_u32 [codec_intros]: "0 \<le> v \<Longrightarrow> v < 2 ^ 32 \<Longrightarrow> codes (w_u32 v) r_u32 v"
  using codes_u32_wrap [of v] by simp

lemma codes_u64 [codec_intros]: "0 \<le> v \<Longrightarrow> v < 2 ^ 64 \<Longrightarrow> codes (w_u64 v) r_u64 v"
  using codes_u64_wrap [of v] by simp

lemma codes_bool [codec_intros]: "codes (w_bool b) r_bool b"
  using codes_map [OF codes_u8_wrap [of "if b then 1 else 0"], of "\<lambda>v. v \<noteq> 0"]
  by (simp add: w_bool_def r_bool_def split: if_splits)

lemma codes_bytes [codec_intros]: "length xs = n \<Longrightarrow> codes (w_bytes xs) (r_bytes n) xs"
  using codes_take [of xs n] by (simp add: w_bytes_def r_bytes_def)

lemma codes_pubkey [codec_intros]: "length xs = 32 \<Longrightarrow> codes (w_pubkey xs) r_pubkey xs"
proof -
  assume "length xs = 32"
  then have "w_pubkey xs = w_bytes xs" by (simp add: w_pubkey_def fun_eq_iff)
  with \<open>length xs = 32\<close> show ?thesis
    using codes_bytes [of xs 32] by (simp add: r_pubkey_def)
qed

definition encodableText :: "js_string \<Rightarrow> bool" where
  "encodableText s \<longleftrightarrow> decodable s \<and> length (textEncode s) < 2 ^ 32"

lemma codes_string [codec_intros]: "encodableText s \<Longrightarrow> codes (w_string s) r_string s"
proof -
  assume s: "encodableText s"
  have "codes (chain [w_u32 (int (length (textEncode s))), w_bytes (textEncode s)]) r_string (textDecode (textEncode s))"
    unfolding r_string_def
    using s by (simp add: encodableText_def) (rule codec_intros | simp)+
  with s show ?thesis
    by (simp add: w_string_def Let_def encodableText_def textDecode_textEncode)
qed

lemma codes_replicate:
  "list_all (\<lambda>a. codes (put a) m a) as \<Longrightarrow> codes (chain (map put as)) (replicateP (length as) m) as"
proof (induction as)
  case Nil
  show ?case using codes_nil [of "[]"] by (simp)
next
  case (Cons a as)
  then have "codes (put a) m a" and tail: "codes (chain (map put as)) (replicateP (length as) m) as" by auto
  then show ?case
    using codes_cons [where k = "\<lambda>x. bindP (replicateP (length as) m) (\<lambda>as. retP (x # as))"]
      codes_map [OF tail, of "\<lambda>as. a # as"]
    by simp
qed

section \<open>Whole messages\<close>

text \<open>
  The contract of a message format: on the values \<open>ok\<close> describes, \<open>encode\<close> is a writer run to its
  end and \<open>decode\<close> a reader run on the whole buffer, and the two agree.
\<close>

locale message_codec =
  fixes encode :: "'a \<Rightarrow> js_error + bytes"
    and decode :: "bytes \<Rightarrow> js_error + 'a"
    and ok :: "'a \<Rightarrow> bool"
  assumes agree: "ok a \<Longrightarrow> \<exists>w r. encode a = finishWriter w \<and> decode = decodeWith r \<and> codes w r a"
begin

lemma message:
  assumes "ok a"
  obtains xs r where "encode a = Inr xs" "decode = decodeWith r" "reads r xs a" "starves r xs"
proof -
  from agree [OF assms] obtain w r xs where
    *: "encode a = finishWriter w" "decode = decodeWith r" "writes w xs" "reads r xs a" "starves r xs"
    by (auto simp: codes_def)
  then have "encode a = Inr xs" by (simp add: finishWriter_def newWriter_def writes_def)
  with * that show ?thesis by blast
qed

lemma decodeWith_at: "decodeWith r d = bindR (r (readerAt [] d)) (\<lambda>(a, s). bindR (r_finish s) (\<lambda>_. Inr a))"
  by (simp add: decodeWith_def newReader_def readerAt_def)

lemma roundtrip:
  assumes "ok a"
  shows "\<exists>xs. encode a = Inr xs \<and> decode xs = Inr a"
proof -
  obtain xs r where *: "encode a = Inr xs" "decode = decodeWith r" "reads r xs a" "starves r xs"
    using message [OF assms] .
  have "r (readerAt [] (xs @ [])) = Inr (a, readerAt ([] @ xs) [])" using *(3) unfolding reads_def by blast
  then have "decode xs = Inr a"
    by (simp add: *(2) decodeWith_at r_finish_def readerAt_def)
  with *(1) show ?thesis by blast
qed

lemma trailing:
  assumes "ok a" "encode a = Inr xs" "ys \<noteq> []"
  shows "decode (xs @ ys) = Inl trailingError"
proof -
  obtain r where *: "decode = decodeWith r" "reads r xs a"
    using message [OF assms(1)] assms(2) by (metis sum.inject(2))
  have "r (readerAt [] (xs @ ys)) = Inr (a, readerAt ([] @ xs) ys)" using *(2) unfolding reads_def by blast
  with assms(3) show ?thesis
    by (simp add: *(1) decodeWith_at r_finish_def readerAt_def)
qed

lemma truncated:
  assumes "ok a" "encode a = Inr xs" "strict_prefix p xs"
  shows "decode p = Inl eofError"
proof -
  obtain r where *: "decode = decodeWith r" "starves r xs"
    using message [OF assms(1)] assms(2) by (metis sum.inject(2))
  then have "r (readerAt [] p) = Inl eofError" using assms(3) by (simp add: starves_def)
  then show ?thesis by (simp add: *(1) decodeWith_at)
qed

lemma encode_inj: "ok a \<Longrightarrow> ok b \<Longrightarrow> encode a = encode b \<Longrightarrow> a = b"
  using roundtrip [of a] roundtrip [of b] by auto

text \<open>No encoding is a proper prefix of another.\<close>

lemma prefix_free:
  assumes "ok a" "ok b" "encode a = Inr xs" "encode b = Inr ys" "prefix xs ys"
  shows "a = b"
proof -
  have "\<not> strict_prefix xs ys"
    using truncated [OF assms(2,4)] roundtrip [OF assms(1)] assms(3) by auto
  then have "xs = ys" using assms(5) by (simp add: strict_prefix_def)
  with assms encode_inj show ?thesis by metis
qed

text \<open>All of it at once: the encoding decodes to the value, a proper prefix of it is refused as
  truncated, and an extension of it is refused for its trailing bytes.\<close>

lemma exact:
  assumes "ok a"
  shows "\<exists>bs. encode a = Inr bs \<and> decode bs = Inr a
    \<and> (\<forall>p. strict_prefix p bs \<longrightarrow> decode p = Inl eofError)
    \<and> (\<forall>ys. ys \<noteq> [] \<longrightarrow> decode (bs @ ys) = Inl trailingError)"
  using roundtrip [OF assms] truncated [OF assms] trailing [OF assms] by blast

end

end
