(* ===== verification/State_Codec.thy ===== *)
theory State_Codec
  imports Borsh Hex
begin

text \<open>
  The account codecs: \<^verbatim>\<open>codec/state.ts\<close>. Every \<open>encode\<close> function is a chain of writer calls and
  every \<open>decode\<close> function a sequence of reader calls, in the source's order. Each account type has
  the predicate of the values its on-chain layout can hold, and an interpretation of the interface
  \<open>message_codec\<close>.
\<close>

section \<open>Enumerations and headers\<close>

definition BITCOIN_NETWORKS :: "BitcoinNetwork list" where
  "BITCOIN_NETWORKS = [Mainnet, Testnet, Signet, Regtest]"
definition RECORD_TYPES :: "RecordType list" where
  "RECORD_TYPES = [ArchOwnerT, BitcoinTaprootT, TokenAtaT, TextT]"
definition QUOTE_CURRENCIES :: "QuoteCurrency list" where
  "QUOTE_CURRENCIES = [Arch, Btc]"

text \<open>\<open>TABLE[reader.u8()]\<close> and the \<open>CodecError\<close> thrown when it is \<open>undefined\<close>.\<close>

definition r_tag :: "'a list \<Rightarrow> js_string \<Rightarrow> 'a reader" where
  "r_tag table msg = bindP r_u8 (\<lambda>i. case js_at table (nat i) of
     None \<Rightarrow> throwP (AnsError CodecError msg) | Some x \<Rightarrow> retP x)"

definition encodeHeader :: "AccountHeader \<Rightarrow> writer" where
  "encodeHeader h = chain [w_bytes (ah_discriminator h), w_bool (ah_initialized h), w_u16 (ah_stateVersion h)]"

definition decodeHeader :: "AccountHeader reader" where
  "decodeHeader =
     bindP (r_bytes 8) (\<lambda>d. bindP r_bool (\<lambda>i. bindP r_u16 (\<lambda>v.
     retP \<lparr>ah_discriminator = d, ah_initialized = i, ah_stateVersion = v\<rparr>)))"

definition validateHeader :: "AccountHeader \<Rightarrow> bytes \<Rightarrow> js_error + unit" where
  "validateHeader h disc =
     guardR (\<not> bytesEqual (ah_discriminator h) disc) (ansError InvalidDiscriminator)
    (guardR (\<not> ah_initialized h \<or> ah_stateVersion h \<noteq> STATE_VERSION) (ansError UnsupportedAccountVersion)
    (Inr ()))"

definition initializedHeader :: "bytes \<Rightarrow> AccountHeader" where
  "initializedHeader disc = \<lparr>ah_discriminator = disc, ah_initialized = True, ah_stateVersion = STATE_VERSION\<rparr>"

definition encodeBitcoinNetwork :: "BitcoinNetwork \<Rightarrow> writer" where
  "encodeBitcoinNetwork n = w_u8 (indexOf BITCOIN_NETWORKS n)"
definition decodeBitcoinNetwork :: "BitcoinNetwork reader" where
  "decodeBitcoinNetwork = r_tag BITCOIN_NETWORKS (js ''invalid bitcoin network'')"

definition encodeRecordType :: "RecordType \<Rightarrow> writer" where
  "encodeRecordType t = w_u8 (indexOf RECORD_TYPES t)"
definition decodeRecordType :: "RecordType reader" where
  "decodeRecordType = r_tag RECORD_TYPES (js ''invalid record type'')"

section \<open>Record values\<close>

fun encodeRecordValue :: "RecordValue \<Rightarrow> writer" where
  "encodeRecordValue (ArchOwner owner) = chain [w_u8 0, w_pubkey owner]"
| "encodeRecordValue (BitcoinTaproot wp) = chain [w_u8 1, w_pubkey wp]"
| "encodeRecordValue (TokenAta tokenId ata) = chain [w_u8 2, w_pubkey tokenId, w_pubkey ata]"
| "encodeRecordValue (Text key val) = chain [w_u8 3, w_string key, w_string val]"

definition decodeRecordValue :: "RecordValue reader" where
  "decodeRecordValue = bindP r_u8 (\<lambda>kind.
     if kind = 0 then bindP r_pubkey (\<lambda>owner. retP (ArchOwner owner))
     else if kind = 1 then bindP r_pubkey (\<lambda>wp. retP (BitcoinTaproot wp))
     else if kind = 2 then bindP r_pubkey (\<lambda>tokenId. bindP r_pubkey (\<lambda>ata. retP (TokenAta tokenId ata)))
     else if kind = 3 then bindP r_string (\<lambda>key. bindP r_string (\<lambda>val. retP (Text key val)))
     else throwP (AnsError CodecError (js ''invalid record value'')))"

section \<open>Accounts\<close>

definition encodeTokenProgram :: "TokenProgramConfig \<Rightarrow> writer" where
  "encodeTokenProgram p = chain [w_pubkey (tp_tokenProgramId p), w_pubkey (tp_associatedTokenProgramId p)]"

definition decodeTokenProgram :: "TokenProgramConfig reader" where
  "decodeTokenProgram = bindP r_pubkey (\<lambda>t. bindP r_pubkey (\<lambda>a.
     retP \<lparr>tp_tokenProgramId = t, tp_associatedTokenProgramId = a\<rparr>))"

definition writeRegistryConfig :: "RegistryConfig \<Rightarrow> writer" where
  "writeRegistryConfig c = chain [
     encodeHeader (rc_header c),
     w_u16 (rc_programVersion c), w_u32 (rc_networkId c), w_string (rc_namespace c),
     w_pubkey (rc_namespaceAuthority c),
     w_u64 (rc_gracePeriodSlots c), w_u64 (rc_minRegistrationSlots c), w_u64 (rc_maxRegistrationSlots c),
     encodeBitcoinNetwork (rc_bitcoinNetwork c),
     w_u32 (int (length (rc_tokenPrograms c))),
     chain (map encodeTokenProgram (rc_tokenPrograms c)),
     w_bool (rc_paused c), w_bool (rc_mainnetEnabled c)]"

definition encodeRegistryConfig :: "RegistryConfig \<Rightarrow> js_error + bytes" where
  "encodeRegistryConfig c = finishWriter (writeRegistryConfig c)"

definition readRegistryConfig :: "RegistryConfig reader" where
  "readRegistryConfig =
     bindP decodeHeader (\<lambda>header. bindP r_u16 (\<lambda>programVersion. bindP r_u32 (\<lambda>networkId.
     bindP r_string (\<lambda>ns. bindP r_pubkey (\<lambda>authority. bindP r_u64 (\<lambda>grace.
     bindP r_u64 (\<lambda>minSlots. bindP r_u64 (\<lambda>maxSlots. bindP decodeBitcoinNetwork (\<lambda>network.
     bindP r_u32 (\<lambda>count. bindP (replicateP (nat count) decodeTokenProgram) (\<lambda>programs.
     bindP r_bool (\<lambda>paused. bindP r_bool (\<lambda>mainnetEnabled.
     retP \<lparr>rc_header = header, rc_programVersion = programVersion, rc_networkId = networkId,
       rc_namespace = ns, rc_namespaceAuthority = authority, rc_gracePeriodSlots = grace,
       rc_minRegistrationSlots = minSlots, rc_maxRegistrationSlots = maxSlots,
       rc_bitcoinNetwork = network, rc_tokenPrograms = programs, rc_paused = paused,
       rc_mainnetEnabled = mainnetEnabled\<rparr>)))))))))))))"

definition decodeRegistryConfig :: "bytes \<Rightarrow> js_error + RegistryConfig" where
  "decodeRegistryConfig = decodeWith readRegistryConfig"

definition writeNameAccount :: "NameAccount \<Rightarrow> writer" where
  "writeNameAccount n = chain [
     encodeHeader (na_header n),
     w_pubkey (na_nameHash n), w_string (na_canonicalLabel n), w_pubkey (na_owner n),
     w_u64 (na_registeredAtSlot n), w_u64 (na_expiresAtSlot n), w_u64 (na_recordEpoch n),
     w_u64 (na_primaryBindingNonce n)]"

definition encodeNameAccount :: "NameAccount \<Rightarrow> js_error + bytes" where
  "encodeNameAccount n = finishWriter (writeNameAccount n)"

definition readNameAccount :: "NameAccount reader" where
  "readNameAccount =
     bindP decodeHeader (\<lambda>header. bindP r_pubkey (\<lambda>hash. bindP r_string (\<lambda>label.
     bindP r_pubkey (\<lambda>owner. bindP r_u64 (\<lambda>registeredAt. bindP r_u64 (\<lambda>expiresAt.
     bindP r_u64 (\<lambda>epoch. bindP r_u64 (\<lambda>nonce.
     retP \<lparr>na_header = header, na_nameHash = hash, na_canonicalLabel = label, na_owner = owner,
       na_registeredAtSlot = registeredAt, na_expiresAtSlot = expiresAt, na_recordEpoch = epoch,
       na_primaryBindingNonce = nonce\<rparr>))))))))"

definition decodeNameAccount :: "bytes \<Rightarrow> js_error + NameAccount" where
  "decodeNameAccount = decodeWith readNameAccount"

definition writeRecordAccount :: "RecordAccount \<Rightarrow> writer" where
  "writeRecordAccount r = chain [
     encodeHeader (ra_header r), w_pubkey (ra_nameHash r), encodeRecordType (ra_recordType r),
     w_pubkey (ra_ownerSnapshot r), w_u64 (ra_recordEpoch r), w_u64 (ra_revision r),
     encodeRecordValue (ra_value r), w_u64 (ra_updatedAtSlot r)]"

definition encodeRecordAccount :: "RecordAccount \<Rightarrow> js_error + bytes" where
  "encodeRecordAccount r = finishWriter (writeRecordAccount r)"

definition readRecordAccount :: "RecordAccount reader" where
  "readRecordAccount =
     bindP decodeHeader (\<lambda>header. bindP r_pubkey (\<lambda>hash. bindP decodeRecordType (\<lambda>rtype.
     bindP r_pubkey (\<lambda>owner. bindP r_u64 (\<lambda>epoch. bindP r_u64 (\<lambda>revision.
     bindP decodeRecordValue (\<lambda>val. bindP r_u64 (\<lambda>updatedAt.
     retP \<lparr>ra_header = header, ra_nameHash = hash, ra_recordType = rtype, ra_ownerSnapshot = owner,
       ra_recordEpoch = epoch, ra_revision = revision, ra_value = val,
       ra_updatedAtSlot = updatedAt\<rparr>))))))))"

definition decodeRecordAccount :: "bytes \<Rightarrow> js_error + RecordAccount" where
  "decodeRecordAccount = decodeWith readRecordAccount"

definition writeReverseAccount :: "ReverseAccount \<Rightarrow> writer" where
  "writeReverseAccount r = chain [
     encodeHeader (rv_header r), w_pubkey (rv_owner r), w_pubkey (rv_primaryNameHash r),
     w_u64 (rv_bindingNonce r), w_u64 (rv_updatedAtSlot r)]"

definition encodeReverseAccount :: "ReverseAccount \<Rightarrow> js_error + bytes" where
  "encodeReverseAccount r = finishWriter (writeReverseAccount r)"

definition readReverseAccount :: "ReverseAccount reader" where
  "readReverseAccount =
     bindP decodeHeader (\<lambda>header. bindP r_pubkey (\<lambda>owner. bindP r_pubkey (\<lambda>hash.
     bindP r_u64 (\<lambda>nonce. bindP r_u64 (\<lambda>updatedAt.
     retP \<lparr>rv_header = header, rv_owner = owner, rv_primaryNameHash = hash, rv_bindingNonce = nonce,
       rv_updatedAtSlot = updatedAt\<rparr>)))))"

definition decodeReverseAccount :: "bytes \<Rightarrow> js_error + ReverseAccount" where
  "decodeReverseAccount = decodeWith readReverseAccount"

definition writeListingAccount :: "ListingAccount \<Rightarrow> writer" where
  "writeListingAccount l = chain [
     encodeHeader (la_header l), w_pubkey (la_nameHash l), w_pubkey (la_seller l),
     w_u8 (indexOf QUOTE_CURRENCIES (la_currency l)), w_u64 (la_price l), w_u64 (la_createdAtSlot l),
     w_bool (la_active l)]"

definition encodeListingAccount :: "ListingAccount \<Rightarrow> js_error + bytes" where
  "encodeListingAccount l = finishWriter (writeListingAccount l)"

definition readListingAccount :: "ListingAccount reader" where
  "readListingAccount =
     bindP decodeHeader (\<lambda>header. bindP r_pubkey (\<lambda>hash. bindP r_pubkey (\<lambda>seller.
     bindP (r_tag QUOTE_CURRENCIES (js ''invalid quote currency'')) (\<lambda>currency.
     bindP r_u64 (\<lambda>price. bindP r_u64 (\<lambda>createdAt. bindP r_bool (\<lambda>active.
     retP \<lparr>la_header = header, la_nameHash = hash, la_seller = seller, la_currency = currency,
       la_price = price, la_createdAtSlot = createdAt, la_active = active\<rparr>)))))))"

definition decodeListingAccount :: "bytes \<Rightarrow> js_error + ListingAccount" where
  "decodeListingAccount = decodeWith readListingAccount"

definition writeOfferAccount :: "OfferAccount \<Rightarrow> writer" where
  "writeOfferAccount q = chain [
     encodeHeader (oa_header q), w_pubkey (oa_nameHash q), w_pubkey (oa_buyer q),
     w_u8 (indexOf QUOTE_CURRENCIES (oa_currency q)), w_u64 (oa_price q), w_u64 (oa_createdAtSlot q),
     w_bool (oa_active q)]"

definition encodeOfferAccount :: "OfferAccount \<Rightarrow> js_error + bytes" where
  "encodeOfferAccount q = finishWriter (writeOfferAccount q)"

definition readOfferAccount :: "OfferAccount reader" where
  "readOfferAccount =
     bindP decodeHeader (\<lambda>header. bindP r_pubkey (\<lambda>hash. bindP r_pubkey (\<lambda>buyer.
     bindP (r_tag QUOTE_CURRENCIES (js ''invalid quote currency'')) (\<lambda>currency.
     bindP r_u64 (\<lambda>price. bindP r_u64 (\<lambda>createdAt. bindP r_bool (\<lambda>active.
     retP \<lparr>oa_header = header, oa_nameHash = hash, oa_buyer = buyer, oa_currency = currency,
       oa_price = price, oa_createdAtSlot = createdAt, oa_active = active\<rparr>)))))))"

definition decodeOfferAccount :: "bytes \<Rightarrow> js_error + OfferAccount" where
  "decodeOfferAccount = decodeWith readOfferAccount"

section \<open>The values a layout can hold\<close>

definition okHeader :: "AccountHeader \<Rightarrow> bool" where
  "okHeader h \<longleftrightarrow> length (ah_discriminator h) = 8 \<and> fitsU16 (ah_stateVersion h)"

fun okRecordValue :: "RecordValue \<Rightarrow> bool" where
  "okRecordValue (ArchOwner owner) = (length owner = 32)"
| "okRecordValue (BitcoinTaproot wp) = (length wp = 32)"
| "okRecordValue (TokenAta tokenId ata) = (length tokenId = 32 \<and> length ata = 32)"
| "okRecordValue (Text key val) = (encodableText key \<and> encodableText val)"

definition okTokenProgram :: "TokenProgramConfig \<Rightarrow> bool" where
  "okTokenProgram p \<longleftrightarrow> length (tp_tokenProgramId p) = 32 \<and> length (tp_associatedTokenProgramId p) = 32"

definition okRegistryConfig :: "RegistryConfig \<Rightarrow> bool" where
  "okRegistryConfig c \<longleftrightarrow> okHeader (rc_header c) \<and> fitsU16 (rc_programVersion c) \<and> fitsU32 (rc_networkId c)
     \<and> encodableText (rc_namespace c) \<and> length (rc_namespaceAuthority c) = 32
     \<and> fitsU64 (rc_gracePeriodSlots c) \<and> fitsU64 (rc_minRegistrationSlots c) \<and> fitsU64 (rc_maxRegistrationSlots c)
     \<and> list_all okTokenProgram (rc_tokenPrograms c) \<and> length (rc_tokenPrograms c) < 2 ^ 32"

definition okNameAccount :: "NameAccount \<Rightarrow> bool" where
  "okNameAccount n \<longleftrightarrow> okHeader (na_header n) \<and> length (na_nameHash n) = 32 \<and> encodableText (na_canonicalLabel n)
     \<and> length (na_owner n) = 32 \<and> fitsU64 (na_registeredAtSlot n) \<and> fitsU64 (na_expiresAtSlot n)
     \<and> fitsU64 (na_recordEpoch n) \<and> fitsU64 (na_primaryBindingNonce n)"

definition okRecordAccount :: "RecordAccount \<Rightarrow> bool" where
  "okRecordAccount r \<longleftrightarrow> okHeader (ra_header r) \<and> length (ra_nameHash r) = 32 \<and> length (ra_ownerSnapshot r) = 32
     \<and> fitsU64 (ra_recordEpoch r) \<and> fitsU64 (ra_revision r) \<and> okRecordValue (ra_value r)
     \<and> fitsU64 (ra_updatedAtSlot r)"

definition okReverseAccount :: "ReverseAccount \<Rightarrow> bool" where
  "okReverseAccount r \<longleftrightarrow> okHeader (rv_header r) \<and> length (rv_owner r) = 32 \<and> length (rv_primaryNameHash r) = 32
     \<and> fitsU64 (rv_bindingNonce r) \<and> fitsU64 (rv_updatedAtSlot r)"

definition okListingAccount :: "ListingAccount \<Rightarrow> bool" where
  "okListingAccount l \<longleftrightarrow> okHeader (la_header l) \<and> length (la_nameHash l) = 32 \<and> length (la_seller l) = 32
     \<and> fitsU64 (la_price l) \<and> fitsU64 (la_createdAtSlot l)"

definition okOfferAccount :: "OfferAccount \<Rightarrow> bool" where
  "okOfferAccount q \<longleftrightarrow> okHeader (oa_header q) \<and> length (oa_nameHash q) = 32 \<and> length (oa_buyer q) = 32
     \<and> fitsU64 (oa_price q) \<and> fitsU64 (oa_createdAtSlot q)"

lemmas ok_account_defs = okRegistryConfig_def okNameAccount_def okRecordAccount_def okReverseAccount_def
  okListingAccount_def okOfferAccount_def

section \<open>The codecs agree\<close>

lemma codes_eq: "codes w r a \<Longrightarrow> a = b \<Longrightarrow> codes w r b"
  by simp

lemma codes_tag:
  assumes "x \<in> set table" "length table < 256"
  shows "codes (w_u8 (indexOf table x)) (r_tag table msg) x"
proof -
  let ?k = "\<lambda>i. case js_at table (nat i) of None \<Rightarrow> throwP (AnsError CodecError msg) | Some y \<Rightarrow> retP y"
  have ix: "0 \<le> indexOf table x" "js_at table (nat (indexOf table x)) = Some x"
    using indexOf_js_at [OF assms(1)] by auto
  have "indexOf table x < 256" using indexOf_bounds [of table x] assms(2) by linarith
  with ix have "codes (w_u8 (indexOf table x)) r_u8 (indexOf table x)"
    by (intro codes_u8) simp_all
  then have "codes (w_u8 (indexOf table x)) (bindP r_u8 ?k) x"
    by (rule codes_ret) (simp add: ix)
  then show ?thesis by (simp add: r_tag_def)
qed

lemma codes_bitcoinNetwork [codec_intros]: "codes (encodeBitcoinNetwork n) decodeBitcoinNetwork n"
  unfolding encodeBitcoinNetwork_def decodeBitcoinNetwork_def
  by (rule codes_tag) (cases n; simp add: BITCOIN_NETWORKS_def)+

lemma codes_recordType [codec_intros]: "codes (encodeRecordType t) decodeRecordType t"
  unfolding encodeRecordType_def decodeRecordType_def
  by (rule codes_tag) (cases t; simp add: RECORD_TYPES_def)+

lemma codes_quoteCurrency [codec_intros]:
  "codes (w_u8 (indexOf QUOTE_CURRENCIES c)) (r_tag QUOTE_CURRENCIES msg) c"
  by (rule codes_tag) (cases c; simp add: QUOTE_CURRENCIES_def)+

lemma codes_header [codec_intros]: "okHeader h \<Longrightarrow> codes (encodeHeader h) decodeHeader h"
  unfolding encodeHeader_def decodeHeader_def
  by (rule codes_eq, (rule codec_intros | simp add: okHeader_def)+)

lemma codes_recordValue [codec_intros]: "okRecordValue v \<Longrightarrow> codes (encodeRecordValue v) decodeRecordValue v"
  unfolding decodeRecordValue_def
  by (cases v) (simp, rule codec_intros, (rule codec_intros | simp)+)+

lemma codes_tokenProgram: "okTokenProgram p \<Longrightarrow> codes (encodeTokenProgram p) decodeTokenProgram p"
  unfolding encodeTokenProgram_def decodeTokenProgram_def
  by (rule codes_eq, (rule codec_intros | simp add: okTokenProgram_def)+)

lemma codes_tokenPrograms [codec_intros]:
  "list_all okTokenProgram ps \<Longrightarrow> n = length ps \<Longrightarrow>
   codes (chain (map encodeTokenProgram ps)) (replicateP n decodeTokenProgram) ps"
  by (simp add: codes_replicate list_all_iff codes_tokenProgram)

text \<open>The writers and readers of the six account types.\<close>

lemma codes_registryConfig: "okRegistryConfig c \<Longrightarrow> codes (writeRegistryConfig c) readRegistryConfig c"
  unfolding writeRegistryConfig_def readRegistryConfig_def
  by (rule codes_eq, (rule codec_intros | simp add: okRegistryConfig_def)+)

lemma codes_nameAccount: "okNameAccount n \<Longrightarrow> codes (writeNameAccount n) readNameAccount n"
  unfolding writeNameAccount_def readNameAccount_def
  by (rule codes_eq, (rule codec_intros | simp add: okNameAccount_def)+)

lemma codes_recordAccount: "okRecordAccount r \<Longrightarrow> codes (writeRecordAccount r) readRecordAccount r"
  unfolding writeRecordAccount_def readRecordAccount_def
  by (rule codes_eq, (rule codec_intros | simp add: okRecordAccount_def)+)

lemma codes_reverseAccount: "okReverseAccount r \<Longrightarrow> codes (writeReverseAccount r) readReverseAccount r"
  unfolding writeReverseAccount_def readReverseAccount_def
  by (rule codes_eq, (rule codec_intros | simp add: okReverseAccount_def)+)

lemma codes_listingAccount: "okListingAccount l \<Longrightarrow> codes (writeListingAccount l) readListingAccount l"
  unfolding writeListingAccount_def readListingAccount_def
  by (rule codes_eq, (rule codec_intros | simp add: okListingAccount_def)+)

lemma codes_offerAccount: "okOfferAccount q \<Longrightarrow> codes (writeOfferAccount q) readOfferAccount q"
  unfolding writeOfferAccount_def readOfferAccount_def
  by (rule codes_eq, (rule codec_intros | simp add: okOfferAccount_def)+)

interpretation config_codec: message_codec encodeRegistryConfig decodeRegistryConfig okRegistryConfig
  by unfold_locales (use codes_registryConfig in \<open>auto simp: encodeRegistryConfig_def decodeRegistryConfig_def\<close>)

interpretation name_codec: message_codec encodeNameAccount decodeNameAccount okNameAccount
  by unfold_locales (use codes_nameAccount in \<open>auto simp: encodeNameAccount_def decodeNameAccount_def\<close>)

interpretation record_codec: message_codec encodeRecordAccount decodeRecordAccount okRecordAccount
  by unfold_locales (use codes_recordAccount in \<open>auto simp: encodeRecordAccount_def decodeRecordAccount_def\<close>)

interpretation reverse_codec: message_codec encodeReverseAccount decodeReverseAccount okReverseAccount
  by unfold_locales (use codes_reverseAccount in \<open>auto simp: encodeReverseAccount_def decodeReverseAccount_def\<close>)

interpretation listing_codec: message_codec encodeListingAccount decodeListingAccount okListingAccount
  by unfold_locales (use codes_listingAccount in \<open>auto simp: encodeListingAccount_def decodeListingAccount_def\<close>)

interpretation offer_codec: message_codec encodeOfferAccount decodeOfferAccount okOfferAccount
  by unfold_locales (use codes_offerAccount in \<open>auto simp: encodeOfferAccount_def decodeOfferAccount_def\<close>)

section \<open>Headers\<close>

lemma validateHeader_ok_iff:
  "validateHeader h disc = Inr () \<longleftrightarrow> ah_discriminator h = disc \<and> ah_initialized h \<and> ah_stateVersion h = STATE_VERSION"
  by (auto simp: validateHeader_def guardR_def)

lemma validateHeader_initializedHeader [simp]: "validateHeader (initializedHeader disc) disc = Inr ()"
  by (simp add: validateHeader_ok_iff initializedHeader_def)

lemma validateHeader_ok: "validateHeader h disc = Inr u \<longleftrightarrow> h = initializedHeader disc"
  by (cases h) (auto simp: validateHeader_def guardR_def initializedHeader_def)

lemma okHeader_initializedHeader: "length disc = 8 \<Longrightarrow> okHeader (initializedHeader disc)"
  by (simp add: okHeader_def initializedHeader_def STATE_VERSION_def)

section \<open>Where the fields of an account lie\<close>

lemma decodeHeader_position:
  assumes "decodeHeader r = Inr (h, r')"
  shows "ah_discriminator h = take 8 (drop (offset r) (rdata r)) \<and> rdata r' = rdata r \<and> offset r' = offset r + 11"
  using assms
  by (auto simp: decodeHeader_def bindP_Inr r_bytes_def r_bool_def r_u8_def r_u16_def takeBytes_Inr retP_def)

lemma decoded_name_position:
  "decodeNameAccount d = Inr n \<Longrightarrow> take 8 d = ah_discriminator (na_header n)"
  by (auto simp: decodeNameAccount_def decodeWith_def result_iffs readNameAccount_def bindP_Inr retP_def newReader_def
      dest!: decodeHeader_position)

lemma decoded_offer_position:
  "decodeOfferAccount d = Inr q \<Longrightarrow> take 8 d = ah_discriminator (oa_header q) \<and> take 32 (drop 11 d) = oa_nameHash q"
  by (auto simp: decodeOfferAccount_def decodeWith_def result_iffs readOfferAccount_def bindP_Inr retP_def newReader_def
      r_pubkey_def r_bytes_def takeBytes_Inr dest!: decodeHeader_position)

lemma decoded_listing_position:
  "decodeListingAccount d = Inr l \<Longrightarrow> take 8 d = ah_discriminator (la_header l)"
  by (auto simp: decodeListingAccount_def decodeWith_def result_iffs readListingAccount_def bindP_Inr retP_def newReader_def
      dest!: decodeHeader_position)

section \<open>Properties\<close>

definition sampleName :: NameAccount where
  "sampleName = \<lparr>na_header = initializedHeader NAME_ACCOUNT_DISCRIMINATOR, na_nameHash = replicate 32 7,
     na_canonicalLabel = js ''alice'', na_owner = replicate 32 9, na_registeredAtSlot = 100,
     na_expiresAtSlot = 1000, na_recordEpoch = 3, na_primaryBindingNonce = 2\<rparr>"

definition sampleConfig :: RegistryConfig where
  "sampleConfig = \<lparr>rc_header = initializedHeader REGISTRY_CONFIG_DISCRIMINATOR, rc_programVersion = 1,
     rc_networkId = 2, rc_namespace = js ''arch'', rc_namespaceAuthority = replicate 32 5,
     rc_gracePeriodSlots = 10, rc_minRegistrationSlots = 20, rc_maxRegistrationSlots = 30,
     rc_bitcoinNetwork = Testnet,
     rc_tokenPrograms = [\<lparr>tp_tokenProgramId = TOKEN_PROGRAM_ID, tp_associatedTokenProgramId = ASSOCIATED_TOKEN_PROGRAM_ID\<rparr>],
     rc_paused = False, rc_mainnetEnabled = False\<rparr>"

definition sampleRecord :: RecordAccount where
  "sampleRecord = \<lparr>ra_header = initializedHeader RECORD_ACCOUNT_DISCRIMINATOR, ra_nameHash = replicate 32 7,
     ra_recordType = ArchOwnerT, ra_ownerSnapshot = replicate 32 9, ra_recordEpoch = 3, ra_revision = 1,
     ra_value = ArchOwner (replicate 32 9), ra_updatedAtSlot = 150\<rparr>"

definition sampleReverse :: ReverseAccount where
  "sampleReverse = \<lparr>rv_header = initializedHeader REVERSE_ACCOUNT_DISCRIMINATOR, rv_owner = replicate 32 9,
     rv_primaryNameHash = replicate 32 7, rv_bindingNonce = 2, rv_updatedAtSlot = 150\<rparr>"

definition sampleListing :: ListingAccount where
  "sampleListing = \<lparr>la_header = initializedHeader LISTING_ACCOUNT_DISCRIMINATOR, la_nameHash = replicate 32 7,
     la_seller = replicate 32 9, la_currency = Btc, la_price = 5000, la_createdAtSlot = 160, la_active = True\<rparr>"

definition sampleOffer :: OfferAccount where
  "sampleOffer = \<lparr>oa_header = initializedHeader OFFER_ACCOUNT_DISCRIMINATOR, oa_nameHash = replicate 32 7,
     oa_buyer = replicate 32 4, oa_currency = Arch, oa_price = 6000, oa_createdAtSlot = 170, oa_active = True\<rparr>"

lemma encodableText_ascii: "isAscii s \<Longrightarrow> length s < 2 ^ 32 \<Longrightarrow> encodableText s"
  by (simp add: encodableText_def decodable_ascii length_textEncode_ascii)

lemma samples_ok:
  "okNameAccount sampleName" "okRegistryConfig sampleConfig" "okRecordAccount sampleRecord"
  "okReverseAccount sampleReverse" "okListingAccount sampleListing" "okOfferAccount sampleOffer"
  by (simp_all add: ok_account_defs sampleName_def sampleConfig_def sampleRecord_def sampleReverse_def
      sampleListing_def sampleOffer_def okHeader_initializedHeader discriminator_bytes okTokenProgram_def
      encodableText_ascii js_def)

text \<open>C17. The name-account codec is exact: every representable account encodes, its bytes decode to the
  same account, every proper prefix of them is refused with the end-of-buffer error, and every
  proper extension with the trailing-bytes error.\<close>

theorem nameAccount_codec_exact:
  assumes "okNameAccount n"
  shows "\<exists>bs. encodeNameAccount n = Inr bs \<and> decodeNameAccount bs = Inr n
    \<and> (\<forall>p. strict_prefix p bs \<longrightarrow> decodeNameAccount p = Inl eofError)
    \<and> (\<forall>ys. ys \<noteq> [] \<longrightarrow> decodeNameAccount (bs @ ys) = Inl trailingError)"
  using assms by (rule name_codec.exact)

theorem nameAccount_codec_exact_witness:
  "\<exists>bs. encodeNameAccount sampleName = Inr bs \<and> decodeNameAccount bs = Inr sampleName"
  using nameAccount_codec_exact [OF samples_ok(1)] by blast

text \<open>The registry-configuration codec is exact, its list of token programs included.\<close>

theorem registryConfig_codec_exact:
  assumes "okRegistryConfig c"
  shows "\<exists>bs. encodeRegistryConfig c = Inr bs \<and> decodeRegistryConfig bs = Inr c
    \<and> (\<forall>p. strict_prefix p bs \<longrightarrow> decodeRegistryConfig p = Inl eofError)
    \<and> (\<forall>ys. ys \<noteq> [] \<longrightarrow> decodeRegistryConfig (bs @ ys) = Inl trailingError)"
  using assms by (rule config_codec.exact)

theorem registryConfig_codec_exact_witness:
  "\<exists>bs. encodeRegistryConfig sampleConfig = Inr bs \<and> decodeRegistryConfig bs = Inr sampleConfig"
  using registryConfig_codec_exact [OF samples_ok(2)] by blast

text \<open>The record-account codec is exact for all four kinds of value.\<close>

theorem recordAccount_codec_exact:
  assumes "okRecordAccount r"
  shows "\<exists>bs. encodeRecordAccount r = Inr bs \<and> decodeRecordAccount bs = Inr r
    \<and> (\<forall>p. strict_prefix p bs \<longrightarrow> decodeRecordAccount p = Inl eofError)
    \<and> (\<forall>ys. ys \<noteq> [] \<longrightarrow> decodeRecordAccount (bs @ ys) = Inl trailingError)"
  using assms by (rule record_codec.exact)

theorem recordAccount_codec_exact_witness:
  "\<exists>bs. encodeRecordAccount sampleRecord = Inr bs \<and> decodeRecordAccount bs = Inr sampleRecord"
  using recordAccount_codec_exact [OF samples_ok(3)] by blast

text \<open>The codecs of reverse, listing and offer accounts round-trip, and no encoding of one account
  of a kind is a prefix of the encoding of another of that kind.\<close>

theorem market_codecs_exact:
  assumes "okReverseAccount r" "okListingAccount l" "okListingAccount l'" "okOfferAccount q" "okOfferAccount q'"
  shows "bindR (encodeReverseAccount r) decodeReverseAccount = Inr r
    \<and> bindR (encodeListingAccount l) decodeListingAccount = Inr l
    \<and> bindR (encodeOfferAccount q) decodeOfferAccount = Inr q
    \<and> (\<forall>bs bs'. encodeListingAccount l = Inr bs \<longrightarrow> encodeListingAccount l' = Inr bs' \<longrightarrow> prefix bs bs' \<longrightarrow> l = l')
    \<and> (\<forall>bs bs'. encodeOfferAccount q = Inr bs \<longrightarrow> encodeOfferAccount q' = Inr bs' \<longrightarrow> prefix bs bs' \<longrightarrow> q = q')"
  using reverse_codec.roundtrip [OF assms(1)] listing_codec.roundtrip [OF assms(2)] offer_codec.roundtrip [OF assms(4)]
    listing_codec.prefix_free [OF assms(2,3)] offer_codec.prefix_free [OF assms(4,5)]
  by auto

theorem market_codecs_exact_witness:
  "bindR (encodeReverseAccount sampleReverse) decodeReverseAccount = Inr sampleReverse
    \<and> bindR (encodeListingAccount sampleListing) decodeListingAccount = Inr sampleListing
    \<and> bindR (encodeOfferAccount sampleOffer) decodeOfferAccount = Inr sampleOffer"
  using market_codecs_exact [OF samples_ok(4,5,5,6,6)] by blast

end
