(* ===== verification/Availability.thy ===== *)
theory Availability
  imports State_Codec
begin

text \<open>
  Classification of raw name-account data: \<^verbatim>\<open>availability.ts\<close>.
\<close>

datatype NameAvailability = Available | Taken | Unavailable

record ClassifiedNameAccount =
  cl_availability :: NameAvailability
  cl_account :: "NameAccount option"

fun allZero :: "bytes \<Rightarrow> bool" where
  "allZero [] = True"
| "allZero (b # bs) = (if b \<noteq> 0 then False else allZero bs)"

definition isBlankAccountData :: "bytes \<Rightarrow> bool" where
  "isBlankAccountData d = (if length d = 0 then True else allZero d)"

definition classifyNameAccountData :: "bytes option \<Rightarrow> ClassifiedNameAccount" where
  "classifyNameAccountData data =
     (case data of
        None \<Rightarrow> \<lparr>cl_availability = Available, cl_account = None\<rparr>
      | Some d \<Rightarrow>
          if isBlankAccountData d then \<lparr>cl_availability = Available, cl_account = None\<rparr>
          else
            (case bindR (decodeNameAccount d) (\<lambda>account.
                    bindR (validateHeader (na_header account) NAME_ACCOUNT_DISCRIMINATOR) (\<lambda>_.
                    Inr account)) of
               Inr account \<Rightarrow> \<lparr>cl_availability = Taken, cl_account = Some account\<rparr>
             | Inl _ \<Rightarrow> \<lparr>cl_availability = Unavailable, cl_account = None\<rparr>))"

definition duplicateRegistrationError :: "js_string \<Rightarrow> js_error" where
  "duplicateRegistrationError n = AnsError NameTaken (n @ js '' is already registered'')"

definition isDuplicateRegistrationErrorMessage :: "(js_string \<Rightarrow> js_string) \<Rightarrow> js_string \<Rightarrow> bool" where
  "isDuplicateRegistrationErrorMessage ucd message =
     (let lower = toLowerCase ucd message in
      includesText lower (js ''accountalreadyinitialized'') \<or>
      includesText lower (js ''already initialized'') \<or>
      includesText lower (js ''already registered'') \<or>
      includesText lower (js ''name taken'') \<or>
      includesText lower (js ''nametaken''))"

lemma allZero_iff: "allZero d \<longleftrightarrow> d = replicate (length d) 0"
  by (induction d) auto

lemma isBlankAccountData_iff: "isBlankAccountData d \<longleftrightarrow> d = replicate (length d) 0"
  by (auto simp: isBlankAccountData_def allZero_iff)

text \<open>An encoding starts with its discriminator, so an initialised account is never blank.\<close>

lemma encodeNameAccount_hd:
  assumes "encodeNameAccount n = Inr d" "ah_discriminator (na_header n) = NAME_ACCOUNT_DISCRIMINATOR"
  shows "d \<noteq> [] \<and> hd d = 65"
proof -
  let ?w = "chain [w_pubkey (na_nameHash n), w_string (na_canonicalLabel n), w_pubkey (na_owner n),
     w_u64 (na_registeredAtSlot n), w_u64 (na_expiresAtSlot n), w_u64 (na_recordEpoch n),
     w_u64 (na_primaryBindingNonce n)]"
  have keeps: "\<exists>ys. chunks w' = chunks w @ ys" if "?w w = Inr w'" for w w'
    using that
    by (auto simp: chain.simps result_iffs w_pubkey_def w_bytes_def w_string_def w_u64_def w_u32_def push_def
        Let_def)
  obtain w' where w': "encodeHeader (na_header n) newWriter = Inr w'" "isOk (?w w')" "Inr d = bindR (?w w') (\<lambda>w. Inr (chunks w))"
    using assms(1)
    by (auto simp: encodeNameAccount_def finishWriter_def writeNameAccount_def chain.simps(2) [of "encodeHeader _"]
        result_iffs isOk_iff)
  moreover have "\<exists>zs. chunks w' = 65 # zs"
    using w'(1) assms(2)
    by (auto simp: encodeHeader_def chain.simps w_bytes_def w_bool_def w_u8_def w_u16_def push_def newWriter_def
        discriminator_bytes)
  ultimately show ?thesis
    using keeps [of w'] by (auto simp: isOk_iff discriminator_bytes)
qed

lemma classify_taken_iff:
  "cl_availability (classifyNameAccountData data) = Taken \<longleftrightarrow>
   (\<exists>d n. data = Some d \<and> \<not> isBlankAccountData d \<and> decodeNameAccount d = Inr n
      \<and> na_header n = initializedHeader NAME_ACCOUNT_DISCRIMINATOR)"
  by (auto simp: classifyNameAccountData_def result_iffs validateHeader_ok split: option.splits sum.splits if_splits
      dest: sym)

section \<open>Properties\<close>

text \<open>Classification of name-account data: missing data and all-zero data are available and nothing
  else is; the encoding of any initialised name account is taken, with exactly that account; data is
  taken exactly when it is not blank and decodes to an initialised name account; in every other case
  it is unavailable, and an account is reported only for taken data.\<close>

theorem classify_exact:
  "(cl_availability (classifyNameAccountData data) = Available \<longleftrightarrow>
      data = None \<or> (\<exists>k. data = Some (replicate k 0)))
   \<and> (okNameAccount n \<longrightarrow> na_header n = initializedHeader NAME_ACCOUNT_DISCRIMINATOR \<longrightarrow> encodeNameAccount n = Inr d \<longrightarrow>
      classifyNameAccountData (Some d) = \<lparr>cl_availability = Taken, cl_account = Some n\<rparr>)
   \<and> (cl_account (classifyNameAccountData data) \<noteq> None \<longleftrightarrow> cl_availability (classifyNameAccountData data) = Taken)
   \<and> (cl_availability (classifyNameAccountData data) = Taken \<longleftrightarrow>
      (\<exists>d n. data = Some d \<and> \<not> isBlankAccountData d \<and> decodeNameAccount d = Inr n
        \<and> na_header n = initializedHeader NAME_ACCOUNT_DISCRIMINATOR))"
proof (intro conjI impI)
  show "cl_availability (classifyNameAccountData data) = Available \<longleftrightarrow>
      data = None \<or> (\<exists>k. data = Some (replicate k 0))"
    by (auto simp: classifyNameAccountData_def isBlankAccountData_iff split: option.splits sum.splits)
next
  assume n: "okNameAccount n" "na_header n = initializedHeader NAME_ACCOUNT_DISCRIMINATOR" "encodeNameAccount n = Inr d"
  have "decodeNameAccount d = Inr n" using name_codec.roundtrip [OF n(1)] n(3) by auto
  moreover have "\<not> isBlankAccountData d"
    using encodeNameAccount_hd [OF n(3)] n(2)
    by (cases d) (auto simp: isBlankAccountData_iff initializedHeader_def)
  ultimately show "classifyNameAccountData (Some d) = \<lparr>cl_availability = Taken, cl_account = Some n\<rparr>"
    by (simp add: classifyNameAccountData_def n(2))
next
  show "cl_account (classifyNameAccountData data) \<noteq> None \<longleftrightarrow> cl_availability (classifyNameAccountData data) = Taken"
    by (auto simp: classifyNameAccountData_def split: option.splits sum.splits)
qed (rule classify_taken_iff)

theorem classify_exact_witness:
  "\<exists>d. encodeNameAccount sampleName = Inr d \<and>
     classifyNameAccountData (Some d) = \<lparr>cl_availability = Taken, cl_account = Some sampleName\<rparr>"
proof -
  obtain d where d: "encodeNameAccount sampleName = Inr d"
    using name_codec.roundtrip [OF samples_ok(1)] by blast
  then show ?thesis
    using classify_exact [of None sampleName d] samples_ok(1) by (simp add: sampleName_def)
qed

end
