(* ===== verification/Runner.thy ===== *)
theory Runner
  imports Confirm Arch_Rpc Availability
begin

text \<open>
  Building, signing, sending and confirming one instruction: \<^verbatim>\<open>transactions/builder.ts\<close>,
  \<^verbatim>\<open>wallet/adapter.ts\<close> and \<^verbatim>\<open>transactions/runner.ts\<close>. The message compiler and the signature helper of the
  Arch SDK package are the parameter \<open>arch_sdk\<close>.
\<close>

record arch_sdk =
  sdk_createSanitizedMessage :: "jsval list \<Rightarrow> bytes \<Rightarrow> bytes \<Rightarrow> js_string + jsval"
  sdk_hash :: "jsval \<Rightarrow> bytes"
  sdk_adjustSignature :: "bytes \<Rightarrow> js_error + bytes"

section \<open>buildTransaction (transactions/builder.ts)\<close>

definition sdkInstruction :: "BuiltInstruction \<Rightarrow> jsval" where
  "sdkInstruction ix = Obj
     [(js ''program_id'', Buf (bi_programId ix)),
      (js ''accounts'', Arr (map (\<lambda>account. Obj
         [(js ''pubkey'', Buf (am_pubkey account)), (js ''is_signer'', Bool (am_isSigner account)),
          (js ''is_writable'', Bool (am_isWritable account))]) (bi_accounts ix))),
      (js ''data'', Buf (bi_data ix))]"

definition buildTransaction ::
  "arch_sdk \<Rightarrow> ('w, 'tx) AnsTransport \<Rightarrow> BuiltInstruction list \<Rightarrow> bytes \<Rightarrow> ('w, RuntimeTransaction \<times> js_string) io" where
  "buildTransaction S T instructions feePayer =
     bindIO (getBestBlockHash T) (\<lambda>recentBlockhash.
     case sdk_createSanitizedMessage S (map sdkInstruction instructions) feePayer recentBlockhash of
       Inl text \<Rightarrow> throwIO (PlainError (js ''Failed to compile ANS transaction: '' @ text))
     | Inr message \<Rightarrow>
         (let messageHashHex = textDecode (sdk_hash S message) in
          bindIO (pureIO (normalizeRuntimeTransaction
            (Obj [(js ''version'', num 0), (js ''signatures'', Arr []), (js ''message'', message)]))) (\<lambda>transaction.
          retIO (transaction, messageHashHex))))"

section \<open>makeAnsSigner (wallet/adapter.ts)\<close>

text \<open>The two private copies of \<open>hexToBytes\<close> do not refuse an odd length: the array's length is rounded down.\<close>

definition hexToBytesLoose :: "js_string \<Rightarrow> bytes" where
  "hexToBytesLoose hex = hexPairs (stripHexPrefix hex)"

definition makeAnsSigner :: "arch_sdk \<Rightarrow> (js_string \<Rightarrow> ('w, js_string) io) \<Rightarrow> js_string \<Rightarrow> ('w, js_string) io" where
  "makeAnsSigner S signArchMessageHash challenge =
     bindIO (signArchMessageHash challenge) (\<lambda>signature64Hex.
     let schnorrSig = hexToBytesLoose signature64Hex in
     if length schnorrSig \<noteq> 64
     then throwIO (PlainError (js ''Wallet returned a '' @ decimal (length schnorrSig) @ js ''-byte signature; expected 64 bytes''))
     else bindIO (pureIO (sdk_adjustSignature S schnorrSig)) (\<lambda>adjusted.
       if length adjusted \<noteq> 64
       then throwIO (PlainError (js ''adjustSignature returned '' @ decimal (length adjusted) @ js '' bytes; expected 64''))
       else retIO (bytesToHex adjusted)))"

section \<open>signAndSendInstruction (transactions/runner.ts)\<close>

text \<open>Up to the point where the node has accepted the transaction.\<close>

definition submitInstruction ::
  "arch_sdk \<Rightarrow> ('w, jsval) AnsTransport \<Rightarrow> BuiltInstruction \<Rightarrow> bytes \<Rightarrow> (js_string \<Rightarrow> ('w, js_string) io) \<Rightarrow>
   (js_string \<Rightarrow> ('w, unit) io) option \<Rightarrow> ('w, js_string) io" where
  "submitInstruction S T instruction feePayer signer onSubmitted =
     bindIO (buildTransaction S T [instruction] feePayer) (\<lambda>(transaction, messageHashHex).
     bindIO (signer messageHashHex) (\<lambda>signatureHex.
     let signed = transaction\<lparr>rt_signatures := [map (\<lambda>b. Fin (of_int (uint b))) (hexToBytesLoose signatureHex)]\<rparr> in
     bindIO (sendTransaction T (transactionValue signed)) (\<lambda>txid.
     bindIO (case onSubmitted of Some f \<Rightarrow> f txid | None \<Rightarrow> retIO ()) (\<lambda>_.
     retIO txid))))"

text \<open>The \<open>catch\<close> around the wait.\<close>

definition reportFailure :: "(js_string \<Rightarrow> js_string) \<Rightarrow> js_error \<Rightarrow> js_error" where
  "reportFailure ucd e =
     (if isDuplicateRegistrationErrorMessage ucd (errorMessage e) then duplicateRegistrationError (js ''name'') else e)"

definition signAndSendInstruction ::
  "(js_string \<Rightarrow> js_string) \<Rightarrow> arch_sdk \<Rightarrow> 'w timer \<Rightarrow> ('w, jsval) AnsTransport \<Rightarrow> BuiltInstruction \<Rightarrow> bytes \<Rightarrow>
   (js_string \<Rightarrow> ('w, js_string) io) \<Rightarrow> bool option \<Rightarrow> int option \<Rightarrow> int option \<Rightarrow> ('w, bool) io option \<Rightarrow>
   (js_string \<Rightarrow> ('w, unit) io) option \<Rightarrow> 'w \<Rightarrow> ((js_error + js_string) \<times> 'w) option" where
  "signAndSendInstruction ucd S C T instruction feePayer signer confirm confirmTimeoutMs confirmIntervalMs
     isComplete onSubmitted w =
     (case submitInstruction S T instruction feePayer signer onSubmitted w of
        (Inl e, w') \<Rightarrow> Some (Inl e, w')
      | (Inr txid, w') \<Rightarrow>
          if confirm = Some False then Some (Inr txid, w')
          else map_option (\<lambda>(outcome, w'').
            (case outcome of
               Inr Complete \<Rightarrow> Inr txid
             | Inr (Timeout lastLookupError) \<Rightarrow> Inl (reportFailure ucd (TransactionPendingError txid lastLookupError))
             | Inl e \<Rightarrow> Inl (reportFailure ucd e), w''))
            (waitForTransaction C T txid isComplete confirmTimeoutMs confirmIntervalMs w'))"

section \<open>Signatures\<close>

text \<open>What a signer made from a wallet returns reads back as the 64 bytes that are sent.\<close>

lemma hexToBytesLoose_bytesToHex [simp]: "hexToBytesLoose (bytesToHex bs) = bs"
  by (simp add: hexToBytesLoose_def stripHexPrefix_bytesToHex hexPairs_bytesToHex)

lemma makeAnsSigner_result:
  "makeAnsSigner S sign challenge w = (Inr hex, w') \<Longrightarrow>
   \<exists>sig. hex = bytesToHex sig \<and> length sig = 64 \<and> hexToBytesLoose hex = sig"
  by (auto simp: makeAnsSigner_def bindIO_def Let_def split: prod.splits sum.splits if_splits)

section \<open>What the caller is told\<close>

text \<open>C21. What a caller learns about an accepted transaction. Where the clock advances over the polls and pauses of the
  wait, and once the node has returned a transaction id, the call settles. It returns exactly that id: at once, without
  any sign of success, when the caller asked for no confirmation, and only after the success signal otherwise. It rejects only
  when it has waited, and only with the transaction's own failure or with \<open>TransactionPendingError\<close> for that id, either
  of them rewritten when its message looks like a duplicate registration.\<close>

theorem signAndSend_outcome:
  assumes "submitInstruction S T instruction feePayer signer onSubmitted w = (Inr txid, w1)"
    and "advancingClock C T txid isComplete (case intervalMs of Some i \<Rightarrow> i | None \<Rightarrow> 1000)"
  shows "\<exists>r w'. signAndSendInstruction ucd S C T instruction feePayer signer confirm timeoutMs intervalMs
       isComplete onSubmitted w = Some (r, w') \<and>
     (case r of
        Inr t \<Rightarrow> t = txid \<and> (confirm = Some False \<or> completeSignal T txid isComplete w')
      | Inl e \<Rightarrow> confirm \<noteq> Some False \<and> (\<exists>cause. e = reportFailure ucd cause \<and>
          (failedStatus T txid w' cause \<or> (\<exists>last. cause = TransactionPendingError txid last))))"
proof (cases "confirm = Some False")
  case True
  then show ?thesis using assms(1) by (simp add: signAndSendInstruction_def)
next
  case False
  obtain out w' where wait: "waitForTransaction C T txid isComplete timeoutMs intervalMs w1 = Some (out, w')"
    using waitLoop_returns [OF assms(2)] by (fastforce simp: waitForTransaction_def Let_def)
  then have ends: "\<exists>i d. endsRightly C T txid isComplete i d (out, w')"
    using waitLoop_ends unfolding waitForTransaction_def Let_def by metis
  let ?r = "case out of
      Inr Complete \<Rightarrow> Inr txid
    | Inr (Timeout lastLookupError) \<Rightarrow> Inl (reportFailure ucd (TransactionPendingError txid lastLookupError))
    | Inl e \<Rightarrow> Inl (reportFailure ucd e)"
  have "signAndSendInstruction ucd S C T instruction feePayer signer confirm timeoutMs intervalMs
      isComplete onSubmitted w = Some (?r, w')"
    using False wait assms(1) by (simp add: signAndSendInstruction_def)
  moreover have "case ?r of
        Inr t \<Rightarrow> t = txid \<and> (confirm = Some False \<or> completeSignal T txid isComplete w')
      | Inl e \<Rightarrow> confirm \<noteq> Some False \<and> (\<exists>cause. e = reportFailure ucd cause \<and>
          (failedStatus T txid w' cause \<or> (\<exists>last. cause = TransactionPendingError txid last)))"
    using ends False by (auto simp: endsRightly_def split: sum.splits ConfirmOutcome.splits)
  ultimately show ?thesis by blast
qed

text \<open>An endpoint whose every status lookup is refused, with a transaction id for whatever is sent.\<close>

definition refusingTransport :: "js_string \<Rightarrow> (int, jsval) AnsTransport" where
  "refusingTransport reason = \<lparr>
     readAccountInfo = (\<lambda>a w. (Inr None, w)),
     getMultipleAccounts = None,
     getProgramAccounts = None,
     getCurrentSlot = (\<lambda>w. (Inr 0, w)),
     getBestBlockHash = (\<lambda>w. (Inr [], w)),
     sendTransaction = (\<lambda>tx w. (Inr (js ''7f''), w)),
     getProcessedTransaction = (\<lambda>txid w. (Inl (PlainError reason), w))\<rparr>"

definition plainSdk :: arch_sdk where
  "plainSdk = \<lparr>sdk_createSanitizedMessage = (\<lambda>ixs payer h. Inr (Obj [])), sdk_hash = (\<lambda>m. []),
     sdk_adjustSignature = Inr\<rparr>"

definition sampleInstruction :: BuiltInstruction where
  "sampleInstruction = \<lparr>bi_programId = [], bi_accounts = [], bi_data = [4]\<rparr>"

lemma sample_submit:
  "submitInstruction plainSdk (refusingTransport reason) sampleInstruction [] (\<lambda>_. retIO []) None w = (Inr (js ''7f''), w)"
  by (simp add: submitInstruction_def buildTransaction_def plainSdk_def refusingTransport_def bindIO_def
      normalizeRuntimeTransaction_def normalizeMessage_def optField_def js_def arrayItems_def)

lemma refusing_clock: "advancingClock tickingTimer (refusingTransport reason) txid None 10"
  by (simp add: advancingClock_def tickingTimer_def refusingTransport_def)

theorem signAndSend_outcome_witness:
  "\<exists>r w'. signAndSendInstruction (\<lambda>s. s) plainSdk tickingTimer (refusingTransport (js ''down'')) sampleInstruction []
       (\<lambda>_. retIO []) None (Some 5) (Some 10) None None 0 = Some (r, w') \<and>
     (case r of
        Inr t \<Rightarrow> t = js ''7f'' \<and> completeSignal (refusingTransport (js ''down'')) (js ''7f'') None w'
      | Inl e \<Rightarrow> \<exists>cause. e = reportFailure (\<lambda>s. s) cause \<and>
          (failedStatus (refusingTransport (js ''down'')) (js ''7f'') w' cause \<or>
           (\<exists>last. cause = TransactionPendingError (js ''7f'') last)))"
  using signAndSend_outcome [OF sample_submit, of tickingTimer "js ''down''" None "Some 10" "\<lambda>s. s" None "Some 5" 0]
    refusing_clock by (simp cong: sum.case_cong)

lemma includesText_append: "includesText s p \<Longrightarrow> includesText (q @ s) p"
  by (induction q) auto

lemma isDuplicate_append:
  assumes "isAscii s" "isAscii p" "isDuplicateRegistrationErrorMessage ucd s"
  shows "isDuplicateRegistrationErrorMessage ucd (p @ s)"
  using assms includesText_append [of "map lowerUnit s" _ "map lowerUnit p"]
  unfolding isDuplicateRegistrationErrorMessage_def Let_def toLowerCase_def by auto

text \<open>C35. A pending transaction can be reported as a taken name. When the wait for an accepted transaction
  times out and the last status lookup was refused with a text that looks like a duplicate
  registration, the caller gets \<open>NameTaken\<close>, not \<open>TransactionPendingError\<close>: the \<open>catch\<close> that
  recognises duplicate registrations also sees the pending error, whose message carries the lookup's.\<close>

theorem pending_reported_as_taken:
  assumes "submitInstruction S T instruction feePayer signer onSubmitted w = (Inr txid, w1)"
    and "waitForTransaction C T txid isComplete timeoutMs intervalMs w1 = Some (Inr (Timeout (Some refusal)), w2)"
    and "isAscii txid" "isAscii (errorMessage refusal)"
    and "isDuplicateRegistrationErrorMessage ucd (errorMessage refusal)"
  shows "signAndSendInstruction ucd S C T instruction feePayer signer None timeoutMs intervalMs isComplete onSubmitted w
    = Some (Inl (duplicateRegistrationError (js ''name'')), w2)"
proof -
  have "isDuplicateRegistrationErrorMessage ucd (errorMessage (TransactionPendingError txid (Some refusal)))"
    using isDuplicate_append [OF assms(4) _ assms(5), of "js ''Transaction '' @ txid @
        js '' was submitted but the network has not confirmed it yet'' @ js ''; last status lookup failed: ''"] assms(3)
    by (simp add: js_def)
  then show ?thesis using assms(1,2) by (simp add: signAndSendInstruction_def reportFailure_def)
qed

theorem pending_reported_as_taken_witness:
  "signAndSendInstruction (\<lambda>s. s) plainSdk tickingTimer (refusingTransport (js ''name taken'')) sampleInstruction []
       (\<lambda>_. retIO []) None (Some 5) (Some 10) None None 0 = Some (Inl (duplicateRegistrationError (js ''name'')), 0)"
proof -
  have "waitForTransaction tickingTimer (refusingTransport (js ''name taken'')) (js ''7f'') None (Some 5) (Some 10) 0
      = Some (Inr (Timeout (Some (PlainError (js ''name taken'')))), 0)"
    unfolding waitForTransaction_def by (subst waitLoop.simps)
      (simp add: waitRound_def probe_def lookup_def refusingTransport_def tickingTimer_def)
  moreover have "isDuplicateRegistrationErrorMessage (\<lambda>s. s) (js ''name taken'')"
    by (simp add: isDuplicateRegistrationErrorMessage_def toLowerCase_def lowerUnit_def startsWith_def js_def Let_def)
  ultimately show ?thesis
    by (intro pending_reported_as_taken [OF sample_submit, where refusal = "PlainError (js ''name taken'')"]) (simp_all add: js_def)
qed

end
