(* ===== verification/Explorer_Rest.thy ===== *)
theory Explorer_Rest
  imports Arch_Rpc
begin

text \<open>
  Explorer's read API and the split transport: \<^verbatim>\<open>transport/explorer-rest.ts\<close> and \<^verbatim>\<open>transport/split.ts\<close>. A
  request is retried a bounded number of times with bounded pauses; the loop is total, and the
  theorems bound the requests it sends and the time until the head of its last answer.
\<close>

section \<open>Requests (transport/explorer-rest.ts)\<close>

definition DEFAULT_TIMEOUT_MS :: int where "DEFAULT_TIMEOUT_MS = 10000"

definition DEFAULT_RETRIES :: int where "DEFAULT_RETRIES = 3"

text \<open>The outside: a GET request that is aborted after a time, up to the head of its answer; the read of the body, which
  nothing limits any more; \<open>setTimeout\<close>; and the platform's data.\<close>

record 'w explorer =
  ex_get :: "js_string \<Rightarrow> int \<Rightarrow> ('w, response) io"
  ex_json :: "response \<Rightarrow> ('w, jsval) io"
  ex_sleep :: "int \<Rightarrow> 'w \<Rightarrow> 'w"
  ex_fraction :: "rat \<Rightarrow> js_string"
  ex_lower :: "js_string \<Rightarrow> js_string"

record request_options =
  ro_timeoutMs :: int
  ro_retries :: int

definition joinUrl :: "js_string \<Rightarrow> js_string \<Rightarrow> js_string" where
  "joinUrl baseUrl path =
     rev (dropWhile (\<lambda>u. u = 47) (rev baseUrl)) @ js ''/'' @ dropWhile (\<lambda>u. u = 47) path"

definition retryDelayMs :: "nat \<Rightarrow> response option \<Rightarrow> int" where
  "retryDelayMs attempt response =
     (case Option.bind response rs_retryAfter of
        Some retryAfter \<Rightarrow>
          if numericKey retryAfter then min (int (digitsValue retryAfter) * 1000) 5000
          else min (250 * 2 ^ attempt) 2000
      | None \<Rightarrow> min (250 * 2 ^ attempt) 2000)"

text \<open>The loop. A rejected request (network error, abort) and an answer 429 or 5xx are retried while
  attempts are left; 404 is \<open>null\<close>.\<close>

definition transient :: "response \<Rightarrow> bool" where
  "transient r \<longleftrightarrow> rs_status r = 429 \<or> rs_status r \<ge> 500"

function requestLoop ::
  "'w explorer \<Rightarrow> request_options \<Rightarrow> js_string \<Rightarrow> js_string \<Rightarrow> nat \<Rightarrow> ('w, jsval) io" where
  "requestLoop X opts baseUrl path attempt w =
     (case ex_get X (joinUrl baseUrl path) (ro_timeoutMs opts) w of
        (Inl e, w') \<Rightarrow>
          if int attempt \<ge> ro_retries opts then (Inl e, w')
          else requestLoop X opts baseUrl path (Suc attempt) (ex_sleep X (retryDelayMs attempt None) w')
      | (Inr response, w') \<Rightarrow>
          if rs_status response = 404 then (Inr Null, w')
          else if transient response \<and> int attempt < ro_retries opts
          then requestLoop X opts baseUrl path (Suc attempt) (ex_sleep X (retryDelayMs attempt (Some response)) w')
          else if \<not> responseOk response
          then (Inl (PlainError (js ''Explorer REST HTTP '' @ showInt (rs_status response) @ js '' for '' @ path)), w')
          else ex_json X response w')"
  by pat_completeness auto

termination
  by (relation "measure (\<lambda>(X, opts, baseUrl, path, attempt, w). nat (ro_retries opts - int attempt))") auto

declare requestLoop.simps [simp del]

definition requestJson :: "'w explorer \<Rightarrow> request_options \<Rightarrow> js_string \<Rightarrow> js_string \<Rightarrow> ('w, jsval) io" where
  "requestJson X opts baseUrl path = requestLoop X opts baseUrl path 0"

section \<open>Answers\<close>

definition failedText :: "js_string \<Rightarrow> bool" where
  "failedText s \<longleftrightarrow> matchesFolded s (js ''fail'') \<or> matchesFolded s (js ''error'') \<or> matchesFolded s (js ''rollback'')"

text \<open>\<open>Object.keys(v)[0]\<close> of an object.\<close>

definition firstKey :: "jsval \<Rightarrow> js_string option" where
  "firstKey v =
     (case v of
        Obj fs \<Rightarrow> (case fs of [] \<Rightarrow> None | f # _ \<Rightarrow> Some (fst f))
      | Arr vs \<Rightarrow> (if vs = [] then None else Some (js ''0''))
      | Buf bs \<Rightarrow> (if bs = [] then None else Some (js ''0''))
      | _ \<Rightarrow> None)"

definition isObject :: "jsval \<Rightarrow> bool" where
  "isObject v \<longleftrightarrow> (case v of Obj _ \<Rightarrow> True | Arr _ \<Rightarrow> True | Buf _ \<Rightarrow> True | _ \<Rightarrow> False)"

definition optText :: "js_string option \<Rightarrow> jsval" where
  "optText t = (case t of Some s \<Rightarrow> Str s | None \<Rightarrow> Undefined)"

definition transactionStatus :: "(rat \<Rightarrow> js_string) \<Rightarrow> jsval \<Rightarrow> ProcessedTransaction" where
  "transactionStatus fr body =
     (let raw = optField body (js ''status'') in
      case raw of
        Str s \<Rightarrow>
          (let failed = failedText s in
           \<lparr>pt_status = (if failed then js ''Failed'' else s),
            pt_error = (if failed then Some (showValue fr (orElse (optField body (js ''error''))
                          (orElse (optField body (js ''logs'')) raw))) else None)\<rparr>)
      | _ \<Rightarrow>
          if isObject raw then
            (let type = (case optField raw (js ''type'') of Str s \<Rightarrow> Some s | _ \<Rightarrow> firstKey raw);
                 failed = failedText (case type of Some s \<Rightarrow> s | None \<Rightarrow> []) in
             \<lparr>pt_status = (if failed then js ''Failed'' else case type of Some s \<Rightarrow> s | None \<Rightarrow> js ''Unknown''),
              pt_error = (if failed then Some (showValue fr (orElse (optField raw (js ''error''))
                            (orElse (optField raw (js ''Failed'')) (orElse (optField body (js ''error'')) (optText type)))))
                          else None)\<rparr>)
          else \<lparr>pt_status = js ''Unknown'', pt_error = None\<rparr>)"

section \<open>createExplorerRestTransport (transport/explorer-rest.ts)\<close>

definition requestOptions :: "int option \<Rightarrow> int option \<Rightarrow> request_options" where
  "requestOptions timeoutMs retries =
     \<lparr>ro_timeoutMs = (case timeoutMs of Some t \<Rightarrow> t | None \<Rightarrow> DEFAULT_TIMEOUT_MS),
      ro_retries = (case retries of Some r \<Rightarrow> r | None \<Rightarrow> DEFAULT_RETRIES)\<rparr>"

definition explorerGetCurrentSlot :: "'w explorer \<Rightarrow> request_options \<Rightarrow> js_string \<Rightarrow> ('w, int) io" where
  "explorerGetCurrentSlot X opts baseUrl =
     bindIO (requestJson X opts baseUrl (js ''network/stats'')) (\<lambda>body.
     let v = orElse (optField body (js ''slot_height''))
               (orElse (optField body (js ''latest_block_height'')) (optField body (js ''indexed_height''))) in
     (case v of
        Number _ \<Rightarrow> pureIO (toBigInt (ex_fraction X) v)
      | Str _ \<Rightarrow> pureIO (toBigInt (ex_fraction X) v)
      | _ \<Rightarrow> throwIO (PlainError (js ''Explorer network stats did not include a chain height''))))"

text \<open>\<open>v?.[0]\<close>.\<close>

definition firstItem :: "jsval \<Rightarrow> jsval" where
  "firstItem v = (case v of Arr (x # _) \<Rightarrow> x | Obj _ \<Rightarrow> optField v (js ''0'') | _ \<Rightarrow> Undefined)"

definition explorerGetBestBlockHash :: "'w explorer \<Rightarrow> request_options \<Rightarrow> js_string \<Rightarrow> ('w, bytes) io" where
  "explorerGetBestBlockHash X opts baseUrl =
     bindIO (requestJson X opts baseUrl (js ''blocks?limit=1'')) (\<lambda>body.
     (case optField (firstItem (optField body (js ''blocks''))) (js ''hash'') of
        Str hash \<Rightarrow> pureIO (hexToBytes hash)
      | _ \<Rightarrow> throwIO (PlainError (js ''Explorer blocks response did not include the latest hash''))))"

definition explorerGetProcessedTransaction ::
  "'w explorer \<Rightarrow> request_options \<Rightarrow> js_string \<Rightarrow> js_string \<Rightarrow> ('w, ProcessedTransaction option) io" where
  "explorerGetProcessedTransaction X opts baseUrl txid =
     (let normalized = toLowerCase (ex_lower X) (stripHexPrefix txid) in
      if \<not> isTxid normalized then throwIO (PlainError (js ''Transaction ID must be 32 bytes of hex''))
      else bindIO (requestJson X opts baseUrl (js ''transactions/'' @ normalized)) (\<lambda>body.
        retIO (if truthy body then Some (transactionStatus (ex_fraction X) body) else None)))"

section \<open>createSplitAnsTransport (transport/split.ts)\<close>

text \<open>Both sides of the split live on one network.\<close>

definition createSplitAnsTransport ::
  "'w endpoint \<Rightarrow> 'w explorer \<Rightarrow> js_string \<Rightarrow> js_string \<Rightarrow> request_options \<Rightarrow> ('w rpc_world, jsval) AnsTransport" where
  "createSplitAnsTransport E X rpcUrl explorerUrl opts =
     (let rpc = createArchRpcTransport E rpcUrl in \<lparr>
        readAccountInfo = readAccountInfo rpc,
        getMultipleAccounts = getMultipleAccounts rpc,
        getProgramAccounts = getProgramAccounts rpc,
        getCurrentSlot = onNet (explorerGetCurrentSlot X opts explorerUrl),
        getBestBlockHash = onNet (explorerGetBestBlockHash X opts explorerUrl),
        sendTransaction = sendTransaction rpc,
        getProcessedTransaction = (\<lambda>txid. onNet (explorerGetProcessedTransaction X opts explorerUrl txid))\<rparr>)"

section \<open>Bounds on retrying\<close>

lemma retryDelayMs_bounds: "0 \<le> retryDelayMs attempt r \<and> retryDelayMs attempt r \<le> 5000"
  by (auto simp: retryDelayMs_def min_def split: option.splits)

text \<open>Worlds in which every request counts one and nothing else counts, a request is answered or aborted by its timeout and
  a pause takes the time it is asked for, both up to the lateness of a timer. The time that the read of a body takes
  is not bounded.\<close>

definition metered :: "'w explorer \<Rightarrow> request_options \<Rightarrow> ('w \<Rightarrow> nat) \<Rightarrow> ('w \<Rightarrow> int) \<Rightarrow> int \<Rightarrow> bool" where
  "metered X opts calls clock late \<longleftrightarrow> 0 \<le> late \<and>
     (\<forall>url w. calls (snd (ex_get X url (ro_timeoutMs opts) w)) = Suc (calls w) \<and>
        clock (snd (ex_get X url (ro_timeoutMs opts) w)) \<le> clock w + ro_timeoutMs opts + late) \<and>
     (\<forall>response w. calls (snd (ex_json X response w)) = calls w) \<and>
     (\<forall>d w. calls (ex_sleep X d w) = calls w \<and> clock (ex_sleep X d w) \<le> clock w + d + late)"

text \<open>One round: what the loop does after an attempt.\<close>

lemma requestLoop_round:
  assumes "ex_get X (joinUrl baseUrl path) (ro_timeoutMs opts) w = (r, w')"
  shows "requestLoop X opts baseUrl path attempt w =
    (if int attempt < ro_retries opts \<and> (case r of Inl _ \<Rightarrow> True | Inr s \<Rightarrow> rs_status s \<noteq> 404 \<and> transient s)
     then requestLoop X opts baseUrl path (Suc attempt)
       (ex_sleep X (retryDelayMs attempt (case r of Inl _ \<Rightarrow> None | Inr s \<Rightarrow> Some s)) w')
     else (case r of Inl e \<Rightarrow> (Inl e, w')
           | Inr s \<Rightarrow> if rs_status s = 404 then (Inr Null, w') else if \<not> responseOk s
               then (Inl (PlainError (js ''Explorer REST HTTP '' @ showInt (rs_status s) @ js '' for '' @ path)), w')
               else ex_json X s w'))"
  by (subst requestLoop.simps) (auto simp: assms split: sum.splits)

lemma metered_round:
  assumes "metered X opts calls clock late" "ex_get X url (ro_timeoutMs opts) w = (r, w')"
  shows "calls w' = Suc (calls w)" "clock w' \<le> clock w + ro_timeoutMs opts + late"
    "calls (ex_sleep X d w') = Suc (calls w)" "clock (ex_sleep X d w') \<le> clock w + ro_timeoutMs opts + d + 2 * late"
  using assms snd_conv [of r w'] unfolding metered_def by (metis, metis, metis, smt (verit))

text \<open>Where the loop ends: at the head of an answer, or with the body read that begins there.\<close>

definition endsAt :: "'w explorer \<Rightarrow> js_error + jsval \<Rightarrow> 'w \<Rightarrow> 'w \<Rightarrow> bool" where
  "endsAt X out w' v \<longleftrightarrow> w' = v \<or> (\<exists>response. ex_json X response v = (out, w'))"

lemma requestLoop_bounds:
  assumes "metered X opts calls clock late" "requestLoop X opts baseUrl path attempt w = (out, w')"
    and "0 \<le> ro_timeoutMs opts"
  shows "\<exists>v. endsAt X out w' v \<and> calls w < calls v \<and> calls v \<le> calls w + nat (ro_retries opts - int attempt) + 1 \<and>
    clock v \<le> clock w + (int (nat (ro_retries opts - int attempt)) + 1) * (ro_timeoutMs opts + late)
      + int (nat (ro_retries opts - int attempt)) * (5000 + late)"
  using assms(2)
proof (induction "nat (ro_retries opts - int attempt)" arbitrary: attempt w rule: less_induct)
  case less
  obtain r w1 where get: "ex_get X (joinUrl baseUrl path) (ro_timeoutMs opts) w = (r, w1)" by fastforce
  note m = metered_round [OF assms(1) get]
  have late: "0 \<le> late" using assms(1) by (simp add: metered_def)
  let ?n = "nat (ro_retries opts - int attempt)" and ?t = "ro_timeoutMs opts + late" and ?p = "5000 + late"
  show ?case
  proof (cases "int attempt < ro_retries opts \<and> (case r of Inl _ \<Rightarrow> True | Inr s \<Rightarrow> rs_status s \<noteq> 404 \<and> transient s)")
    case True
    let ?d = "retryDelayMs attempt (case r of Inl _ \<Rightarrow> None | Inr s \<Rightarrow> Some s)"
    let ?m = "nat (ro_retries opts - int (Suc attempt))"
    have n: "?n = Suc ?m" using conjunct1 [OF True] by linarith
    have "requestLoop X opts baseUrl path (Suc attempt) (ex_sleep X ?d w1) = (out, w')"
      using less.prems unfolding requestLoop_round [OF get] if_P [OF True] .
    from less.hyps [OF _ this] n obtain v where v: "endsAt X out w' v" "calls (ex_sleep X ?d w1) < calls v"
      "calls v \<le> calls (ex_sleep X ?d w1) + ?m + 1"
      "clock v \<le> clock (ex_sleep X ?d w1) + (int ?m + 1) * ?t + int ?m * ?p" by auto
    have "?d \<le> 5000" using retryDelayMs_bounds by blast
    then have "clock v \<le> clock w + ?t + ?p + (int ?m + 1) * ?t + int ?m * ?p"
      using v(4) m(4) [of ?d] by linarith
    also have "\<dots> = clock w + (int ?n + 1) * ?t + int ?n * ?p"
      unfolding n by (simp add: algebra_simps)
    finally show ?thesis using v(1-3) m(3) [of ?d] n by (intro exI [of _ v]) simp
  next
    case False
    then have end': "(out, w') = (case r of Inl e \<Rightarrow> (Inl e, w1)
        | Inr s \<Rightarrow> if rs_status s = 404 then (Inr Null, w1) else if \<not> responseOk s
            then (Inl (PlainError (js ''Explorer REST HTTP '' @ showInt (rs_status s) @ js '' for '' @ path)), w1)
            else ex_json X s w1)"
      using less.prems unfolding requestLoop_round [OF get] if_not_P [OF False] by simp
    then have "endsAt X out w' w1" by (auto simp: endsAt_def split: sum.splits if_splits)
    have "clock w1 \<le> clock w + (k + 1) * ?t + k * ?p" if "0 \<le> k" for k
    proof -
      have "1 * ?t \<le> (k + 1) * ?t" "0 \<le> k * ?p" using assms(3) late that by (intro mult_right_mono mult_nonneg_nonneg; simp)+
      then have "?t \<le> (k + 1) * ?t + k * ?p" by simp
      moreover have "clock w1 \<le> clock w + ?t" using m(2) by simp
      ultimately show ?thesis by (metis add.assoc add_left_mono order_trans)
    qed
    from this [of "int ?n"] have "clock w1 \<le> clock w + (int ?n + 1) * ?t + int ?n * ?p" by simp
    with \<open>endsAt X out w' w1\<close> show ?thesis using m(1) by (intro exI [of _ w1]) (simp del: int_nat_eq)
  qed
qed

lemma requestLoop_persistent:
  assumes "metered X opts calls clock late" "\<And>url v. fst (ex_get X url (ro_timeoutMs opts) v) = Inl e"
    and "int attempt \<le> ro_retries opts" "requestLoop X opts baseUrl path attempt w = (out, w')"
  shows "out = Inl e \<and> calls w' = calls w + nat (ro_retries opts - int attempt) + 1"
  using assms(3,4)
proof (induction "nat (ro_retries opts - int attempt)" arbitrary: attempt w rule: less_induct)
  case less
  obtain w1 where get: "ex_get X (joinUrl baseUrl path) (ro_timeoutMs opts) w = (Inl e, w1)"
    using assms(2) by (metis prod.collapse)
  note m = metered_round [OF assms(1) get] and round = requestLoop_round [OF get, of attempt, simplified]
  show ?case
  proof (cases "int attempt < ro_retries opts")
    case True
    then have n: "nat (ro_retries opts - int attempt) = Suc (nat (ro_retries opts - int (Suc attempt)))" by linarith
    then have "nat (ro_retries opts - int (Suc attempt)) < nat (ro_retries opts - int attempt)" by simp
    from less.hyps [OF this] less.prems(2) n m(3) True round show ?thesis by auto
  next
    case False
    then show ?thesis using less.prems m(1) round by auto
  qed
qed

text \<open>C32. Retrying is bounded. A read of the Explorer sends at least one and at most \<open>retries + 1\<close> requests,
  whatever they answer; the head of the last answer is there, or the last request aborted, within the timeouts of the
  requests and five seconds per pause, up to the lateness of the timers; after that there is at most the read of one
  body, which the code sets no limit. A network that rejects every request is tried exactly \<open>retries + 1\<close> times before
  its error is reported.\<close>

theorem requestJson_bounded:
  assumes "metered X opts calls clock late" "0 \<le> ro_timeoutMs opts" "0 \<le> ro_retries opts"
    and "requestJson X opts baseUrl path w = (out, w')"
  shows "(\<exists>v. (w' = v \<or> (\<exists>response. ex_json X response v = (out, w'))) \<and>
      clock v \<le> clock w + (ro_retries opts + 1) * (ro_timeoutMs opts + late) + ro_retries opts * (5000 + late)) \<and>
    calls w < calls w' \<and> int (calls w') \<le> int (calls w) + ro_retries opts + 1 \<and>
    ((\<forall>url v. fst (ex_get X url (ro_timeoutMs opts) v) = Inl e) \<longrightarrow>
       out = Inl e \<and> int (calls w') = int (calls w) + ro_retries opts + 1)"
proof -
  have n: "int (nat (ro_retries opts - int 0)) = ro_retries opts" "int 0 \<le> ro_retries opts" using assms(3) by simp_all
  have loop: "requestLoop X opts baseUrl path 0 w = (out, w')" using assms(4) by (simp add: requestJson_def)
  from requestLoop_bounds [OF assms(1) loop assms(2), unfolded n(1)] obtain v where v: "endsAt X out w' v"
    "calls w < calls v" "calls v \<le> calls w + nat (ro_retries opts - int 0) + 1"
    "clock v \<le> clock w + (ro_retries opts + 1) * (ro_timeoutMs opts + late) + ro_retries opts * (5000 + late)" by blast
  have "calls w' = calls v"
    using v(1) assms(1) unfolding endsAt_def metered_def by (metis snd_conv)
  moreover have p: "(\<forall>url v. fst (ex_get X url (ro_timeoutMs opts) v) = Inl e) \<Longrightarrow>
      out = Inl e \<and> int (calls w') = int (calls w) + ro_retries opts + 1"
    using requestLoop_persistent [OF assms(1) _ n(2) loop, of e] n(1) by fastforce
  moreover have "int (calls v) \<le> int (calls w) + ro_retries opts + 1" using v(3) n(1) by linarith
  ultimately show ?thesis using v(1,2,4) unfolding endsAt_def by metis
qed

text \<open>A network that is down: each request takes 4 ms and is rejected. The world is the number of requests
  and the time.\<close>

definition downExplorer :: "(nat \<times> int) explorer" where
  "downExplorer = \<lparr>ex_get = (\<lambda>url timeout (n, t). (Inl (PlainError (js ''fetch failed'')), (Suc n, t + 4))),
     ex_json = (\<lambda>response w. (rs_json response, w)), ex_sleep = (\<lambda>d (n, t). (n, t + d)), ex_fraction = (\<lambda>_. []),
     ex_lower = (\<lambda>s. s)\<rparr>"

theorem requestJson_bounded_witness:
  "\<exists>t. requestJson downExplorer (requestOptions None None) (js ''/explorer'') (js ''network/stats'') (0, 0) =
     (Inl (PlainError (js ''fetch failed'')), (4, t)) \<and> t \<le> 55000"
proof -
  let ?o = "requestOptions None None" and ?e = "PlainError (js ''fetch failed'')"
  obtain out n t where r: "requestJson downExplorer ?o (js ''/explorer'') (js ''network/stats'') (0, 0) = (out, (n, t))"
    by (metis prod.collapse)
  have "metered downExplorer ?o fst snd 0"
    by (simp add: metered_def downExplorer_def requestOptions_def DEFAULT_TIMEOUT_MS_def split: prod.splits)
  from requestJson_bounded [OF this _ _ r, of ?e] r show ?thesis
    by (auto simp: requestOptions_def DEFAULT_TIMEOUT_MS_def DEFAULT_RETRIES_def downExplorer_def)
qed

end
