(* ===== verification/External.thy ===== *)
theory External
  imports Ans_Types
begin

text \<open>
  The packages the SDK calls and does not contain, as parameters of the model. A value of
  \<open>prims\<close> gives the functions that \<^verbatim>\<open>@noble/hashes\<close>, \<^verbatim>\<open>@saturnbtcio/arch-sdk\<close> and \<^verbatim>\<open>bech32\<close>
  export, and the Unicode part of \<open>toLowerCase\<close>; every definition that uses one takes the record as
  an argument. Nothing is assumed about them here.
\<close>

record prims =
  sha256 :: "bytes \<Rightarrow> bytes"
  findProgramAddress :: "bytes list \<Rightarrow> bytes \<Rightarrow> js_error + bytes \<times> nat"
  bech32m_toWords :: "bytes \<Rightarrow> nat list"
  bech32m_encode :: "js_string \<Rightarrow> nat list \<Rightarrow> js_error + js_string"
  bech32m_decode :: "js_string \<Rightarrow> js_error + js_string \<times> nat list"
  bech32m_fromWords :: "nat list \<Rightarrow> js_error + bytes"
  unicodeLower :: "js_string \<Rightarrow> js_string"

text \<open>A SHA-256 digest has 32 bytes. Collision resistance is only ever asked of the finitely many
  inputs a statement names, as \<open>inj_on (sha256 P) X\<close>.\<close>

definition sha256_width :: "prims \<Rightarrow> bool" where
  "sha256_width P \<longleftrightarrow> (\<forall>x. length (sha256 P x) = 32)"

section \<open>A concrete instance\<close>

text \<open>Total, computable functions of the right types on which the statements of the development can
  be evaluated. They are not the packages' algorithms: the digest is the reversed tail of the input
  at width 32, the address search returns the tail of the seeds at bump 255, and the bech32m
  functions write words as code units after the prefix and a separator.\<close>

definition fold32 :: "bytes \<Rightarrow> bytes" where
  "fold32 bs = take 32 (rev bs @ replicate 32 0)"

definition samplePrims :: prims where
  "samplePrims = \<lparr>
     sha256 = fold32,
     findProgramAddress = (\<lambda>seeds pid. Inr (fold32 (concat seeds), 255)),
     bech32m_toWords = map unat,
     bech32m_encode = (\<lambda>h ws. Inr (h @ 0x31 # map (\<lambda>w. of_nat w) ws)),
     bech32m_decode = (\<lambda>s. Inr (takeWhile (\<lambda>u. u \<noteq> 0x31) s, map unat (tl (dropWhile (\<lambda>u. u \<noteq> 0x31) s)))),
     bech32m_fromWords = (\<lambda>ws. Inr (map of_nat ws)),
     unicodeLower = (\<lambda>s. s)\<rparr>"

lemma samplePrims_width: "sha256_width samplePrims"
  by (auto simp: sha256_width_def samplePrims_def fold32_def)

end
