(* ===== verification/Names.thy ===== *)
theory Names
  imports External
begin

text \<open>
  Names and their hashes: \<^verbatim>\<open>name.ts\<close> and \<^verbatim>\<open>hash.ts\<close>. The label check is compared with the grammar
  of labels, canonicalisation is shown to be a projection onto the storable names that forgets case
  and surrounding white space, and the preimages of the three domain-separated hashes are shown to
  be pairwise different.
\<close>

section \<open>Label validation and canonicalisation (name.ts)\<close>

definition hyphen :: js_string where "hyphen = js ''-''"

definition isLabelByte :: "u8 \<Rightarrow> bool" where
  "isLabelByte b \<longleftrightarrow> (0x61 \<le> b \<and> b \<le> 0x7a) \<or> (0x30 \<le> b \<and> b \<le> 0x39) \<or> b = 0x2d"

definition validateLabel :: "js_string \<Rightarrow> js_error + unit" where
  "validateLabel label =
     guardR (length label < 1 \<or> length label > 63) (ansError InvalidLabelLength)
    (guardR (startsWith label hyphen \<or> endsWith label hyphen \<or> includesText label (js ''--''))
       (ansError InvalidHyphenPlacement)
    (guardR (\<not> list_all isLabelByte (textEncode label)) (ansError InvalidLabelCharacter)
    (Inr ())))"

definition canonicalizeName :: "prims \<Rightarrow> js_string \<Rightarrow> js_error + js_string" where
  "canonicalizeName P input =
     (let normalized = toLowerCase (unicodeLower P) (trim input) in
      guardR (\<not> endsWith normalized ARCH_SUFFIX) (ansError InvalidSuffix)
     (let label = dropEnd (length ARCH_SUFFIX) normalized in
      bindR (validateLabel label) (\<lambda>_. Inr (label @ ARCH_SUFFIX))))"

definition canonicalizeLabel :: "prims \<Rightarrow> js_string \<Rightarrow> js_error + js_string" where
  "canonicalizeLabel P label =
     bindR (canonicalizeName P (trim label @ ARCH_SUFFIX)) (\<lambda>n. Inr (dropEnd (length ARCH_SUFFIX) n))"

section \<open>Hashes (hash.ts)\<close>

definition namespaceHash :: "prims \<Rightarrow> js_string \<Rightarrow> bytes" where
  "namespaceHash P ns = sha256 P (NAMESPACE_DOMAIN @ textEncode ns)"

definition hashName :: "prims \<Rightarrow> js_string \<Rightarrow> bytes" where
  "hashName P n = sha256 P (NAME_HASH_DOMAIN @ textEncode n)"

definition recordKeyHash :: "prims \<Rightarrow> js_string \<Rightarrow> bytes" where
  "recordKeyHash P k = sha256 P (RECORD_KEY_DOMAIN @ textEncode k)"

definition nameHash :: "prims \<Rightarrow> js_string \<Rightarrow> js_error + bytes" where
  "nameHash P input = bindR (canonicalizeName P input) (\<lambda>n. Inr (hashName P n))"

section \<open>The grammar of labels\<close>

definition alnum :: "u16 \<Rightarrow> bool" where
  "alnum u \<longleftrightarrow> (97 \<le> u \<and> u \<le> 122) \<or> (48 \<le> u \<and> u \<le> 57)"

text \<open>Words of letters and digits, joined by single hyphens.\<close>

inductive labelText :: "js_string \<Rightarrow> bool" where
  word: "w \<noteq> [] \<Longrightarrow> list_all alnum w \<Longrightarrow> labelText w"
| more: "w \<noteq> [] \<Longrightarrow> list_all alnum w \<Longrightarrow> labelText s \<Longrightarrow> labelText (w @ 45 # s)"

text \<open>A left-to-right scan; the flag says that a hyphen may not come next.\<close>

fun scan :: "bool \<Rightarrow> js_string \<Rightarrow> bool" where
  "scan f [] = (\<not> f)"
| "scan f (u # s) = (if u = 45 then \<not> f \<and> scan True s else alnum u \<and> scan False s)"

lemma not_alnum_hyphen [simp]: "\<not> alnum 45"
  by (simp add: alnum_def)

lemma labelText_Cons: "labelText s \<Longrightarrow> alnum u \<Longrightarrow> labelText (u # s)"
  by (induction rule: labelText.induct) (auto intro: labelText.intros labelText.more [of "u # _", simplified])

lemma scan_word: "list_all alnum w \<Longrightarrow> scan False (w @ s) = scan False s"
  by (induction w) auto

lemma labelText_scan: "labelText s \<Longrightarrow> scan True s"
proof (induction rule: labelText.induct)
  case (word w)
  then show ?case using scan_word [of "tl w" "[]"] by (cases w) auto
next
  case (more w s)
  then show ?case using scan_word [of "tl w" "45 # s"] by (cases w) auto
qed

lemma scan_labelText:
  "(scan True s \<longrightarrow> labelText s) \<and> (\<forall>u. scan False s \<longrightarrow> alnum u \<longrightarrow> labelText (u # s))"
proof (induction s)
  case Nil
  show ?case using labelText.word [of "[_]"] by simp
next
  case (Cons v s)
  then show ?case
    using labelText.more [of "[_]" s] labelText_Cons by (auto split: if_splits)
qed

lemma labelText_iff_scan: "labelText s \<longleftrightarrow> scan True s"
  using labelText_scan scan_labelText by blast

text \<open>The three hyphen conditions and the character condition, as the scan sees them.\<close>

definition labelUnit :: "u16 \<Rightarrow> bool" where
  "labelUnit u \<longleftrightarrow> alnum u \<or> u = 45"

lemma scan_iff:
  "scan f s \<longleftrightarrow> list_all labelUnit s \<and> \<not> sublist [45, 45] s \<and> \<not> suffix [45] s
     \<and> (f \<longrightarrow> s \<noteq> [] \<and> \<not> prefix [45] s)"
  by (induction s arbitrary: f)
    (auto simp: labelUnit_def sublist_Cons_right suffix_Cons split: if_splits list.splits)

lemma ascii_of_labelUnit: "labelUnit u \<Longrightarrow> u < 128"
  by (auto simp: labelUnit_def alnum_def word_less_nat_alt word_le_nat_alt)

lemma isLabelByte_ucast: "u < 128 \<Longrightarrow> isLabelByte (ucast u) = labelUnit u" for u :: u16
  by (auto simp: isLabelByte_def labelUnit_def alnum_def word_less_nat_alt word_le_nat_alt word_unat_eq_iff
      unsigned_ucast_eq take_bit_nat_eq_self)

lemma isLabelByte_ascii: "isLabelByte b \<Longrightarrow> b < 128"
  by (auto simp: isLabelByte_def word_less_nat_alt word_le_nat_alt)

lemma labelBytes_iff: "list_all isLabelByte (textEncode s) \<longleftrightarrow> list_all labelUnit s"
proof (cases "isAscii s")
  case True
  then show ?thesis
    by (induction s) (simp_all add: textEncode_ascii isLabelByte_ucast)
next
  case False
  then have "\<not> list_all (\<lambda>b. b < 128) (textEncode s)" by (simp add: textEncode_ascii_iff)
  then have "\<not> list_all isLabelByte (textEncode s)" by (metis isLabelByte_ascii list.pred_mono_strong)
  moreover have "\<not> list_all labelUnit s"
    using False ascii_of_labelUnit by (auto simp: isAscii_def list_all_iff)
  ultimately show ?thesis by simp
qed

lemma hyphen_text: "hyphen = [45]" "js ''--'' = [45, 45]"
  by (simp_all add: hyphen_def js_def)

lemma validateLabel_iff: "validateLabel s = Inr u \<longleftrightarrow> labelText s \<and> length s \<le> 63"
proof -
  have "validateLabel s = Inr u \<longleftrightarrow> length s \<le> 63 \<and> scan True s"
    unfolding validateLabel_def result_iffs scan_iff startsWith_iff_prefix endsWith_iff_suffix
      includesText_iff_sublist labelBytes_iff hyphen_text
    by (cases s) auto
  then show ?thesis by (auto simp: labelText_iff_scan)
qed

lemma labelText_units: "labelText s \<Longrightarrow> s \<noteq> [] \<and> list_all labelUnit s"
  using scan_iff [of True s] by (simp add: labelText_iff_scan)

section \<open>Canonical names\<close>

lemma ARCH_SUFFIX_text: "ARCH_SUFFIX = [46, 97, 114, 99, 104]"
  by (simp add: ARCH_SUFFIX_def js_def)

lemma labelUnit_canonical: "labelUnit u \<Longrightarrow> \<not> isSpace u \<and> lowerUnit u = u \<and> u < 128"
  by (auto simp: labelUnit_def alnum_def isSpace_def lowerUnit_def word_less_nat_alt word_le_nat_alt
      word_unat_eq_iff)

text \<open>The storable names: a label of the grammar, of at most 63 characters, and the suffix.\<close>

definition canonicalName :: "js_string \<Rightarrow> bool" where
  "canonicalName n \<longleftrightarrow> (\<exists>label. n = label @ ARCH_SUFFIX \<and> labelText label \<and> length label \<le> 63)"

lemma canonicalName_units:
  assumes "canonicalName n"
  shows "isAscii n \<and> map lowerUnit n = n \<and> trim n = n"
proof -
  from assms obtain l where l: "n = l @ ARCH_SUFFIX" "l \<noteq> []" "list_all labelUnit l"
    by (auto simp: canonicalName_def dest: labelText_units)
  have "isAscii l" "map lowerUnit l = l"
    using l(3) labelUnit_canonical by (induction l) auto
  moreover have "\<not> isSpace (hd l)"
    using l(2,3) labelUnit_canonical by (cases l) auto
  ultimately show ?thesis
    using l by (auto simp: ARCH_SUFFIX_text lowerUnit_def intro!: trim_noop) (simp_all add: isSpace_def)
qed

lemma canonicalizeName_iff:
  "canonicalizeName P s = Inr n \<longleftrightarrow> canonicalName n \<and> toLowerCase (unicodeLower P) (trim s) = n"
  by (auto simp: canonicalizeName_def canonicalName_def Let_def result_iffs validateLabel_iff
      endsWith_iff_suffix suffix_def)

lemma canonicalizeName_canonical: "canonicalName n \<Longrightarrow> canonicalizeName P n = Inr n"
  using canonicalName_units [of n] by (simp add: canonicalizeName_iff toLowerCase_def)

lemma canonicalizeName_idem: "canonicalizeName P s = Inr n \<Longrightarrow> canonicalizeName P n = Inr n"
  by (rule canonicalizeName_canonical) (simp add: canonicalizeName_iff)

text \<open>Canonicalisation reads its input through \<open>trim\<close> and case folding only, errors included.\<close>

lemma canonicalizeName_cong:
  "toLowerCase (unicodeLower P) (trim s) = toLowerCase (unicodeLower P) (trim t) \<Longrightarrow>
   canonicalizeName P s = canonicalizeName P t"
  by (simp add: canonicalizeName_def)

lemma dropWhile_all_append: "list_all P a \<Longrightarrow> dropWhile P (a @ t) = dropWhile P t"
  by (induction a) auto

lemma trim_all_spaces: "list_all isSpace s \<Longrightarrow> trim s = []"
  by (induction s) (auto simp: trim_def)

lemma trim_spaces: "list_all isSpace a \<Longrightarrow> list_all isSpace b \<Longrightarrow> trim (a @ s @ b) = trim s"
proof (cases "list_all isSpace s")
  case True
  then show "list_all isSpace a \<Longrightarrow> list_all isSpace b \<Longrightarrow> ?thesis" by (simp add: trim_all_spaces)
next
  assume ab: "list_all isSpace a" "list_all isSpace b"
  case False
  then have "dropWhile isSpace (s @ b) = dropWhile isSpace s @ b"
    by (auto simp: list_all_iff dropWhile_append1)
  then show ?thesis
    using ab dropWhile_all_append [of isSpace "rev b"] by (simp add: trim_def dropWhile_all_append)
qed

lemma upper_not_space: "65 \<le> u \<Longrightarrow> u \<le> 90 \<Longrightarrow> \<not> isSpace u \<and> \<not> isSpace (u + 32)"
proof -
  assume u: "65 \<le> u" "u \<le> 90"
  then have "unat (u + 32) = unat u + 32" by (simp add: word_le_nat_alt unat_word_ariths)
  with u show ?thesis by (auto simp: isSpace_def word_le_nat_alt word_unat_eq_iff)
qed

lemma isSpace_lowerUnit: "isSpace (lowerUnit u) = isSpace u"
  using upper_not_space [of u] by (simp add: lowerUnit_def)

lemma canonicalizeName_spelling:
  assumes "list_all isSpace a" "list_all isSpace b" "isAscii s" "map lowerUnit s = n" "canonicalName n"
  shows "canonicalizeName P (a @ s @ b) = Inr n"
proof -
  have "trim s = s"
  proof (rule trim_noop)
    have "n \<noteq> []" using assms(5) by (auto simp: canonicalName_def dest: labelText_units)
    moreover have "\<not> isSpace (hd n) \<and> \<not> isSpace (last n)"
      using canonicalName_units [OF assms(5)] trim_ends [of n] \<open>n \<noteq> []\<close> by simp
    ultimately show "s = [] \<or> (\<not> isSpace (hd s) \<and> \<not> isSpace (last s))"
      using assms(4) by (auto simp: hd_map last_map isSpace_lowerUnit)
  qed
  then show ?thesis
    using assms by (simp add: canonicalizeName_iff trim_spaces toLowerCase_def)
qed

lemma canonicalizeLabel_iff:
  "canonicalizeLabel P l = Inr c \<longleftrightarrow> canonicalizeName P (trim l @ ARCH_SUFFIX) = Inr (c @ ARCH_SUFFIX)"
  by (auto simp: canonicalizeLabel_def result_iffs canonicalizeName_iff canonicalName_def)

section \<open>Domain separation of the hashes\<close>

lemma domain_bytes:
  "NAMESPACE_DOMAIN = map ucast (js ''arch-name-service:namespace:v1'' @ [0])"
  "NAME_HASH_DOMAIN = map ucast (js ''arch-name-service:name-hash:v1'' @ [0])"
  "RECORD_KEY_DOMAIN = map ucast (js ''arch-name-service:record-key:v1'' @ [0])"
  unfolding NAMESPACE_DOMAIN_def NAME_HASH_DOMAIN_def RECORD_KEY_DOMAIN_def
  by (rule textEncode_ascii, simp add: js_def)+

lemma textEncode_inj: "decodable s \<Longrightarrow> decodable t \<Longrightarrow> textEncode s = textEncode t \<Longrightarrow> s = t"
  by (metis textDecode_textEncode)

lemma domains_differ:
  "NAMESPACE_DOMAIN @ x \<noteq> NAME_HASH_DOMAIN @ y"
  "NAMESPACE_DOMAIN @ x \<noteq> RECORD_KEY_DOMAIN @ y"
  "NAME_HASH_DOMAIN @ x \<noteq> RECORD_KEY_DOMAIN @ y"
  by (simp_all add: domain_bytes js_def)

definition namespacePreimage :: "js_string \<Rightarrow> bytes" where
  "namespacePreimage ns = NAMESPACE_DOMAIN @ textEncode ns"
definition namePreimage :: "js_string \<Rightarrow> bytes" where
  "namePreimage n = NAME_HASH_DOMAIN @ textEncode n"
definition recordKeyPreimage :: "js_string \<Rightarrow> bytes" where
  "recordKeyPreimage k = RECORD_KEY_DOMAIN @ textEncode k"

lemmas preimage_defs = namespacePreimage_def namePreimage_def recordKeyPreimage_def

lemma hashes_of_preimages:
  "namespaceHash P s = sha256 P (namespacePreimage s)"
  "hashName P s = sha256 P (namePreimage s)"
  "recordKeyHash P s = sha256 P (recordKeyPreimage s)"
  by (simp_all add: namespaceHash_def hashName_def recordKeyHash_def preimage_defs)

lemma preimage_separation:
  "namespacePreimage s \<noteq> namePreimage t" "namespacePreimage s \<noteq> recordKeyPreimage t"
  "namePreimage s \<noteq> recordKeyPreimage t"
  using domains_differ by (simp_all add: preimage_defs)

lemma preimage_inj:
  assumes "decodable s" "decodable t"
  shows "namespacePreimage s = namespacePreimage t \<longleftrightarrow> s = t"
    and "namePreimage s = namePreimage t \<longleftrightarrow> s = t"
    and "recordKeyPreimage s = recordKeyPreimage t \<longleftrightarrow> s = t"
  using textEncode_inj [OF assms] by (auto simp: preimage_defs)

lemma canonicalName_decodable: "canonicalName n \<Longrightarrow> decodable n"
  by (simp add: canonicalName_units decodable_ascii)

lemma length_hashes:
  assumes "sha256_width P"
  shows "length (namespaceHash P s) = 32" "length (hashName P s) = 32" "length (recordKeyHash P s) = 32"
  using assms by (simp_all add: sha256_width_def namespaceHash_def hashName_def recordKeyHash_def)

section \<open>Properties\<close>

text \<open>C22. \<open>validateLabel\<close> accepts exactly the words of lowercase letters and digits joined by single
  hyphens, of at most 63 characters in all.\<close>

theorem validateLabel_grammar:
  "validateLabel label = Inr () \<longleftrightarrow> labelText label \<and> length label \<le> 63"
  by (rule validateLabel_iff)

text \<open>\<open>canonicalizeName\<close> is a projection onto the storable names: what it returns is a label of the
  grammar with the suffix, it leaves that result unchanged, and a storable name is its own canonical
  form.\<close>

theorem canonicalizeName_projection:
  "(canonicalizeName P input = Inr n \<longrightarrow> canonicalName n \<and> canonicalizeName P n = Inr n)
   \<and> (canonicalName n \<longrightarrow> canonicalizeName P n = Inr n)"
  by (auto simp: canonicalizeName_idem canonicalizeName_canonical) (simp add: canonicalizeName_iff)

lemma alice_canonical: "canonicalName (js ''alice.arch'')"
proof -
  have "js ''alice.arch'' = js ''alice'' @ ARCH_SUFFIX" by (simp add: ARCH_SUFFIX_def js_def)
  moreover have "labelText (js ''alice'')" by (rule labelText.word) (simp_all add: js_def alnum_def)
  ultimately show ?thesis unfolding canonicalName_def by (auto simp: js_def)
qed

theorem canonicalizeName_projection_witness:
  "canonicalizeName samplePrims (js ''alice.arch'') = Inr (js ''alice.arch'')"
  using canonicalizeName_projection [of samplePrims "js ''alice.arch''" "js ''alice.arch''"] alice_canonical by blast

text \<open>Spelling does not matter: any mixture of upper and lower case of a storable name, surrounded
  by any white space, canonicalises to that name and has its hash.\<close>

theorem canonicalizeName_spelling_insensitive:
  assumes "list_all isSpace before" "list_all isSpace after" "isAscii s" "map lowerUnit s = n" "canonicalName n"
  shows "canonicalizeName P (before @ s @ after) = Inr n \<and> nameHash P (before @ s @ after) = Inr (hashName P n)"
  using canonicalizeName_spelling [OF assms] by (simp add: nameHash_def)

theorem canonicalizeName_spelling_insensitive_witness:
  "canonicalizeName samplePrims (js '' Alice.ARCH '') = Inr (js ''alice.arch'')"
  using canonicalizeName_spelling_insensitive [of "js '' ''" "js '' ''" "js ''Alice.ARCH''" "js ''alice.arch''" samplePrims]
    alice_canonical
  by (simp add: js_def isSpace_def lowerUnit_def)

text \<open>C23. Name hashes separate names: where SHA-256 does not collide on the two domain-prefixed texts,
  two inputs have the same name hash exactly when they canonicalise to the same name, and that hash
  differs from the namespace hash and the record-key hash of any text whose preimage does not collide
  with it.\<close>

theorem nameHash_separates:
  assumes "canonicalizeName P s = Inr m" "canonicalizeName P t = Inr n"
    and "inj_on (sha256 P) {namePreimage m, namePreimage n, namespacePreimage x, recordKeyPreimage x}"
  shows "(nameHash P s = nameHash P t \<longleftrightarrow> m = n)
    \<and> nameHash P s \<noteq> Inr (namespaceHash P x) \<and> nameHash P s \<noteq> Inr (recordKeyHash P x)
    \<and> namespaceHash P x \<noteq> recordKeyHash P x"
proof -
  have "decodable m" "decodable n"
    using assms(1,2) by (auto simp: canonicalizeName_iff intro: canonicalName_decodable)
  moreover have hash: "sha256 P u = sha256 P v \<longleftrightarrow> u = v"
    if "u \<in> {namePreimage m, namePreimage n, namespacePreimage x, recordKeyPreimage x}"
      "v \<in> {namePreimage m, namePreimage n, namespacePreimage x, recordKeyPreimage x}" for u v
    using inj_on_eq_iff [OF assms(3) that] .
  ultimately show ?thesis
    using assms(1,2) preimage_separation preimage_separation [symmetric]
    by (simp add: nameHash_def hashes_of_preimages hash preimage_inj)
qed

theorem nameHash_separates_witness:
  "nameHash samplePrims (js '' Alice.ARCH '') \<noteq> Inr (namespaceHash samplePrims (js ''arch''))
    \<and> nameHash samplePrims (js '' Alice.ARCH '') = nameHash samplePrims (js ''alice.arch'')"
proof -
  have *: "canonicalizeName samplePrims (js '' Alice.ARCH '') = Inr (js ''alice.arch'')"
    using canonicalizeName_spelling [of "js '' ''" "js '' ''" "js ''Alice.ARCH''" "js ''alice.arch''" samplePrims]
      alice_canonical by (simp add: js_def isSpace_def lowerUnit_def)
  have "inj_on (sha256 samplePrims)
    {namePreimage (js ''alice.arch''), namePreimage (js ''alice.arch''), namespacePreimage (js ''arch''), recordKeyPreimage (js ''arch'')}"
    by (simp add: samplePrims_def fold32_def preimage_defs domain_bytes textEncode_ascii js_def)
  from nameHash_separates [OF * canonicalizeName_canonical [OF alice_canonical] this]
  show ?thesis by blast
qed

end
