(* ===== verification/Signers.thy ===== *)
theory Signers
  imports Js_Value Names
begin

text \<open>
  Account identities and what the browser has learned about the wallet's signing keys:
  \<^verbatim>\<open>arch-identity.ts\<close> and \<^verbatim>\<open>signer-registry.ts\<close> of the manager. The base58 package is the parameter
  \<open>base58\<close>. Local storage is the record \<open>browser\<close>: the JSON value under each of the two keys, nothing where
  the key is absent or its text does not parse.
\<close>

section \<open>arch-identity.ts\<close>

record base58 =
  b58_decode :: "js_string \<Rightarrow> js_error + bytes"
  b58_encode :: "bytes \<Rightarrow> js_string"

text \<open>The test \<open>/^(?:[0-9a-fA-F]{64}|[0-9a-fA-F]{66})$/\<close>.\<close>

definition isHexKey :: "js_string \<Rightarrow> bool" where
  "isHexKey s \<longleftrightarrow> (length s = 64 \<or> length s = 66) \<and> list_all isHexDigit s"

text \<open>The decoded bytes of a non-empty text, then the account key they stand for.\<close>

definition keyBytes :: "base58 \<Rightarrow> js_string \<Rightarrow> bytes option" where
  "keyBytes B trimmed =
     (if isHexKey trimmed then Some (hexPairs trimmed)
      else case b58_decode B trimmed of Inr bs \<Rightarrow> Some bs | Inl _ \<Rightarrow> None)"

definition xOnly :: "bytes \<Rightarrow> bytes option" where
  "xOnly bs =
     (let bs' = (if length bs = 33 \<and> (bs ! 0 = 2 \<or> bs ! 0 = 3) then drop 1 bs else bs) in
      if length bs' = 32 then Some bs' else None)"

definition canonicalArchKey :: "base58 \<Rightarrow> js_string option \<Rightarrow> bytes option" where
  "canonicalArchKey B text =
     (case text of
        None \<Rightarrow> None
      | Some s \<Rightarrow>
          (let trimmed = stripHexPrefix (trim s) in
           if trimmed = [] then None else Option.bind (keyBytes B trimmed) xOnly))"

definition canonicalArchKeyHex :: "base58 \<Rightarrow> js_string option \<Rightarrow> js_string option" where
  "canonicalArchKeyHex B text = map_option bytesToHex (canonicalArchKey B text)"

definition archIdentitiesEqual :: "base58 \<Rightarrow> js_string option \<Rightarrow> js_string option \<Rightarrow> bool" where
  "archIdentitiesEqual B a b =
     (case (canonicalArchKeyHex B a, canonicalArchKeyHex B b) of
        (Some left, Some right) \<Rightarrow> left = right
      | _ \<Rightarrow> (case (a, b) of (Some s, Some t) \<Rightarrow> trim s = trim t | _ \<Rightarrow> False))"

text \<open>The ellipsis is one code unit.\<close>

definition shortArchAddress :: "js_string option \<Rightarrow> nat \<Rightarrow> js_string" where
  "shortArchAddress text chars =
     (case text of
        None \<Rightarrow> js ''unknown account''
      | Some s \<Rightarrow>
          (let trimmed = trim s in
           if trimmed = [] then js ''unknown account''
           else if length trimmed \<le> chars * 2 + 1 then trimmed
           else take chars trimmed @ [0x2026] @ (if chars = 0 then trimmed else drop (length trimmed - chars) trimmed)))"

definition archIdentityFingerprint :: "base58 \<Rightarrow> js_string option \<Rightarrow> js_string" where
  "archIdentityFingerprint B text =
     (let shown = (case text of Some s \<Rightarrow> if trim s \<noteq> [] then trim s else js ''none'' | None \<Rightarrow> js ''none'') in
      case canonicalArchKeyHex B text of
        None \<Rightarrow> shown @ js '' (unrecognized encoding)''
      | Some hex \<Rightarrow> shown @ js '' (key '' @ take 8 hex @ [0x2026] @ drop (length hex - 8) hex @ js '')'')"

section \<open>signer-registry.ts\<close>

definition MAX_SEEN :: nat where "MAX_SEEN = 8"

record SignerObservation =
  so_reportedArchAddress :: js_string
  so_signerArchAddress :: js_string
  so_at :: jsnum

record browser =
  br_blocked :: bool
  br_seen :: "jsval option"
  br_observation :: "jsval option"

definition readStorage :: "browser \<Rightarrow> (browser \<Rightarrow> jsval option) \<Rightarrow> jsval option" where
  "readStorage b entry = (if br_blocked b then None else entry b)"

definition seenAccounts :: "browser \<Rightarrow> js_string list" where
  "seenAccounts b =
     (case readStorage b br_seen of
        Some (Arr vs) \<Rightarrow> List.map_filter (\<lambda>v. case v of Str s \<Rightarrow> if s \<noteq> [] then Some s else None | _ \<Rightarrow> None) vs
      | _ \<Rightarrow> [])"

definition rememberSeenAccount :: "base58 \<Rightarrow> js_string option \<Rightarrow> browser \<Rightarrow> browser" where
  "rememberSeenAccount B archAddress b =
     (case archAddress of
        None \<Rightarrow> b
      | Some a \<Rightarrow>
          if a = [] \<or> canonicalArchKeyHex B archAddress = None then b
          else
            (let existing = filter (\<lambda>s. \<not> archIdentitiesEqual B (Some s) archAddress) (seenAccounts b) in
             if br_blocked b then b
             else b\<lparr>br_seen := Some (Arr (map Str (take MAX_SEEN (a # existing))))\<rparr>))"

definition signerObservation :: "browser \<Rightarrow> SignerObservation option" where
  "signerObservation b =
     (case readStorage b br_observation of
        None \<Rightarrow> None
      | Some v \<Rightarrow>
          (case (optField v (js ''reportedArchAddress''), optField v (js ''signerArchAddress'')) of
             (Str r, Str s) \<Rightarrow> Some
               \<lparr>so_reportedArchAddress = r, so_signerArchAddress = s,
                so_at = (case optField v (js ''at'') of Number n \<Rightarrow> n | _ \<Rightarrow> Fin 0)\<rparr>
           | _ \<Rightarrow> None))"

definition rememberSignerObservation :: "base58 \<Rightarrow> js_string \<Rightarrow> js_string \<Rightarrow> int \<Rightarrow> browser \<Rightarrow> browser" where
  "rememberSignerObservation B reported signer t b =
     (let b' = rememberSeenAccount B (Some signer) b in
      if br_blocked b' then b'
      else b'\<lparr>br_observation := Some (Obj
        [(js ''reportedArchAddress'', Str reported), (js ''signerArchAddress'', Str signer), (js ''at'', num t)])\<rparr>)"

definition forgetSignerObservation :: "browser \<Rightarrow> browser" where
  "forgetSignerObservation b = (if br_blocked b then b else b\<lparr>br_observation := None\<rparr>)"

text \<open>The account to try first, where it comes from, and when it was observed.\<close>

definition preferredSigner :: "base58 \<Rightarrow> browser \<Rightarrow> js_string \<Rightarrow> js_string \<times> pin_source \<times> jsnum option" where
  "preferredSigner B b reported =
     (case signerObservation b of
        Some o1 \<Rightarrow>
          if archIdentitiesEqual B (Some (so_reportedArchAddress o1)) (Some reported) \<and>
             \<not> archIdentitiesEqual B (Some (so_signerArchAddress o1)) (Some reported)
          then (so_signerArchAddress o1, Observed, Some (so_at o1))
          else (reported, Reported, None)
      | None \<Rightarrow> (reported, Reported, None))"

text \<open>The loop of \<open>signerCandidates\<close>: keep a candidate that has a key, is not the excluded account, and is not
  among those already kept.\<close>

fun keepCandidates :: "base58 \<Rightarrow> js_string \<Rightarrow> js_string list \<Rightarrow> js_string option list \<Rightarrow> js_string list" where
  "keepCandidates B exclude out [] = out"
| "keepCandidates B exclude out (candidate # cs) =
     (case candidate of
        None \<Rightarrow> keepCandidates B exclude out cs
      | Some c \<Rightarrow>
          if c = [] \<or> canonicalArchKeyHex B (Some c) = None then keepCandidates B exclude out cs
          else if archIdentitiesEqual B (Some c) (Some exclude) then keepCandidates B exclude out cs
          else if list_ex (\<lambda>existing. archIdentitiesEqual B (Some existing) (Some c)) out
          then keepCandidates B exclude out cs
          else keepCandidates B exclude (out @ [c]) cs)"

definition orderedCandidates :: "browser \<Rightarrow> js_string option list \<Rightarrow> js_string option list" where
  "orderedCandidates b extra =
     extra @ [map_option so_signerArchAddress (signerObservation b)] @ map Some (seenAccounts b)"

definition signerCandidates :: "base58 \<Rightarrow> browser \<Rightarrow> js_string \<Rightarrow> js_string option list \<Rightarrow> js_string list" where
  "signerCandidates B b exclude extra = keepCandidates B exclude [] (orderedCandidates b extra)"

section \<open>Identities\<close>

lemma canonicalArchKey_empty [simp]: "canonicalArchKey B (Some []) = None" "canonicalArchKey B None = None"
  by (simp_all add: canonicalArchKey_def trim_def stripHexPrefix_def)

lemma canonicalArchKey_length: "canonicalArchKey B v = Some k \<Longrightarrow> length k = 32"
  by (auto simp: canonicalArchKey_def xOnly_def Let_def Option.bind_eq_Some_conv split: option.splits if_splits)

lemma hexKey_Some [simp]: "canonicalArchKeyHex B v = None \<longleftrightarrow> canonicalArchKey B v = None"
  by (simp add: canonicalArchKeyHex_def)

text \<open>With a key on one side, two values are the same identity exactly when they have the same key.\<close>

lemma canonicalArchKey_trim: "trim s = trim t \<Longrightarrow> canonicalArchKey B (Some s) = canonicalArchKey B (Some t)"
  by (simp add: canonicalArchKey_def)

lemma archIdentitiesEqual_keys:
  assumes "canonicalArchKey B a = Some k" "canonicalArchKey B b = Some j"
  shows "archIdentitiesEqual B a b \<longleftrightarrow> k = j"
  using assms by (simp add: archIdentitiesEqual_def canonicalArchKeyHex_def bytesToHex_inj)

lemma archIdentitiesEqual_one_key:
  assumes "canonicalArchKey B a = Some k" "canonicalArchKey B b = None"
  shows "\<not> archIdentitiesEqual B a b \<and> \<not> archIdentitiesEqual B b a"
proof -
  have "trim s \<noteq> trim t" if "a = Some s" "b = Some t" for s t
    using canonicalArchKey_trim [of s t B] assms that by auto
  moreover from this have "trim t \<noteq> trim s" if "a = Some s" "b = Some t" for s t
    using that by metis
  ultimately show ?thesis
    using assms by (cases a; cases b) (simp_all add: archIdentitiesEqual_def canonicalArchKeyHex_def)
qed

lemma identities_by_key:
  assumes "canonicalArchKey B a = Some k"
  shows "archIdentitiesEqual B a b \<longleftrightarrow> canonicalArchKey B b = Some k"
    and "archIdentitiesEqual B b a \<longleftrightarrow> canonicalArchKey B b = Some k"
  using archIdentitiesEqual_keys [OF assms, of b] archIdentitiesEqual_keys [OF _ assms, of b]
    archIdentitiesEqual_one_key [OF assms, of b]
  by (cases "canonicalArchKey B b"; auto)+

section \<open>Candidates\<close>

abbreviation keyOf :: "base58 \<Rightarrow> js_string \<Rightarrow> bytes option" where
  "keyOf B s \<equiv> canonicalArchKey B (Some s)"

lemma keepCandidates_exact:
  assumes "\<forall>c \<in> set out. keyOf B c \<noteq> None \<and> keyOf B c \<noteq> keyOf B exclude" "distinct (map (keyOf B) out)"
  shows "(\<forall>c \<in> set (keepCandidates B exclude out cs). keyOf B c \<noteq> None \<and> keyOf B c \<noteq> keyOf B exclude) \<and>
    distinct (map (keyOf B) (keepCandidates B exclude out cs)) \<and>
    keyOf B ` set (keepCandidates B exclude out cs) =
      keyOf B ` set out \<union> (canonicalArchKey B ` set cs - {None, keyOf B exclude})"
  using assms
proof (induction cs arbitrary: out)
  case (Cons candidate cs)
  show ?case
  proof (cases "canonicalArchKey B candidate")
    case None
    then have "keepCandidates B exclude out (candidate # cs) = keepCandidates B exclude out cs"
      by (cases candidate) auto
    then show ?thesis using Cons.IH [OF Cons.prems] None by auto
  next
    case (Some k)
    then have "candidate \<noteq> None" "candidate \<noteq> Some []"
      using canonicalArchKey_empty [of B] by (metis option.distinct(1))+
    then obtain c where c: "candidate = Some c" "c \<noteq> []" by (cases candidate) auto
    have key: "keyOf B c = Some k" using Some c(1) by simp
    have ex: "archIdentitiesEqual B (Some c) (Some exclude) \<longleftrightarrow> keyOf B exclude = Some k"
      by (rule identities_by_key(1) [OF key])
    have ex': "list_ex (\<lambda>e. archIdentitiesEqual B (Some e) (Some c)) out \<longleftrightarrow> Some k \<in> keyOf B ` set out"
      unfolding identities_by_key(2) [OF key] list_ex_iff image_iff by (simp add: eq_commute)
    have kept: "keepCandidates B exclude out (candidate # cs) =
        (if keyOf B exclude = Some k \<or> Some k \<in> keyOf B ` set out then keepCandidates B exclude out cs
         else keepCandidates B exclude (out @ [c]) cs)"
      unfolding keepCandidates.simps c(1) option.case hexKey_Some ex ex' using key c(2) by simp
    show ?thesis
    proof (cases "keyOf B exclude = Some k \<or> Some k \<in> keyOf B ` set out")
      case True
      then have "insert (Some k) (canonicalArchKey B ` set cs) - {None, keyOf B exclude} \<union> keyOf B ` set out =
          canonicalArchKey B ` set cs - {None, keyOf B exclude} \<union> keyOf B ` set out"
        by auto
      then show ?thesis using Cons.IH [OF Cons.prems] unfolding kept if_P [OF True] by (simp add: Some Un_commute)
    next
      case False
      have "\<forall>x \<in> set (out @ [c]). keyOf B x \<noteq> None \<and> keyOf B x \<noteq> keyOf B exclude"
          "distinct (map (keyOf B) (out @ [c]))"
        using Cons.prems False key by auto
      note IH = Cons.IH [OF this]
      have "keyOf B ` set (out @ [c]) \<union> (canonicalArchKey B ` set cs - {None, keyOf B exclude}) =
          keyOf B ` set out \<union> (canonicalArchKey B ` set (candidate # cs) - {None, keyOf B exclude})"
        using False key c(1) by auto
      with IH show ?thesis unfolding kept if_not_P [OF False] by simp
    qed
  qed
qed simp

text \<open>The keys a signature may be tested against. Whatever local storage holds, the candidates have
  pairwise different account keys, all of them keys other than the excluded account's, and together they are
  exactly the keys of the callers' accounts, the observed signer and the accounts the wallet has reported.\<close>

theorem signer_candidates_exact:
  shows "(\<forall>c \<in> set (signerCandidates B b exclude extra).
       keyOf B c \<noteq> None \<and> \<not> archIdentitiesEqual B (Some c) (Some exclude)) \<and>
    distinct (map (keyOf B) (signerCandidates B b exclude extra)) \<and>
    keyOf B ` set (signerCandidates B b exclude extra) =
      canonicalArchKey B ` (set extra \<union> {map_option so_signerArchAddress (signerObservation b)} \<union> Some ` set (seenAccounts b))
        - {None, keyOf B exclude}"
proof -
  have "set (orderedCandidates b extra) =
      set extra \<union> {map_option so_signerArchAddress (signerObservation b)} \<union> Some ` set (seenAccounts b)"
    by (auto simp: orderedCandidates_def)
  note exact = keepCandidates_exact [of "[]" B exclude "orderedCandidates b extra", folded signerCandidates_def,
      unfolded this, simplified]
  have "\<not> archIdentitiesEqual B (Some c) (Some exclude)"
    if "c \<in> set (signerCandidates B b exclude extra)" for c
    using exact that identities_by_key(1) [of B "Some c" _ "Some exclude"] by (metis not_None_eq)
  then show ?thesis using exact by simp
qed

text \<open>A storage that saw one account twice, in two encodings.\<close>

definition noBase58 :: base58 where
  "noBase58 = \<lparr>b58_decode = (\<lambda>_. Inl (PlainError (js ''Non-base58 character''))), b58_encode = bytesToHex\<rparr>"

definition hexAccount :: "u8 \<Rightarrow> js_string" where
  "hexAccount v = bytesToHex (replicate 32 v)"

lemma hexDigit_isHexDigit: "n < 16 \<Longrightarrow> isHexDigit (hexDigit n)"
  by (simp add: isHexDigit_def hexValue_hexDigit)

lemma bytesToHex_digits: "list_all isHexDigit (bytesToHex bs) \<and> list_all (\<lambda>u. \<not> isSpace u) (bytesToHex bs)"
  by (induction bs) (simp_all add: bytesToHex_Cons hexDigit_isHexDigit hexDigit_plain(1) unat_div16)

lemma trim_bytesToHex: "trim (bytesToHex bs) = bytesToHex bs"
  using bytesToHex_digits [of bs] by (intro trim_noop) (auto simp: list_all_iff)

lemma keyOf_bytesToHex:
  assumes "length bs = 32"
  shows "keyOf B (bytesToHex bs) = Some bs"
proof -
  have len: "length (bytesToHex bs) = 64" using length_bytesToHex [of bs] assms by simp
  then have "bytesToHex bs \<noteq> []" by force
  moreover have "keyBytes B (bytesToHex bs) = Some bs"
    using len bytesToHex_digits [of bs] by (simp add: keyBytes_def isHexKey_def hexPairs_bytesToHex)
  moreover have "xOnly bs = Some bs" using assms by (simp add: xOnly_def)
  ultimately show ?thesis
    by (simp add: canonicalArchKey_def trim_bytesToHex stripHexPrefix_bytesToHex)
qed

lemma keyOf_hexAccount [simp]: "keyOf B (hexAccount v) = Some (replicate 32 v)"
  by (simp add: hexAccount_def keyOf_bytesToHex)

theorem signer_candidates_exact_witness:
  "keyOf noBase58 ` set (signerCandidates noBase58
      \<lparr>br_blocked = False, br_seen = Some (Arr [Str (hexAccount 1), Str (js '' '' @ hexAccount 1), Str (hexAccount 2)]),
       br_observation = None\<rparr> (hexAccount 2) [Some (js ''junk'')]) = {Some (replicate 32 1)}"
proof -
  have "keyOf noBase58 (js '' '' @ hexAccount 1) = Some (replicate 32 1)"
    using canonicalArchKey_trim [of "js '' '' @ hexAccount 1" "hexAccount 1" noBase58] trim_spaces [of "js '' ''" "[]" "hexAccount 1"]
    by (simp add: js_def isSpace_def)
  moreover have "keyOf noBase58 (js ''junk'') = None"
    by (simp add: canonicalArchKey_def trim_def isSpace_def js_def stripHexPrefix_def startsWith_def keyBytes_def isHexKey_def noBase58_def)
  moreover have "hexAccount v \<noteq> []" for v using keyOf_hexAccount [of noBase58 v] by force
  ultimately show ?thesis
    using signer_candidates_exact [of noBase58 "\<lparr>br_blocked = False,
        br_seen = Some (Arr [Str (hexAccount 1), Str (js '' '' @ hexAccount 1), Str (hexAccount 2)]),
        br_observation = None\<rparr>" "hexAccount 2" "[Some (js ''junk'')]"]
    by (auto simp: seenAccounts_def readStorage_def List.map_filter_def signerObservation_def)
qed

section \<open>What the registry stores\<close>

datatype registry_op = SawAccount "js_string option" | SawSigner js_string js_string int | Forget

fun applyOp :: "base58 \<Rightarrow> registry_op \<Rightarrow> browser \<Rightarrow> browser" where
  "applyOp B (SawAccount a) = rememberSeenAccount B a"
| "applyOp B (SawSigner r s t) = rememberSignerObservation B r s t"
| "applyOp B Forget = forgetSignerObservation"

text \<open>Well-formed storage: at most eight accounts, all with keys, no key twice.\<close>

definition okBrowser :: "base58 \<Rightarrow> browser \<Rightarrow> bool" where
  "okBrowser B b \<longleftrightarrow> length (seenAccounts b) \<le> 8 \<and> distinct (map (keyOf B) (seenAccounts b)) \<and>
     (\<forall>a \<in> set (seenAccounts b). keyOf B a \<noteq> None)"

lemma seenAccounts_written:
  "[] \<notin> set as \<Longrightarrow> \<not> br_blocked b \<Longrightarrow> seenAccounts (b\<lparr>br_seen := Some (Arr (map Str as))\<rparr>) = as"
  by (induction as) (auto simp: seenAccounts_def readStorage_def List.map_filter_simps)

lemma seenAccounts_nonempty: "[] \<notin> set (seenAccounts b)"
  by (auto simp: seenAccounts_def List.map_filter_def split: option.splits jsval.splits if_splits)

lemma seenAccounts_observation [simp]:
  "seenAccounts (b\<lparr>br_observation := v\<rparr>) = seenAccounts b"
  by (simp add: seenAccounts_def readStorage_def)

lemma seen_after_remember:
  assumes "keyOf B a = Some k" "\<not> br_blocked b"
  shows "seenAccounts (rememberSeenAccount B (Some a) b) =
    take 8 (a # filter (\<lambda>s. keyOf B s \<noteq> Some k) (seenAccounts b))"
proof -
  have "a \<noteq> []" using assms(1) by force
  then have "[] \<notin> set (take 8 (a # filter (\<lambda>s. keyOf B s \<noteq> Some k) (seenAccounts b)))"
    using seenAccounts_nonempty [of b] by (auto dest!: in_set_takeD)
  from seenAccounts_written [OF this assms(2)] show ?thesis
    using \<open>a \<noteq> []\<close> assms identities_by_key(2) [OF assms(1)]
    by (simp add: rememberSeenAccount_def MAX_SEEN_def)
qed

lemma okBrowser_remember:
  assumes "okBrowser B b"
  shows "okBrowser B (rememberSeenAccount B v b)"
proof (cases "br_blocked b \<or> canonicalArchKey B v = None \<or> v = None")
  case True
  then have "rememberSeenAccount B v b = b" by (auto simp: rememberSeenAccount_def split: option.splits)
  then show ?thesis using assms by simp
next
  case False
  then obtain a k where a: "v = Some a" "keyOf B a = Some k" "\<not> br_blocked b" by auto
  define rest where "rest = filter (\<lambda>s. keyOf B s \<noteq> Some k) (seenAccounts b)"
  have seen: "seenAccounts (rememberSeenAccount B v b) = take 8 (a # rest)"
    using seen_after_remember [OF a(2,3)] by (simp only: a(1) rest_def)
  have "distinct (map (keyOf B) rest)" using assms by (simp add: okBrowser_def rest_def distinct_map_filter)
  moreover have "Some k \<notin> keyOf B ` set rest" by (auto simp: rest_def)
  ultimately have "distinct (map (keyOf B) (a # rest))" using a(2) by simp
  then have "distinct (map (keyOf B) (take 8 (a # rest)))" unfolding take_map [symmetric] by (rule distinct_take)
  moreover have "keyOf B s \<noteq> None" if "s \<in> set (take 8 (a # rest))" for s
    using in_set_takeD [OF that] assms a(2) unfolding okBrowser_def rest_def by auto
  moreover have "length (take 8 (a # rest)) \<le> 8" unfolding length_take by (rule min.cobounded2)
  ultimately show ?thesis unfolding okBrowser_def seen by blast
qed

lemma okBrowser_op: "okBrowser B b \<Longrightarrow> okBrowser B (applyOp B opn b)"
  using okBrowser_remember
  by (cases opn) (auto simp: rememberSignerObservation_def forgetSignerObservation_def Let_def okBrowser_def)

text \<open>C37. The registry keeps its storage well formed. From empty storage, in any sequence of reported accounts,
  observed signers and resets, it holds at most eight accounts, each with a key and none twice in any
  encoding; and an account that is reported goes to the front, where an older entry of the same key is dropped.\<close>

theorem signer_registry_wellformed:
  shows "okBrowser B (fold (applyOp B) ops \<lparr>br_blocked = blocked, br_seen = None, br_observation = None\<rparr>) \<and>
    (keyOf B a \<noteq> None \<and> \<not> br_blocked b \<longrightarrow>
       hd (seenAccounts (rememberSeenAccount B (Some a) b)) = a \<and>
       (\<forall>s \<in> set (tl (seenAccounts (rememberSeenAccount B (Some a) b))). keyOf B s \<noteq> keyOf B a))"
proof -
  have "okBrowser B b0 \<Longrightarrow> okBrowser B (fold (applyOp B) ops b0)" for b0
    by (induction ops arbitrary: b0) (simp_all add: okBrowser_op)
  moreover have "okBrowser B \<lparr>br_blocked = blocked, br_seen = None, br_observation = None\<rparr>"
    by (simp add: okBrowser_def seenAccounts_def readStorage_def)
  ultimately show ?thesis using seen_after_remember [of B a] by (fastforce dest: in_set_takeD)
qed

theorem signer_registry_wellformed_witness:
  "hd (seenAccounts (rememberSeenAccount noBase58 (Some (hexAccount 3))
     \<lparr>br_blocked = False, br_seen = None, br_observation = None\<rparr>)) = hexAccount 3"
  using signer_registry_wellformed [of noBase58 "[]" False "hexAccount 3"
      "\<lparr>br_blocked = False, br_seen = None, br_observation = None\<rparr>"] by simp

end
