(* ===== verification/Wallet.thy ===== *)
theory Wallet
  imports Signers
begin

text \<open>
  The wallet as the manager sees it: \<^verbatim>\<open>wallet-state.ts\<close>, \<^verbatim>\<open>wallet-initialization.ts\<close>, the states of
  \<^verbatim>\<open>wallet-status.ts\<close>, \<^verbatim>\<open>wallet-watch.ts\<close> and the prompts of \<^verbatim>\<open>wallet-gateway.ts\<close>. What the extension answers is
  an argument of each operation; the module variables (the latch, the prompt counter, the open prompts) and
  local storage are explicit state. The texts shown to the user are left out.
\<close>

section \<open>Blockers (wallet-state.ts)\<close>

text \<open>An error of the wallet: its \<open>code\<close> (empty where it has none) and message, or a step's failure that wraps
  another.\<close>

datatype wallet_error = WalletFailure js_string js_string | StepFailure wallet_error

datatype WalletBlockerKind =
  Blocked_locked | Blocked_not_connected | Blocked_needs_reconnect | Blocked_unsupported_kind
  | Blocked_stale_extension | Blocked_signer_mismatch

definition matchesAny :: "js_string list \<Rightarrow> js_string \<Rightarrow> bool" where
  "matchesAny pats s = list_ex (matchesFolded s) pats"

definition staleExtensionText :: "js_string \<Rightarrow> bool" where
  "staleExtensionText = matchesAny
     [js ''extension context invalidated'', js ''attempting to use a disconnected port object'',
      js ''could not establish connection receiving end does not exist'',
      js ''could not establish connection. receiving end does not exist'',
      js ''message port closed before a response was received'']"

fun walletErrorMessage :: "wallet_error \<Rightarrow> js_string" where
  "walletErrorMessage (WalletFailure _ m) = m"
| "walletErrorMessage (StepFailure e) = walletErrorMessage e"

definition blockerFromCode :: "js_string \<Rightarrow> WalletBlockerKind option" where
  "blockerFromCode code =
     (if code = js ''UNSUPPORTED_WALLET_KIND'' then Some Blocked_unsupported_kind
      else if code = js ''SIGNER_MISMATCH'' then Some Blocked_signer_mismatch
      else if code = js ''WALLET_ACCOUNT_CHANGED'' then Some Blocked_needs_reconnect
      else if code = js ''WALLET_LOCKED'' then Some Blocked_locked
      else if code = js ''SITE_NOT_CONNECTED'' then Some Blocked_not_connected
      else None)"

definition blockerFromMessage :: "js_string \<Rightarrow> WalletBlockerKind option" where
  "blockerFromMessage raw =
     (if staleExtensionText raw then Some Blocked_stale_extension
      else if matchesAny [js ''wallet locked'', js ''wallet is locked'', js ''keystore is locked''] raw
      then Some Blocked_locked
      else if matchesAny [js ''site not connected'', js ''not connected to this site''] raw
      then Some Blocked_not_connected
      else if matchesAny [js ''error checking transaction sigs'', js ''bip322 signature verification failed'',
                          js ''signature did not match''] raw
      then Some Blocked_signer_mismatch
      else if matchesAny [js ''connected site account is no longer available'', js ''wallet account changed''] raw
      then Some Blocked_needs_reconnect
      else if matchesAny [js ''linked external'', js ''watch-only wallets cannot sign''] raw
      then Some Blocked_unsupported_kind
      else None)"

fun classifyWalletBlocker :: "wallet_error \<Rightarrow> WalletBlockerKind option" where
  "classifyWalletBlocker (StepFailure cause) = classifyWalletBlocker cause"
| "classifyWalletBlocker (WalletFailure code message) =
     (case blockerFromCode code of Some k \<Rightarrow> Some k | None \<Rightarrow> blockerFromMessage message)"

section \<open>States (wallet-status.ts)\<close>

datatype WalletPromptIntent = Unlock | ConnectSite

datatype WalletPromptFailure = Dismissed | TimedOut | Errored

datatype WalletStatus =
    Detecting | NoExtension | NotInitialized | WalletLocked | NotConnected
  | AwaitingWallet WalletPromptIntent bool
  | PromptUnanswered WalletPromptIntent WalletPromptFailure "js_string option"
  | StaleExtension
  | Unavailable js_string
  | UnsupportedAccount ConnectedAccount
  | Connected ConnectedAccount

definition isSignableAccount :: "ConnectedAccount \<Rightarrow> bool" where
  "isSignableAccount account \<longleftrightarrow> ca_kind account \<noteq> Some (js ''watch'')"

text \<open>What the extension returns for an account; every field may be missing.\<close>

record raw_account =
  ra_address :: "js_string option"
  ra_publicKey :: "js_string option"
  ra_archAddress :: "js_string option"
  ra_kind :: "js_string option"
  ra_providerId :: "js_string option"
  ra_providerLabel :: "js_string option"

definition normalizeAccount :: "raw_account option \<Rightarrow> ConnectedAccount option" where
  "normalizeAccount raw =
     (case raw of
        None \<Rightarrow> None
      | Some r \<Rightarrow>
          (case ra_archAddress r of
             None \<Rightarrow> None
           | Some a \<Rightarrow>
               if a = [] then None
               else Some \<lparr>ca_address = (case ra_address r of Some x \<Rightarrow> x | None \<Rightarrow> []),
                      ca_publicKey = (case ra_publicKey r of Some x \<Rightarrow> x | None \<Rightarrow> []),
                      ca_archAddress = a, ca_kind = ra_kind r, ca_providerId = ra_providerId r,
                      ca_providerLabel = ra_providerLabel r\<rparr>))"

text \<open>The module state: the latch of \<^verbatim>\<open>wallet-initialization.ts\<close> and local storage.\<close>

record wallet_session =
  se_knownNotInitialized :: bool
  se_browser :: browser

definition accountStatus :: "base58 \<Rightarrow> ConnectedAccount \<Rightarrow> wallet_session \<Rightarrow> WalletStatus \<times> wallet_session" where
  "accountStatus B account s =
     (if isSignableAccount account then Connected account else UnsupportedAccount account,
      s\<lparr>se_browser := rememberSeenAccount B (Some (ca_archAddress account)) (se_browser s)\<rparr>)"

definition notInitializedText :: "js_string \<Rightarrow> bool" where
  "notInitializedText = matchesAny
     [js ''wallet not initialized'', js ''no wallet created'', js ''no wallet has been created'']"

definition classifyWalletPromptFailure :: "wallet_error \<Rightarrow> WalletPromptFailure option" where
  "classifyWalletPromptFailure e =
     (let message = walletErrorMessage e in
      if matchesAny [js ''user rejected'', js ''user denied'', js ''user declined'', js ''request rejected''] message
      then Some Dismissed
      else if matchesAny [js ''request timed out'', js ''request expired''] message then Some TimedOut
      else None)"

definition statusFromError :: "wallet_error \<Rightarrow> WalletStatus" where
  "statusFromError e =
     (let raw = walletErrorMessage e; blocker = classifyWalletBlocker e in
      if blocker = None \<and> notInitializedText raw then NotInitialized
      else case blocker of
        Some Blocked_locked \<Rightarrow> WalletLocked
      | Some Blocked_not_connected \<Rightarrow> NotConnected
      | Some Blocked_needs_reconnect \<Rightarrow> NotConnected
      | Some Blocked_stale_extension \<Rightarrow> StaleExtension
      | _ \<Rightarrow> Unavailable (if raw = [] then js ''Unknown wallet error'' else raw))"

definition statusAccount :: "WalletStatus \<Rightarrow> ConnectedAccount option" where
  "statusAccount status =
     (case status of Connected a \<Rightarrow> Some a | UnsupportedAccount a \<Rightarrow> Some a | _ \<Rightarrow> None)"

definition canSubmit :: "WalletStatus \<Rightarrow> bool" where
  "canSubmit status \<longleftrightarrow> (case status of Connected _ \<Rightarrow> True | _ \<Rightarrow> False)"

definition noteInitializationEvidence :: "WalletStatus \<Rightarrow> wallet_session \<Rightarrow> wallet_session" where
  "noteInitializationEvidence status s =
     (case status of
        NotInitialized \<Rightarrow> s\<lparr>se_knownNotInitialized := True\<rparr>
      | Connected _ \<Rightarrow> s\<lparr>se_knownNotInitialized := False\<rparr>
      | UnsupportedAccount _ \<Rightarrow> s\<lparr>se_knownNotInitialized := False\<rparr>
      | NotConnected \<Rightarrow> s\<lparr>se_knownNotInitialized := False\<rparr>
      | _ \<Rightarrow> s)"

definition resolveAmbiguousLock :: "wallet_session \<Rightarrow> WalletStatus \<Rightarrow> WalletStatus" where
  "resolveAmbiguousLock s status =
     (if status = WalletLocked \<and> se_knownNotInitialized s then NotInitialized else status)"

datatype wallet_answer = Answered "raw_account option" | Refused wallet_error

text \<open>What a read finds: no provider, a provider without \<open>getAccount\<close>, or its answer.\<close>

datatype wallet_read = NoProvider | NoReadApi | ReadAnswer wallet_answer

text \<open>An answer that names an account or none.\<close>

definition answeredStatus :: "base58 \<Rightarrow> raw_account option \<Rightarrow> wallet_session \<Rightarrow> WalletStatus \<times> wallet_session" where
  "answeredStatus B raw s =
     (let (status, s') = (case normalizeAccount raw of Some a \<Rightarrow> accountStatus B a s | None \<Rightarrow> (NotConnected, s)) in
      (status, noteInitializationEvidence status s'))"

definition probeWalletStatus :: "base58 \<Rightarrow> wallet_read \<Rightarrow> wallet_session \<Rightarrow> WalletStatus \<times> wallet_session" where
  "probeWalletStatus B read s =
     (case read of
        NoProvider \<Rightarrow> (NoExtension, s)
      | NoReadApi \<Rightarrow> (NotConnected, s)
      | ReadAnswer (Answered raw) \<Rightarrow> answeredStatus B raw s
      | ReadAnswer (Refused e) \<Rightarrow>
          (let status = statusFromError e; s' = noteInitializationEvidence status s in
           (resolveAmbiguousLock s' status, s')))"

definition promptFailureStatus :: "wallet_error \<Rightarrow> WalletPromptIntent \<Rightarrow> WalletStatus" where
  "promptFailureStatus e intent =
     (case classifyWalletPromptFailure e of
        Some reason \<Rightarrow> PromptUnanswered intent reason None
      | None \<Rightarrow>
          (case statusFromError e of
             WalletLocked \<Rightarrow> PromptUnanswered intent Dismissed None
           | NotConnected \<Rightarrow> PromptUnanswered intent Dismissed None
           | Unavailable detail \<Rightarrow> PromptUnanswered intent Errored (Some detail)
           | status \<Rightarrow> status))"

text \<open>How the promise of \<open>startWalletConnect\<close> settles: without a provider, or with what \<open>connect()\<close> answers.\<close>

definition connectSettled ::
  "base58 \<Rightarrow> WalletPromptIntent \<Rightarrow> wallet_answer option \<Rightarrow> wallet_session \<Rightarrow> WalletStatus \<times> wallet_session" where
  "connectSettled B intent answer s =
     (case answer of
        None \<Rightarrow> (NoExtension, s)
      | Some (Answered raw) \<Rightarrow> answeredStatus B raw s
      | Some (Refused e) \<Rightarrow>
          (let status = promptFailureStatus e intent in (status, noteInitializationEvidence status s)))"

definition walletCtaDisabled :: "WalletStatus \<Rightarrow> bool \<Rightarrow> bool" where
  "walletCtaDisabled status busy =
     (case status of Detecting \<Rightarrow> True | AwaitingWallet _ canReprompt \<Rightarrow> \<not> canReprompt | _ \<Rightarrow> busy)"

datatype tone = ErrorTone | WarningTone

definition walletStatusTone :: "WalletStatus \<Rightarrow> tone" where
  "walletStatusTone status =
     (case status of
        Unavailable _ \<Rightarrow> ErrorTone
      | PromptUnanswered _ reason _ \<Rightarrow> if reason = Errored then ErrorTone else WarningTone
      | _ \<Rightarrow> WarningTone)"

definition walletStatusDetail :: "WalletStatus \<Rightarrow> js_string option" where
  "walletStatusDetail status =
     (case status of Unavailable d \<Rightarrow> Some d | PromptUnanswered _ _ d \<Rightarrow> d | _ \<Rightarrow> None)"

section \<open>Watching (wallet-watch.ts)\<close>

definition isBlockedWalletStatus :: "WalletStatus \<Rightarrow> bool" where
  "isBlockedWalletStatus status =
     (case status of Connected _ \<Rightarrow> False | Detecting \<Rightarrow> False | NoExtension \<Rightarrow> False | StaleExtension \<Rightarrow> False
      | _ \<Rightarrow> True)"

definition WALLET_POLL_MIN_MS :: int where "WALLET_POLL_MIN_MS = 2500"

definition WALLET_POLL_MAX_MS :: int where "WALLET_POLL_MAX_MS = 15000"

definition WALLET_POLL_ATTEMPTS :: nat where "WALLET_POLL_ATTEMPTS = 40"

text \<open>\<open>Math.round\<close> rounds a half up.\<close>

definition nextPollDelay :: "int \<Rightarrow> int" where
  "nextPollDelay attempt =
     (let delay = of_int WALLET_POLL_MIN_MS * (3 / 2 :: rat) ^ nat (max 0 attempt) in
      min \<lfloor>delay + 1 / 2\<rfloor> WALLET_POLL_MAX_MS)"

definition narratesPrompt :: "WalletStatus \<Rightarrow> bool" where
  "narratesPrompt status =
     (case status of AwaitingWallet _ _ \<Rightarrow> True | PromptUnanswered _ _ _ \<Rightarrow> True | _ \<Rightarrow> False)"

definition shouldAdoptProbe :: "WalletStatus \<Rightarrow> WalletStatus \<Rightarrow> bool" where
  "shouldAdoptProbe current probed \<longleftrightarrow>
     (if statusAccount probed \<noteq> None then True
      else if \<not> narratesPrompt current then True
      else probed = NoExtension \<or> probed = NotInitialized \<or> probed = StaleExtension)"

fun stateTag :: "WalletStatus \<Rightarrow> nat" where
  "stateTag Detecting = 0"
| "stateTag NoExtension = 1"
| "stateTag NotInitialized = 2"
| "stateTag WalletLocked = 3"
| "stateTag NotConnected = 4"
| "stateTag (AwaitingWallet _ _) = 5"
| "stateTag (PromptUnanswered _ _ _) = 6"
| "stateTag StaleExtension = 7"
| "stateTag (Unavailable _) = 8"
| "stateTag (UnsupportedAccount _) = 9"
| "stateTag (Connected _) = 10"

definition sameWalletStatus :: "WalletStatus \<Rightarrow> WalletStatus \<Rightarrow> bool" where
  "sameWalletStatus a b \<longleftrightarrow>
     (if stateTag a \<noteq> stateTag b then False
      else case (statusAccount a, statusAccount b) of
        (Some x, Some y) \<Rightarrow> ca_archAddress x = ca_archAddress y \<and> ca_kind x = ca_kind y
      | (None, None) \<Rightarrow>
          (case (a, b) of
             (AwaitingWallet i r, AwaitingWallet j q) \<Rightarrow> i = j \<and> r = q
           | (PromptUnanswered i r d, PromptUnanswered j q e) \<Rightarrow> i = j \<and> r = q \<and> d = e
           | (Unavailable d, Unavailable e) \<Rightarrow> d = e
           | _ \<Rightarrow> True)
      | _ \<Rightarrow> False)"

section \<open>Prompts (wallet-gateway.ts)\<close>

definition PROMPT_GUARD_MAX_MS :: int where "PROMPT_GUARD_MAX_MS = 130000"

text \<open>The counter of prompts and the open ones with the time at which they stop counting.\<close>

record gateway =
  gw_latestPromptId :: nat
  gw_openPrompts :: "(nat \<times> int) list"

definition walletPrompt :: "int \<Rightarrow> gateway \<Rightarrow> nat \<times> gateway" where
  "walletPrompt t g =
     (let pid = Suc (gw_latestPromptId g) in
      (pid, g\<lparr>gw_latestPromptId := pid, gw_openPrompts := gw_openPrompts g @ [(pid, t + PROMPT_GUARD_MAX_MS)]\<rparr>))"

definition closePrompt :: "nat \<Rightarrow> gateway \<Rightarrow> gateway" where
  "closePrompt pid g = g\<lparr>gw_openPrompts := filter (\<lambda>(i, _). i \<noteq> pid) (gw_openPrompts g)\<rparr>"

definition isWalletPromptInFlight :: "int \<Rightarrow> gateway \<Rightarrow> bool \<times> gateway" where
  "isWalletPromptInFlight t g =
     (let live = filter (\<lambda>(_, expiresAt). \<not> expiresAt \<le> t) (gw_openPrompts g) in
      (live \<noteq> [], g\<lparr>gw_openPrompts := live\<rparr>))"

definition isCurrentWalletPrompt :: "nat \<Rightarrow> gateway \<Rightarrow> bool" where
  "isCurrentWalletPrompt pid g \<longleftrightarrow> pid = gw_latestPromptId g"

section \<open>Readings\<close>

text \<open>What a reading or an answer can and cannot say.\<close>

lemma answeredStatus_cases:
  "fst (answeredStatus B raw s) = (case normalizeAccount raw of
     Some a \<Rightarrow> if isSignableAccount a then Connected a else UnsupportedAccount a | None \<Rightarrow> NotConnected)"
  by (simp add: answeredStatus_def accountStatus_def Let_def split: option.splits prod.splits)

lemma statusFromError_account [simp]: "statusAccount (statusFromError e) = None"
  by (simp add: statusFromError_def statusAccount_def Let_def split: option.splits WalletBlockerKind.splits)

lemma statusFromError_plain: "\<not> narratesPrompt (statusFromError e) \<and> statusFromError e \<noteq> Detecting"
  by (simp add: statusFromError_def narratesPrompt_def Let_def split: option.splits WalletBlockerKind.splits)

lemma probe_not_narrating: "\<not> narratesPrompt (fst (probeWalletStatus B read s))"
  using statusFromError_plain
  by (auto simp: probeWalletStatus_def answeredStatus_cases resolveAmbiguousLock_def narratesPrompt_def Let_def
      split: wallet_read.splits wallet_answer.splits option.splits WalletStatus.splits)

lemma probe_connected:
  "fst (probeWalletStatus B read s) = Connected a \<longleftrightarrow>
   (\<exists>raw. read = ReadAnswer (Answered raw) \<and> normalizeAccount raw = Some a \<and> isSignableAccount a)"
proof (cases read)
  case (ReadAnswer answer)
  then show ?thesis
  proof (cases answer)
    case (Refused e)
    have "statusFromError e \<noteq> Connected a" using statusFromError_account [of e] by (auto simp: statusAccount_def)
    then show ?thesis
      by (simp add: ReadAnswer Refused probeWalletStatus_def resolveAmbiguousLock_def Let_def)
  qed (auto simp: probeWalletStatus_def answeredStatus_cases split: option.splits)
qed (simp_all add: probeWalletStatus_def)

lemma promptFailureStatus_quiet:
  "promptFailureStatus e intent \<noteq> Connected a" "promptFailureStatus e intent \<noteq> AwaitingWallet i r"
  using statusFromError_account [of e] statusFromError_plain [of e]
  by (auto simp: promptFailureStatus_def statusAccount_def narratesPrompt_def split: option.splits WalletStatus.splits)

lemma connectSettled_connected:
  "fst (connectSettled B intent answer s) = Connected a \<longleftrightarrow>
   (\<exists>raw. answer = Some (Answered raw) \<and> normalizeAccount raw = Some a \<and> isSignableAccount a)"
  using promptFailureStatus_quiet
  by (auto simp: connectSettled_def answeredStatus_cases Let_def split: option.splits wallet_answer.splits if_splits)

lemma connectSettled_not_awaiting: "fst (connectSettled B intent answer s) \<noteq> AwaitingWallet i r"
  using promptFailureStatus_quiet
  by (auto simp: connectSettled_def answeredStatus_cases Let_def split: option.splits wallet_answer.splits)

text \<open>The latch: once \<open>connect()\<close> has said that the extension holds no wallet, a read never says \<open>locked\<close>.\<close>

lemma probe_locked_unlatched:
  "fst (probeWalletStatus B read s) = WalletLocked \<Longrightarrow> \<not> se_knownNotInitialized (snd (probeWalletStatus B read s))"
  by (auto simp: probeWalletStatus_def answeredStatus_cases resolveAmbiguousLock_def Let_def
      split: wallet_read.splits wallet_answer.splits option.splits if_splits)

lemma nextPollDelay_bounds: "2500 \<le> nextPollDelay n \<and> nextPollDelay n \<le> 15000"
proof -
  have "(1::rat) \<le> (3 / 2) ^ k" for k :: nat by (rule one_le_power) simp
  then have "(2500::rat) \<le> 2500 * (3 / 2) ^ k + 1 / 2" for k :: nat by (simp add: add_increasing2)
  then have "2500 \<le> \<lfloor>2500 * (3 / 2 :: rat) ^ k + 1 / 2\<rfloor>" for k :: nat
    by (simp add: le_floor_iff)
  then show ?thesis by (simp add: nextPollDelay_def WALLET_POLL_MIN_MS_def WALLET_POLL_MAX_MS_def Let_def)
qed

end
