(* ===== verification/Wallet_Notices.thy ===== *)
theory Wallet_Notices
  imports Wallet
begin

text \<open>
  What the page tells the user about the wallet, and what it offers to do: the calls to action of
  \<^verbatim>\<open>wallet-status.ts\<close>, the notices of \<^verbatim>\<open>wallet-state.ts\<close>, and the error that a state stands for. The texts are the
  code's. Every state but the connected one offers exactly one next step; an error raised for a state is
  classified, by its code or by its text alone, as the blocker of that state.
\<close>

section \<open>Actions\<close>

datatype WalletAction =
  Do_unlock | Do_connect | Do_reconnect | Do_reload | Do_retry | Do_adopt | Do_install | Do_chooseWallet

record WalletStatusCta =
  cta_action :: WalletAction
  cta_label :: js_string
  cta_title :: js_string
  cta_message :: js_string
  cta_secondary :: "(WalletAction \<times> js_string) option"

fun intentAction :: "WalletPromptIntent \<Rightarrow> WalletAction" where
  "intentAction Unlock = Do_unlock"
| "intentAction ConnectSite = Do_connect"

fun intentText :: "WalletPromptIntent \<Rightarrow> js_string" where
  "intentText Unlock = js ''unlock''"
| "intentText ConnectSite = js ''connect''"

section \<open>Calls to action (wallet-status.ts)\<close>

definition FIND_THE_WINDOW :: js_string where
  "FIND_THE_WINDOW = (js ''Arch Wallet opens as a separate small window, which can end up behind this '' @ js ''one '' @
     [0x2014] @ js '' check your other windows if you do not see it.'')"

definition cta :: "WalletAction \<Rightarrow> js_string \<Rightarrow> js_string \<Rightarrow> js_string \<Rightarrow> WalletStatusCta" where
  "cta action label title message =
     \<lparr>cta_action = action, cta_label = label, cta_title = title, cta_message = message, cta_secondary = None\<rparr>"

definition promptUnansweredCta :: "WalletPromptIntent \<Rightarrow> WalletPromptFailure \<Rightarrow> WalletStatusCta" where
  "promptUnansweredCta intent reason =
     (let label = (if intent = Unlock then js ''Unlock Arch Wallet'' else js ''Connect wallet'');
          outcome = (if intent = Unlock then js ''unlocked'' else js ''connected'') in
      case reason of
        Dismissed \<Rightarrow> cta (intentAction intent) label (js ''The Arch Wallet window closed'')
          (js ''Arch Wallet closed before it was '' @ outcome @
             js '', so nothing changed and nothing was sent to the network. '' @ FIND_THE_WINDOW)
      | TimedOut \<Rightarrow> cta (intentAction intent) label (js ''Arch Wallet did not answer in time'')
          (js ''The request to Arch Wallet expired before it was '' @ outcome @
             js ''. Nothing was sent to the network. '' @ FIND_THE_WINDOW @ js '' Try again '' @ [0x2014] @
             js '' a fresh request opens a fresh window.'')
      | Errored \<Rightarrow> cta (intentAction intent) label (js ''Arch Wallet could not complete the request'')
          (js ''Arch Wallet returned an error instead of '' @
             (if intent = Unlock then js ''unlocking'' else js ''connecting'') @
             js ''. Nothing was sent to the network. Try again, or reload the page if it keeps '' @
             js ''failing.''))"

definition walletStatusCta :: "WalletStatus \<Rightarrow> WalletStatusCta option" where
  "walletStatusCta status =
     (case status of
        Connected _ \<Rightarrow> None
      | Detecting \<Rightarrow> Some (cta Do_retry (js ''Detecting wallet'' @ [0x2026]) (js ''Looking for Arch Wallet'')
          (js ''Checking whether the Arch Wallet extension is installed on this browser.''))
      | NoExtension \<Rightarrow> Some (cta Do_chooseWallet (js ''Connect wallet'') (js ''Connect a wallet to continue'')
          (js ''Search works without a wallet. Registering and managing names needs a '' @
             js ''connected wallet (Arch Wallet, Xverse, UniSat, Leather, or Phantom) to '' @
             js ''approve the transaction.''))
      | NotInitialized \<Rightarrow> Some ((cta Do_connect (js ''Connect wallet'') (js ''Arch Wallet isn't ready for this site yet'')
          (js ''Arch Wallet is installed, but the extension has no wallet in it that it can '' @
             js ''offer this site '' @ [0x2014] @
             js '' so it is not locked, and there is nothing to unlock. Open Arch Wallet from '' @
             js ''the Chrome toolbar, finish creating or importing a wallet, make sure an '' @
             js ''account is selected on Testnet, then connect again. If you do already have a '' @
             js ''wallet there, check whether a second copy of the Arch Wallet extension is '' @
             js ''installed '' @ [0x2014] @
             js '' only the first one to load can answer this page. Nothing has been sent to '' @
             js ''the network.''))
          \<lparr>cta_secondary := Some (Do_retry, (js ''Check again''))\<rparr>)
      | WalletLocked \<Rightarrow> Some ((cta Do_unlock (js ''Unlock Arch Wallet'') (js ''Arch Wallet is locked'')
          (js ''Your wallet is locked, so it cannot tell this site which account is '' @
             js ''connected. Unlock it here or from the Arch Wallet icon in your Chrome toolbar '' @ [0x2014] @
             js '' either way this page notices within a few seconds and updates itself. '' @
             js ''Nothing has been sent to the network.''))
          \<lparr>cta_secondary := Some (Do_retry, (js ''I've unlocked '' @ [0x2014] @ js '' check again''))\<rparr>)
      | AwaitingWallet intent canReprompt \<Rightarrow> Some (cta (intentAction intent)
          (if canReprompt then (js ''Open Arch Wallet again'') else (js ''Waiting for Arch Wallet'' @ [0x2026])) (js ''Waiting for Arch Wallet'')
          (js ''Arch Wallet has been asked to '' @ intentText intent @
             js '', and the request is open in its window. Finish there and this page updates '' @
             js ''on its own '' @ [0x2014] @ js '' no need to click again. '' @ FIND_THE_WINDOW @
             js '' Nothing has been sent to the network.''))
      | PromptUnanswered intent reason _ \<Rightarrow> Some (promptUnansweredCta intent reason)
      | NotConnected \<Rightarrow> Some (cta Do_chooseWallet (js ''Connect wallet'') (js ''Wallet not connected'')
          (js ''This site is not connected to a wallet yet. Connect Arch Wallet or another '' @
             js ''supported Bitcoin wallet and choose the account you want to use, then '' @ js ''continue.''))
      | StaleExtension \<Rightarrow> Some (cta Do_reload (js ''Reload page'') (js ''Arch Wallet needs a page refresh'')
          (js ''The Arch Wallet extension was updated or reloaded, so this page is still '' @
             js ''holding its old connection to it. Reload this page to reconnect. Nothing was '' @
             js ''sent to the wallet and nothing changed on-chain.''))
      | UnsupportedAccount _ \<Rightarrow> Some (cta Do_reconnect (js ''Switch account'') (js ''This wallet account can't sign'')
          (js ''Arch Wallet is offering a watch-only account, which cannot sign ANS '' @
             js ''transactions. Reconnect and choose an account the extension holds keys for.''))
      | Unavailable _ \<Rightarrow> Some (cta Do_retry (js ''Check wallet again'') (js ''Arch Wallet did not respond'')
          (js ''The extension is installed but did not answer the account check. Try again, '' @
             js ''or reload the page if it keeps failing.'')))"

definition walletStatusError :: "WalletStatus \<Rightarrow> js_error" where
  "walletStatusError status =
     (case status of
        WalletLocked \<Rightarrow> WalletLockedError
      | NotConnected \<Rightarrow> SiteNotConnectedError
      | StaleExtension \<Rightarrow> PlainError (js ''Extension context invalidated. Reload this page and try again.'')
      | NoExtension \<Rightarrow> PlainError (js ''Arch Wallet is not available. Install/enable the Chrome extension, then '' @ js ''reload.'')
      | Detecting \<Rightarrow> PlainError (js ''Arch Wallet is not available. Install/enable the Chrome extension, then '' @ js ''reload.'')
      | NotInitialized \<Rightarrow> PlainError (js ''Arch Wallet has no wallet in it yet. Open the extension and create or import '' @ js ''one.'')
      | AwaitingWallet _ _ \<Rightarrow> PlainError (js ''Arch Wallet is still waiting for you in its own window.'')
      | PromptUnanswered intent reason _ \<Rightarrow> PlainError (cta_message (promptUnansweredCta intent reason))
      | Unavailable detail \<Rightarrow> PlainError detail
      | UnsupportedAccount _ \<Rightarrow> PlainError (js ''This Arch Wallet account cannot sign ANS updates. Switch to an account the '' @
         js ''extension holds keys for.'')
      | Connected _ \<Rightarrow> PlainError (js ''Arch Wallet is connected.''))"

section \<open>Notices (wallet-state.ts)\<close>

record WalletBlockerNotice =
  wn_title :: js_string
  wn_message :: js_string
  wn_action :: "WalletAction option"
  wn_actionLabel :: js_string
  wn_secondary :: "(WalletAction \<times> js_string) option"

record AccountMismatchContext =
  mc_pinnedShort :: js_string
  mc_currentShort :: js_string
  mc_currentKind :: "js_string option"
  mc_signerShort :: "js_string option"

definition notice :: "js_string \<Rightarrow> js_string \<Rightarrow> WalletAction \<Rightarrow> js_string \<Rightarrow> WalletBlockerNotice" where
  "notice title message action label =
     \<lparr>wn_title = title, wn_message = message, wn_action = Some action, wn_actionLabel = label, wn_secondary = None\<rparr>"

text \<open>An empty text counts as absent.\<close>

definition truthyText :: "js_string option \<Rightarrow> js_string option" where
  "truthyText s = (case s of Some [] \<Rightarrow> None | _ \<Rightarrow> s)"

definition signerMismatchNotice :: "js_string \<Rightarrow> AccountMismatchContext option \<Rightarrow> WalletBlockerNotice" where
  "signerMismatchNotice retryLabel context =
     (let payer = map_option mc_pinnedShort context;
          target = (case truthyText payer of
              Some p \<Rightarrow> (p @ js '', the account shown in the header,'')
            | None \<Rightarrow> (js ''the account shown in the header''));
          evidence = (case truthyText (Option.bind context mc_signerShort) of
              Some signer \<Rightarrow> (js ''Arch Wallet produced a valid signature from '' @ signer @
                 js '', but this transaction is paid for by '' @
                 (case payer of Some p \<Rightarrow> p | None \<Rightarrow> js ''another account'') @
                 js '', so the network would reject it.'')
            | None \<Rightarrow> (js ''Arch Wallet's signature does not belong to the account paying for this '' @
               js ''transaction, and does not match any account this browser has seen the wallet '' @
               js ''report.'')) in
      notice (js ''Arch Wallet signed with a different account'')
        (evidence @ js '' We checked before submitting, so nothing was sent to the network and no '' @
           js ''funds moved. This build of Arch Wallet signs with whichever account is active '' @
           js ''in the extension, not the account a site is connected to '' @ [0x2014] @
           js '' reconnecting will not change that. Open Arch Wallet, make '' @ target @
           js '' the active one on its home screen, then '' @ retryLabel @ js '' again.'')
        Do_retry (js ''Check the wallet again''))"

definition isUnsignableKind :: "js_string option \<Rightarrow> bool" where
  "isUnsignableKind kind \<longleftrightarrow> kind = Some (js ''watch'')"

definition accountMismatchNotice :: "js_string \<Rightarrow> AccountMismatchContext option \<Rightarrow> WalletBlockerNotice" where
  "accountMismatchNotice retryLabel context =
     (case context of
        None \<Rightarrow> notice (js ''Wallet account didn't match'')
          (js ''Arch Wallet offered a different account than this page was set up to pay '' @
             js ''with, so nothing was signed and no funds moved. Reconnect the site to the '' @
             js ''account you want to use, then '' @ retryLabel @ js '' again.'')
          Do_reconnect (js ''Reconnect wallet'')
      | Some c \<Rightarrow>
          if isUnsignableKind (mc_currentKind c) then
            notice (js ''This wallet account can't sign'')
              (js ''This page was set up to pay with '' @ mc_pinnedShort c @
                 js '', but Arch Wallet is now offering '' @ mc_currentShort c @
                 js '', which is watch-only and cannot sign ANS transactions. Nothing was signed '' @
                 js ''and no funds moved. Reconnect and choose an account the wallet holds keys '' @
                 js ''for, then '' @ retryLabel @ js '' again.'')
              Do_reconnect (js ''Reconnect wallet'')
          else
            (notice (js ''Arch Wallet switched accounts'')
              (js ''This page was set up to pay with '' @ mc_pinnedShort c @
                 js '', but Arch Wallet is now offering '' @ mc_currentShort c @
                 js ''. Nothing was signed and no funds moved. Use '' @ mc_currentShort c @
                 js '' and we'll rebuild and '' @ retryLabel @
                 js '' with it, or reconnect the site to pick a different account.'')
              Do_adopt (js ''Use '' @ mc_currentShort c @ js '' instead''))
            \<lparr>wn_secondary := Some (Do_reconnect, (js ''Reconnect site''))\<rparr>)"

definition walletBlockerNotice ::
  "WalletBlockerKind \<Rightarrow> js_string \<Rightarrow> AccountMismatchContext option \<Rightarrow> WalletBlockerNotice" where
  "walletBlockerNotice kind retryLabel context =
     (case kind of
        Blocked_locked \<Rightarrow> notice (js ''Arch Wallet is locked'')
          (js ''Your wallet is locked, so nothing was signed and nothing changed on-chain. '' @
             js ''Unlock Arch Wallet below '' @ [0x2014] @
             js '' it opens the extension window for your password '' @ [0x2014] @ js '' then '' @ retryLabel @
             js '' again.'')
          Do_unlock (js ''Unlock Arch Wallet'')
      | Blocked_not_connected \<Rightarrow> notice (js ''Wallet not connected'')
          (js ''This site isn't connected to your Arch Wallet yet. Connect it, then '' @ retryLabel @
             js '' again. Nothing was changed on-chain.'')
          Do_connect (js ''Connect wallet'')
      | Blocked_needs_reconnect \<Rightarrow> accountMismatchNotice retryLabel context
      | Blocked_signer_mismatch \<Rightarrow> signerMismatchNotice retryLabel context
      | Blocked_stale_extension \<Rightarrow> notice (js ''Arch Wallet needs a page refresh'')
          (js ''The Arch Wallet extension was updated or reloaded, so this page is still '' @
             js ''holding its old connection to it. Nothing was sent to the wallet and nothing '' @
             js ''changed on-chain. Reload this page, then '' @ retryLabel @ js '' again.'')
          Do_reload (js ''Reload page'')
      | Blocked_unsupported_kind \<Rightarrow> notice (js ''This wallet account can't sign'')
          (js ''Signing an ANS update needs an Arch Wallet account that can produce a '' @ js ''signature '' @
             [0x2014] @ js '' passkey, email, or a linked Xverse / UniSat wallet. Watch-only accounts '' @
             js ''cannot sign. Reconnect, choose a signing account, then '' @ retryLabel @ js '' again.'')
          Do_reconnect (js ''Reconnect wallet''))"

section \<open>Errors of the model as errors of the wallet\<close>

text \<open>The \<open>code\<close> that the manager's error classes carry, and what \<open>classifyWalletBlocker\<close> sees of an error.\<close>

definition classCode :: "js_error \<Rightarrow> js_string" where
  "classCode e =
     (case e of
        WalletLockedError \<Rightarrow> js ''WALLET_LOCKED''
      | SiteNotConnectedError \<Rightarrow> js ''SITE_NOT_CONNECTED''
      | UnsupportedWalletKindError _ \<Rightarrow> js ''UNSUPPORTED_WALLET_KIND''
      | WalletAccountChangedError _ _ _ _ _ \<Rightarrow> js ''WALLET_ACCOUNT_CHANGED''
      | SignerMismatchError _ _ _ _ _ \<Rightarrow> js ''SIGNER_MISMATCH''
      | TransactionPendingError _ _ \<Rightarrow> js ''TRANSACTION_PENDING''
      | AnsError code _ \<Rightarrow> codeText code
      | _ \<Rightarrow> [])"

fun walletErrorOf :: "js_error \<Rightarrow> wallet_error" where
  "walletErrorOf (AnsStepError _ _ cause) = StepFailure (walletErrorOf cause)"
| "walletErrorOf e = WalletFailure (classCode e) (errorMessage e)"

end
