(* ===== verification/Wallet_Page.thy ===== *)
theory Wallet_Page
  imports Wallet_Notices
begin

text \<open>
  The wallet state of the page: the provider component of \<^verbatim>\<open>hooks/useArchWallet.ts\<close> as a state machine over
  the wallet's operations. Reads, prompts, their answers and the timers come in any order; a step is one turn
  of the event loop. The rule that the page states for itself, never to show an account that the wallet did
  not just name, is an invariant of all reachable states.
\<close>

section \<open>The provider component (hooks/useArchWallet.ts)\<close>

text \<open>Besides what the component keeps, the prompts still unanswered, the ones whose follow-up read is
  still out, and (only to state the invariant) the account that the last reading taken up by the page named.\<close>

record page =
  pg_status :: WalletStatus
  pg_error :: "js_string option"
  pg_connecting :: bool
  pg_connectEpoch :: nat
  pg_walletPickerOpen :: bool
  pg_session :: wallet_session
  pg_gateway :: gateway
  pg_asked :: "(nat \<times> WalletPromptIntent) list"
  pg_following :: "(nat \<times> WalletStatus) list"
  pg_named :: "ConnectedAccount option"

definition initialPage :: "browser \<Rightarrow> page" where
  "initialPage b = \<lparr>pg_status = Detecting, pg_error = None, pg_connecting = False, pg_connectEpoch = 0,
     pg_walletPickerOpen = False, pg_session = \<lparr>se_knownNotInitialized = False, se_browser = b\<rparr>,
     pg_gateway = \<lparr>gw_latestPromptId = 0, gw_openPrompts = []\<rparr>, pg_asked = [], pg_following = [], pg_named = None\<rparr>"

definition bumpConnectEpoch :: "page \<Rightarrow> page" where
  "bumpConnectEpoch p = p\<lparr>pg_connectEpoch := Suc (pg_connectEpoch p)\<rparr>"

definition openWalletPicker :: "page \<Rightarrow> page" where
  "openWalletPicker p = (bumpConnectEpoch p)\<lparr>pg_error := None, pg_walletPickerOpen := True\<rparr>"

definition closeWalletPicker :: "page \<Rightarrow> page" where
  "closeWalletPicker p = p\<lparr>pg_walletPickerOpen := False\<rparr>"

text \<open>The update of \<open>refresh\<close>.\<close>

definition adoptReading :: "WalletStatus \<Rightarrow> WalletStatus \<Rightarrow> WalletStatus" where
  "adoptReading current next =
     (if \<not> shouldAdoptProbe current next then current
      else if sameWalletStatus current next then current else next)"

definition refreshPage :: "base58 \<Rightarrow> wallet_read \<Rightarrow> page \<Rightarrow> page" where
  "refreshPage B read p =
     (let (next, s) = probeWalletStatus B read (pg_session p) in
      p\<lparr>pg_session := s, pg_status := adoptReading (pg_status p) next, pg_named := statusAccount next\<rparr>)"

text \<open>The detection loop gives up.\<close>

definition detectionOver :: "page \<Rightarrow> page" where
  "detectionOver p = p\<lparr>pg_status := NoExtension\<rparr>"

text \<open>\<open>connect(intent)\<close>, up to its first \<open>await\<close>.\<close>

definition connectPage :: "int \<Rightarrow> WalletPromptIntent \<Rightarrow> page \<Rightarrow> page" where
  "connectPage t intent p =
     (let (pid, g) = walletPrompt t (pg_gateway p) in
      (bumpConnectEpoch p)\<lparr>pg_error := None, pg_gateway := g, pg_asked := (pid, intent) # pg_asked p,
        pg_connecting := True, pg_status := AwaitingWallet intent False\<rparr>)"

text \<open>The timer that hands the button back.\<close>

definition offerReprompt :: "nat \<Rightarrow> page \<Rightarrow> page" where
  "offerReprompt pid p =
     (if \<not> isCurrentWalletPrompt pid (pg_gateway p) then p
      else case pg_status p of
        AwaitingWallet intent False \<Rightarrow> p\<lparr>pg_status := AwaitingWallet intent True\<rparr>
      | _ \<Rightarrow> p)"

text \<open>The prompt is answered: a superseded answer is an error; a connected account is shown at once; anything else waits
  for one more read. The session and the entry of the open prompts are the gateway's, which takes note of every answer.\<close>

definition supersededText :: js_string where
  "supersededText = js ''A newer Arch Wallet request replaced this one.''"

definition promptAnswered :: "base58 \<Rightarrow> nat \<Rightarrow> WalletPromptIntent \<Rightarrow> wallet_answer option \<Rightarrow> page \<Rightarrow> page" where
  "promptAnswered B pid intent answer p =
     (let (next, s) = connectSettled B intent answer (pg_session p);
          p' = p\<lparr>pg_session := s, pg_gateway := closePrompt pid (pg_gateway p),
                 pg_asked := filter (\<lambda>(i, _). i \<noteq> pid) (pg_asked p)\<rparr> in
      if \<not> isCurrentWalletPrompt pid (pg_gateway p) then p'\<lparr>pg_error := Some supersededText\<rparr>
      else case next of
        Connected a \<Rightarrow> p'\<lparr>pg_status := next, pg_walletPickerOpen := False, pg_connecting := False, pg_named := Some a\<rparr>
      | _ \<Rightarrow> p'\<lparr>pg_following := (pid, next) # pg_following p\<rparr>)"

text \<open>The read that follows an answer other than \<open>connected\<close>, and how the call ends after it.\<close>

definition followUp :: "base58 \<Rightarrow> nat \<Rightarrow> WalletStatus \<Rightarrow> wallet_read \<Rightarrow> page \<Rightarrow> page" where
  "followUp B pid next read p =
     (let (probed, s) = probeWalletStatus B read (pg_session p);
          next' = (if statusAccount probed \<noteq> None then probed else next);
          p' = p\<lparr>pg_session := s, pg_following := filter (\<lambda>(i, _). i \<noteq> pid) (pg_following p)\<rparr>;
          p'' = (if isCurrentWalletPrompt pid (pg_gateway p)
                 then p'\<lparr>pg_status := next', pg_connecting := False, pg_named := statusAccount probed\<rparr> else p') in
      case next' of
        Connected _ \<Rightarrow> p''\<lparr>pg_walletPickerOpen := False\<rparr>
      | _ \<Rightarrow> p''\<lparr>pg_error := Some (errorMessage (walletStatusError next'))\<rparr>)"

inductive pageStep :: "base58 \<Rightarrow> page \<Rightarrow> page \<Rightarrow> bool" for B where
  refresh: "pageStep B p (refreshPage B read p)"
| detection_over: "pageStep B p (detectionOver p)"
| connect: "pageStep B p (connectPage t intent p)"
| open_picker: "pageStep B p (openWalletPicker p)"
| close_picker: "pageStep B p (closeWalletPicker p)"
| offer_reprompt: "pageStep B p (offerReprompt pid p)"
| prompt_answered: "(pid, intent) \<in> set (pg_asked p) \<Longrightarrow> pageStep B p (promptAnswered B pid intent answer p)"
| follow_up: "(pid, next) \<in> set (pg_following p) \<Longrightarrow> pageStep B p (followUp B pid next read p)"

inductive reachablePage :: "base58 \<Rightarrow> page \<Rightarrow> bool" for B where
  opened: "reachablePage B (initialPage b)"
| stepped: "reachablePage B p \<Longrightarrow> pageStep B p p' \<Longrightarrow> reachablePage B p'"

section \<open>The invariant\<close>

definition sameAccount :: "ConnectedAccount \<Rightarrow> ConnectedAccount \<Rightarrow> bool" where
  "sameAccount a n \<longleftrightarrow> ca_archAddress a = ca_archAddress n \<and> ca_kind a = ca_kind n"

definition shownIsNamed :: "page \<Rightarrow> bool" where
  "shownIsNamed p \<longleftrightarrow> (\<forall>a. pg_status p = Connected a \<longrightarrow> isSignableAccount a \<and> (\<exists>n. pg_named p = Some n \<and> sameAccount a n))"

text \<open>A page that waits for the wallet has the current prompt still out, and nothing else remembers a
  prompt or a connected account.\<close>

definition quietStatus :: "WalletStatus \<Rightarrow> bool" where
  "quietStatus status \<longleftrightarrow> (case status of Connected _ \<Rightarrow> False | AwaitingWallet _ _ \<Rightarrow> False | _ \<Rightarrow> True)"

definition waitsForPrompt :: "page \<Rightarrow> bool" where
  "waitsForPrompt p \<longleftrightarrow>
     (\<forall>i r. pg_status p = AwaitingWallet i r \<longrightarrow>
        gw_latestPromptId (pg_gateway p) \<in> fst ` set (pg_asked p) \<union> fst ` set (pg_following p)) \<and>
     (\<forall>f \<in> set (pg_following p). quietStatus (snd f))"

lemma sameWalletStatus_connected:
  "sameWalletStatus (Connected a) next \<Longrightarrow> \<exists>n. next = Connected n \<and> sameAccount a n"
  by (cases "next") (auto simp: sameWalletStatus_def statusAccount_def sameAccount_def)

lemma adoptReading_cases: "adoptReading current next = current \<or> adoptReading current next = next"
  by (simp add: adoptReading_def)

lemma adoptReading_connected:
  "adoptReading current next = Connected a \<Longrightarrow>
   next = Connected a \<or> (current = Connected a \<and> (\<exists>n. next = Connected n \<and> sameAccount a n))"
  using sameWalletStatus_connected [of a "next"]
  by (auto simp: adoptReading_def shouldAdoptProbe_def narratesPrompt_def split: if_splits)

lemma shownIsNamed_refresh: "shownIsNamed p \<Longrightarrow> shownIsNamed (refreshPage B read p)"
proof -
  assume inv: "shownIsNamed p"
  obtain "next" s where r: "probeWalletStatus B read (pg_session p) = (next, s)" by fastforce
  have signable: "isSignableAccount n" if "next = Connected n" for n
    using probe_connected [of B read "pg_session p" n] r that by auto
  show ?thesis
    unfolding shownIsNamed_def
  proof (intro allI impI)
    fix a assume "pg_status (refreshPage B read p) = Connected a"
    then have "adoptReading (pg_status p) next = Connected a" by (simp add: refreshPage_def r)
    from adoptReading_connected [OF this] inv signable
    show "isSignableAccount a \<and> (\<exists>n. pg_named (refreshPage B read p) = Some n \<and> sameAccount a n)"
      by (auto simp: refreshPage_def r statusAccount_def shownIsNamed_def sameAccount_def)
  qed
qed

lemma followUp_fields:
  assumes "probeWalletStatus B read (pg_session p) = (probed, s)"
  shows "pg_gateway (followUp B pid next read p) = pg_gateway p" "pg_asked (followUp B pid next read p) = pg_asked p"
    "pg_following (followUp B pid next read p) = filter (\<lambda>(i, _). i \<noteq> pid) (pg_following p)"
    "pg_status (followUp B pid next read p) = (if gw_latestPromptId (pg_gateway p) \<noteq> pid then pg_status p
       else if statusAccount probed \<noteq> None then probed else next)"
    "pg_named (followUp B pid next read p) = (if gw_latestPromptId (pg_gateway p) \<noteq> pid then pg_named p else statusAccount probed)"
  by (auto simp: followUp_def assms isCurrentWalletPrompt_def Let_def split: WalletStatus.splits)

lemma shownIsNamed_step:
  assumes "shownIsNamed p" "waitsForPrompt p" "pageStep B p p'"
  shows "shownIsNamed p'"
  using assms(3)
proof (cases rule: pageStep.cases)
  case (refresh read)
  then show ?thesis using shownIsNamed_refresh [OF assms(1)] by simp
next
  case detection_over
  then show ?thesis by (simp add: shownIsNamed_def detectionOver_def)
next
  case (connect t intent)
  then show ?thesis by (simp add: shownIsNamed_def connectPage_def walletPrompt_def Let_def)
next
  case open_picker
  then show ?thesis using assms(1) by (simp add: shownIsNamed_def openWalletPicker_def bumpConnectEpoch_def)
next
  case close_picker
  then show ?thesis using assms(1) by (simp add: shownIsNamed_def closeWalletPicker_def)
next
  case (offer_reprompt pid)
  then show ?thesis
    using assms(1) by (auto simp: shownIsNamed_def offerReprompt_def split: if_splits WalletStatus.splits bool.splits)
next
  case (prompt_answered pid intent answer)
  obtain "next" s where r: "connectSettled B intent answer (pg_session p) = (next, s)" by fastforce
  have "isSignableAccount a" if "next = Connected a" for a
    using connectSettled_connected [of B intent answer "pg_session p" a] r that by auto
  then show ?thesis
    using assms(1) unfolding prompt_answered(1)
    by (cases "next") (auto simp: shownIsNamed_def promptAnswered_def r sameAccount_def Let_def split: if_splits)
next
  case (follow_up pid "next" read)
  obtain probed s where r: "probeWalletStatus B read (pg_session p) = (probed, s)" by fastforce
  have "isSignableAccount a" if "probed = Connected a" for a
    using probe_connected [of B read "pg_session p" a] r that by auto
  moreover have "next \<noteq> Connected a" for a using assms(2) follow_up(2) by (force simp: waitsForPrompt_def quietStatus_def)
  ultimately show ?thesis
    using assms(1) unfolding follow_up(1)
    by (cases probed) (auto simp: shownIsNamed_def followUp_fields [OF r] sameAccount_def statusAccount_def split: if_splits)
qed

lemma adoptReading_awaiting:
  "\<not> narratesPrompt next \<Longrightarrow> adoptReading current next = AwaitingWallet i r \<Longrightarrow> current = AwaitingWallet i r"
  using adoptReading_cases [of current "next"] by (auto simp: narratesPrompt_def)

lemma fst_filter_other: "pid \<in> fst ` set xs \<Longrightarrow> pid \<noteq> j \<Longrightarrow> pid \<in> fst ` set (filter (\<lambda>(i, _). i \<noteq> j) xs)"
  by force

lemma waitsForPromptI:
  assumes "\<And>i r. pg_status p = AwaitingWallet i r \<Longrightarrow>
      gw_latestPromptId (pg_gateway p) \<in> fst ` set (pg_asked p) \<union> fst ` set (pg_following p)"
    and "\<And>f. f \<in> set (pg_following p) \<Longrightarrow> quietStatus (snd f)"
  shows "waitsForPrompt p"
  using assms by (simp add: waitsForPrompt_def)

lemma waitsForPromptD:
  assumes "waitsForPrompt p"
  shows "pg_status p = AwaitingWallet i r \<Longrightarrow>
      gw_latestPromptId (pg_gateway p) \<in> fst ` set (pg_asked p) \<union> fst ` set (pg_following p)"
    and "f \<in> set (pg_following p) \<Longrightarrow> quietStatus (snd f)"
  using assms by (simp_all add: waitsForPrompt_def)

lemma waitsForPrompt_answered:
  assumes "waitsForPrompt p"
  shows "waitsForPrompt (promptAnswered B pid intent answer p)"
proof -
  obtain "next" s where r: "connectSettled B intent answer (pg_session p) = (next, s)" by fastforce
  have quiet: "next \<noteq> AwaitingWallet i q" for i q
    using connectSettled_not_awaiting [of B intent answer "pg_session p"] r by simp
  let ?p = "p\<lparr>pg_session := s, pg_gateway := closePrompt pid (pg_gateway p),
      pg_asked := filter (\<lambda>(i, _). i \<noteq> pid) (pg_asked p)\<rparr>"
  have eq: "promptAnswered B pid intent answer p =
      (if gw_latestPromptId (pg_gateway p) \<noteq> pid then ?p\<lparr>pg_error := Some supersededText\<rparr>
       else if \<exists>a. next = Connected a
       then ?p\<lparr>pg_status := next, pg_walletPickerOpen := False, pg_connecting := False, pg_named := statusAccount next\<rparr>
       else ?p\<lparr>pg_following := (pid, next) # pg_following p\<rparr>)"
    by (cases "next") (simp_all add: promptAnswered_def r isCurrentWalletPrompt_def statusAccount_def eq_commute)
  have gw: "gw_latestPromptId (closePrompt pid g) = gw_latestPromptId g" for g by (simp add: closePrompt_def)
  show ?thesis
  proof (cases "gw_latestPromptId (pg_gateway p) = pid")
    case True
    show ?thesis
    proof (cases "\<exists>a. next = Connected a")
      case True
      then show ?thesis unfolding eq using \<open>_ = pid\<close>
        by (intro waitsForPromptI) (use waitsForPromptD(2) [OF assms] in auto)
    next
      case False
      then have "quietStatus next" using quiet by (auto simp: quietStatus_def split: WalletStatus.splits)
      then show ?thesis unfolding eq using \<open>_ = pid\<close> False
        by (intro waitsForPromptI) (use waitsForPromptD(2) [OF assms] gw in auto)
    qed
  next
    case False
    have "waitsForPrompt ?p"
    proof (rule waitsForPromptI)
      fix i q assume "pg_status ?p = AwaitingWallet i q"
      then have "gw_latestPromptId (pg_gateway p) \<in> fst ` set (pg_asked p) \<union> fst ` set (pg_following p)"
        using waitsForPromptD(1) [OF assms] by simp
      then show "gw_latestPromptId (pg_gateway ?p) \<in> fst ` set (pg_asked ?p) \<union> fst ` set (pg_following ?p)"
        using fst_filter_other [OF _ False] gw by auto
    qed (use waitsForPromptD(2) [OF assms] in simp)
    then show ?thesis unfolding eq using False by (simp add: waitsForPrompt_def)
  qed
qed

lemma waitsForPrompt_followUp:
  assumes "waitsForPrompt p" "(pid, next) \<in> set (pg_following p)"
  shows "waitsForPrompt (followUp B pid next read p)"
proof -
  obtain probed s where r: "probeWalletStatus B read (pg_session p) = (probed, s)" by fastforce
  have quiet: "probed \<noteq> AwaitingWallet i q" "next \<noteq> AwaitingWallet i q" for i q
    using probe_not_narrating [of B read "pg_session p"] r waitsForPromptD(2) [OF assms]
    by (auto simp: narratesPrompt_def quietStatus_def)
  note eq = followUp_fields [OF r, of pid "next"]
  show ?thesis
  proof (rule waitsForPromptI)
    fix i q assume aw: "pg_status (followUp B pid next read p) = AwaitingWallet i q"
    then have other: "gw_latestPromptId (pg_gateway p) \<noteq> pid" using quiet unfolding eq by (auto split: if_splits)
    with aw have "gw_latestPromptId (pg_gateway p) \<in> fst ` set (pg_asked p) \<union> fst ` set (pg_following p)"
      using waitsForPromptD(1) [OF assms(1)] unfolding eq by simp
    then show "gw_latestPromptId (pg_gateway (followUp B pid next read p)) \<in>
        fst ` set (pg_asked (followUp B pid next read p)) \<union> fst ` set (pg_following (followUp B pid next read p))"
      using fst_filter_other [OF _ other] unfolding eq by auto
  qed (use waitsForPromptD(2) [OF assms(1)] in \<open>auto simp: eq\<close>)
qed

lemma waitsForPrompt_step:
  assumes "waitsForPrompt p" "pageStep B p p'"
  shows "waitsForPrompt p'"
  using assms(2)
proof (cases rule: pageStep.cases)
  case (refresh read)
  obtain "next" s where r: "probeWalletStatus B read (pg_session p) = (next, s)" by fastforce
  have "\<not> narratesPrompt next" using probe_not_narrating [of B read "pg_session p"] by (simp add: r)
  note aw = adoptReading_awaiting [OF this]
  show ?thesis
    unfolding refresh(1)
  proof (rule waitsForPromptI)
    fix i q assume "pg_status (refreshPage B read p) = AwaitingWallet i q"
    then have "pg_status p = AwaitingWallet i q" using aw by (simp add: refreshPage_def r)
    from waitsForPromptD(1) [OF assms(1) this]
    show "gw_latestPromptId (pg_gateway (refreshPage B read p)) \<in>
        fst ` set (pg_asked (refreshPage B read p)) \<union> fst ` set (pg_following (refreshPage B read p))"
      by (simp add: refreshPage_def r)
  qed (use waitsForPromptD(2) [OF assms(1)] in \<open>simp add: refreshPage_def r\<close>)
next
  case detection_over
  then show ?thesis using assms(1) by (simp add: waitsForPrompt_def detectionOver_def)
next
  case (connect t intent)
  then show ?thesis using assms(1) by (simp add: waitsForPrompt_def connectPage_def walletPrompt_def bumpConnectEpoch_def Let_def)
next
  case open_picker
  then show ?thesis using assms(1) by (simp add: waitsForPrompt_def openWalletPicker_def bumpConnectEpoch_def)
next
  case close_picker
  then show ?thesis using assms(1) by (simp add: waitsForPrompt_def closeWalletPicker_def)
next
  case (offer_reprompt pid)
  then show ?thesis
    using assms(1) by (auto simp: waitsForPrompt_def offerReprompt_def split: if_splits WalletStatus.splits bool.splits)
next
  case (prompt_answered pid intent answer)
  then show ?thesis using waitsForPrompt_answered [OF assms(1)] by simp
next
  case (follow_up pid "next" read)
  then show ?thesis using waitsForPrompt_followUp [OF assms(1)] by simp
qed

lemma reachable_page: "reachablePage B p \<Longrightarrow> shownIsNamed p \<and> waitsForPrompt p"
proof (induction rule: reachablePage.induct)
  case (opened b)
  show ?case by (simp add: shownIsNamed_def waitsForPrompt_def initialPage_def)
next
  case (stepped p p')
  then show ?case using shownIsNamed_step waitsForPrompt_step by blast
qed

text \<open>C14. The page never shows an account the wallet did not just name, and never waits for nothing. In every
  reachable state, in any order of reads, clicks, answers and timers: if a submission is allowed, the account
  on screen can sign and is, by address and kind, the one that the last reading the page took up named; if
  the page says it waits for the wallet, the current prompt or its follow-up read is still out; and the answer of
  a superseded prompt leaves the status, the busy button and the reads that are out as they are, whatever it names: all
  it shows is the error that a newer request has replaced it.\<close>

theorem wallet_page_invariant:
  assumes "reachablePage B p"
  shows "(canSubmit (pg_status p) \<longrightarrow> (\<exists>a n. pg_status p = Connected a \<and> isSignableAccount a \<and> pg_named p = Some n \<and>
       ca_archAddress a = ca_archAddress n \<and> ca_kind a = ca_kind n)) \<and>
    (\<forall>i r. pg_status p = AwaitingWallet i r \<longrightarrow>
       gw_latestPromptId (pg_gateway p) \<in> fst ` set (pg_asked p) \<union> fst ` set (pg_following p)) \<and>
    (pid \<noteq> gw_latestPromptId (pg_gateway p) \<longrightarrow>
       (let p' = promptAnswered B pid intent answer p in
        pg_status p' = pg_status p \<and> pg_connecting p' = pg_connecting p \<and> pg_following p' = pg_following p \<and>
        pg_named p' = pg_named p \<and> pg_error p' = Some (js ''A newer Arch Wallet request replaced this one.'')))"
proof -
  have "let p' = promptAnswered B pid intent answer p in
      pg_status p' = pg_status p \<and> pg_connecting p' = pg_connecting p \<and> pg_following p' = pg_following p \<and>
      pg_named p' = pg_named p \<and> pg_error p' = Some supersededText" if "pid \<noteq> gw_latestPromptId (pg_gateway p)"
    using that by (simp add: promptAnswered_def isCurrentWalletPrompt_def Let_def split: prod.splits)
  then show ?thesis
    using reachable_page [OF assms] unfolding supersededText_def
    by (auto simp: shownIsNamed_def waitsForPrompt_def sameAccount_def canSubmit_def split: WalletStatus.splits)
qed

definition sampleRaw :: raw_account where
  "sampleRaw = \<lparr>ra_address = None, ra_publicKey = None, ra_archAddress = Some (hexAccount 5), ra_kind = None,
     ra_providerId = None, ra_providerLabel = None\<rparr>"

theorem wallet_page_invariant_witness:
  "\<exists>p. reachablePage noBase58 p \<and> canSubmit (pg_status p) \<and> (\<exists>n. pg_named p = Some n \<and> ca_archAddress n = hexAccount 5)"
proof -
  let ?b = "\<lparr>br_blocked = False, br_seen = None, br_observation = None\<rparr>"
  let ?p = "refreshPage noBase58 (ReadAnswer (Answered (Some sampleRaw))) (initialPage ?b)"
  have "hexAccount 5 \<noteq> []" using keyOf_hexAccount [of noBase58 5] by force
  then have n: "normalizeAccount (Some sampleRaw) = Some \<lparr>ca_address = [], ca_publicKey = [], ca_archAddress = hexAccount 5,
      ca_kind = None, ca_providerId = None, ca_providerLabel = None\<rparr>"
    by (simp add: normalizeAccount_def sampleRaw_def)
  have r: "reachablePage noBase58 ?p" by (rule stepped [OF opened refresh])
  have c: "pg_status ?p = Connected (the (normalizeAccount (Some sampleRaw)))"
    using n answeredStatus_cases [of noBase58 "Some sampleRaw" "\<lparr>se_knownNotInitialized = False, se_browser = ?b\<rparr>"]
    by (auto simp: refreshPage_def initialPage_def probeWalletStatus_def adoptReading_def shouldAdoptProbe_def
        narratesPrompt_def sameWalletStatus_def isSignableAccount_def split: prod.splits)
  then have "canSubmit (pg_status ?p)" by (simp add: canSubmit_def)
  moreover from this obtain a m where "pg_status ?p = Connected a" "pg_named ?p = Some m" "ca_archAddress a = ca_archAddress m"
    using wallet_page_invariant [OF r] by blast
  ultimately show ?thesis using r c n by (intro exI [of _ ?p]) auto
qed

end
