(* ===== verification/Submit_Text.thy ===== *)
theory Submit_Text
  imports Wallet_Notices Runner
begin

text \<open>
  The errors and the texts of a submission: the address helpers, the error classes and the messages of
  \<^verbatim>\<open>ans.ts\<close>, and \<^verbatim>\<open>register-approvals.ts\<close>. The texts are the code's. An error that a step wraps keeps the
  blocker it is classified as, though only its text survives.
\<close>

section \<open>Addresses\<close>

definition decodeArchAddress :: "base58 \<Rightarrow> js_string \<Rightarrow> js_error + bytes" where
  "decodeArchAddress B v =
     (let trimmed = trim v in
      if length trimmed = 64 \<and> list_all isHexDigit trimmed then Inr (hexPairs trimmed) else b58_decode B trimmed)"

definition requireArchKey :: "base58 \<Rightarrow> js_string \<Rightarrow> js_error + bytes" where
  "requireArchKey B archAddress =
     (case canonicalArchKey B (Some archAddress) of
        Some key \<Rightarrow> Inr key
      | None \<Rightarrow> Inl (PlainError (js ''Arch Wallet returned an address this app cannot read as an account key: '' @ archAddress)))"

definition archAddressesEqual :: "base58 \<Rightarrow> js_string \<Rightarrow> js_string \<Rightarrow> bool" where
  "archAddressesEqual B a b = archIdentitiesEqual B (Some a) (Some b)"

section \<open>Actions and their labels\<close>

datatype ManageAction =
  SetPrimaryAction | ClearPrimaryAction | SetArchOwnerAction | SetTaprootAction | TransferAction | ListAction
| CancelListingAction | BuyAction | MakeOfferAction | CancelOfferAction | AcceptOfferAction | RegisterAction

text \<open>\<open>MANAGE_ACTIONS\<close> with the two tables indexed by it: the label, the failure title and the retry label.\<close>

definition MANAGE_ACTIONS :: "(ManageAction \<times> js_string \<times> js_string \<times> js_string) list" where
  "MANAGE_ACTIONS =
     [(SetPrimaryAction, (js ''Set as primary name''), (js ''Set as primary failed''), (js ''Set as primary'')),
      (ClearPrimaryAction, (js ''Cleared primary name''), (js ''Clear primary failed''), (js ''Clear primary'')),
      (SetArchOwnerAction, (js ''Updated Arch wallet record''), (js ''Update Arch wallet record failed''), (js ''Use connected wallet'')),
      (SetTaprootAction, (js ''Updated Bitcoin Taproot record''), (js ''Update Taproot record failed''), (js ''Update Taproot record'')),
      (TransferAction, (js ''Transferred name''), (js ''Transfer failed''), (js ''Transfer name'')),
      (ListAction, (js ''Listed name for sale''), (js ''List for sale failed''), (js ''List for sale'')),
      (CancelListingAction, (js ''Cancelled listing''), (js ''Cancel listing failed''), (js ''Cancel listing'')),
      (BuyAction, (js ''Purchased name''), (js ''Purchase failed''), (js ''Buy name'')),
      (MakeOfferAction, (js ''Made offer''), (js ''Make offer failed''), (js ''Make offer'')),
      (CancelOfferAction, (js ''Cancelled offer''), (js ''Cancel offer failed''), (js ''Cancel offer'')),
      (AcceptOfferAction, (js ''Accepted offer''), (js ''Accept offer failed''), (js ''Accept offer'')),
      (RegisterAction, (js ''Register name''), (js ''Registration failed''), (js ''Register''))]"

definition FAILURE_TITLES :: "js_string \<rightharpoonup> js_string" where
  "FAILURE_TITLES = map_of (map (\<lambda>(_, label, failure, _). (label, failure)) MANAGE_ACTIONS)"

definition RETRY_LABELS :: "js_string \<rightharpoonup> js_string" where
  "RETRY_LABELS = map_of (map (\<lambda>(_, label, _, retry). (label, retry)) MANAGE_ACTIONS)"

definition mutationFailureTitle :: "js_string option \<Rightarrow> js_string" where
  "mutationFailureTitle action =
     (case Option.bind (truthyText action) FAILURE_TITLES of Some t \<Rightarrow> t | None \<Rightarrow> (js ''Update failed''))"

definition mutationRetryLabel :: "js_string option \<Rightarrow> js_string" where
  "mutationRetryLabel action =
     (case Option.bind (truthyText action) RETRY_LABELS of Some t \<Rightarrow> t | None \<Rightarrow> (js ''your action''))"

definition submitFailureTitle :: "js_error \<Rightarrow> js_string option \<Rightarrow> js_string" where
  "submitFailureTitle error action =
     (case error of
        AnsStepError AccountSetup _ _ \<Rightarrow> (js ''Arch account setup failed'')
      | _ \<Rightarrow> mutationFailureTitle action)"

section \<open>Captions and notices\<close>

definition approvalCaption :: "SubmitProgress option \<Rightarrow> js_string option" where
  "approvalCaption progress =
     (case progress of
        None \<Rightarrow> None
      | Some p \<Rightarrow>
          if sp_approvalTotal p < 2 then None
          else Some (js ''Approval '' @ decimal (sp_approvalIndex p) @ js '' of '' @ decimal (sp_approvalTotal p)))"

definition approvalNotice :: "SubmitProgress option \<Rightarrow> js_string \<Rightarrow> (js_string \<times> js_string) option" where
  "approvalNotice progress subject =
     (case progress of
        None \<Rightarrow> None
      | Some p \<Rightarrow>
          if sp_confirming p then None
          else if sp_attempt p > 1 then Some ((js ''One more approval needed''),
            (js ''Arch Wallet signed with a different account than the one it reports to this '' @
               js ''site, so the '' @ subject @
               js '' was rebuilt to pay with the account that actually signed. The first '' @
               js ''signature was checked here and never submitted '' @ [0x2014] @
               js '' nothing was sent to the network. Approve once more in Arch Wallet; later '' @
               js ''actions will ask only once.''))
          else if sp_approvalTotal p < 2 then None
          else Some (((case approvalCaption progress of Some c \<Rightarrow> c | None \<Rightarrow> js ''null'') @
             js '' '' @ [0x2014] @ js '' approve in Arch Wallet''),
            (if sp_phase p = AccountSetup
             then (js ''Your Arch account does not exist on-chain yet, so it cannot pay for this '' @ subject @
                js '' until it is created. Approve the account-setup transaction now; a second '' @
                js ''approval follows for the '' @ subject @ js '' itself. This happens once per wallet account.'')
             else (js ''Approve the '' @ subject @
                js '' in the Arch Wallet window. Both approvals use the same account shown in the '' @
                js ''header.''))))"

definition confirmingNotice :: "SubmitProgress option \<Rightarrow> js_string \<Rightarrow> (js_string \<times> js_string) option" where
  "confirmingNotice progress subject =
     (case progress of
        Some p \<Rightarrow>
          if sp_confirming p then Some ((js ''Waiting for the network to confirm'' @ [0x2026]),
            (js ''Arch has your '' @ subject @ js '' '' @ [0x2014] @
               js '' nothing more to approve. Confirmation on testnet usually takes a few seconds '' @
               js ''and occasionally up to a minute. Leave this page open.''))
          else None
      | None \<Rightarrow> None)"

definition pendingConfirmationMessage :: "js_string \<Rightarrow> js_string" where
  "pendingConfirmationMessage subject =
     (js ''Arch accepted the '' @ subject @
        js '', but it had not shown up as confirmed by the time this page stopped waiting. '' @
        js ''That is usually just indexing lag '' @ [0x2014] @
        js '' the change may well have landed. Reload in a minute to see the current '' @
        js ''state. Trying again is safe either way.'')"

section \<open>Approvals of a registration (register-approvals.ts)\<close>

definition registrationApprovalCopy :: "SubmitProgress option \<Rightarrow> js_string option \<Rightarrow> js_string \<times> js_string" where
  "registrationApprovalCopy progress name =
     (let registration = (case truthyText name of Some n \<Rightarrow> (js ''register '' @ n) | None \<Rightarrow> (js ''register your .arch name''));
          usual = ((js ''Usually 1 approval''),
            (js ''If this is your account's first on-chain action, you'' @ [0x2019] @
               js ''ll approve one-time Arch account setup first, then approve the name '' @ js ''registration.'')) in
      case progress of
        None \<Rightarrow> usual
      | Some p \<Rightarrow>
          if sp_attempt p > 1 then
            ((js ''One more approval '' @ [0x2014] @ js '' Arch Wallet used a different active account''),
             (js ''ANS rebuilt the registration for the account that actually signed. Your first '' @
                js ''signature was discarded here and nothing was submitted with it.''))
          else if sp_approvalTotal p = 2 then
            (if sp_phase p = AccountSetup then
               ((js ''Approval 1 of 2 '' @ [0x2014] @ js '' create your Arch account''),
                (js ''This one-time setup comes first. Next, approve once more to '' @ registration @ js ''.''))
             else
               ((js ''Approval 2 of 2 '' @ [0x2014] @ js '' '' @ registration),
                (js ''Your Arch account is ready. This approval registers the name.'')))
          else if sp_approvalTotal p = 1 then
            ((js ''1 approval '' @ [0x2014] @ js '' '' @ registration), (js ''Approve the registration in Arch Wallet.''))
          else usual)"

section \<open>Errors\<close>

text \<open>\<open>Math.round\<close> of a quotient by 1000.\<close>

definition describeSwitchContext :: "int \<Rightarrow> AccountSwitchContext \<Rightarrow> js_string" where
  "describeSwitchContext t context =
     (let age = max 0 ((t - sc_pinnedAt context + 500) div 1000) in
      (js ''Fee payer fixed '' @ showInt age @ js ''s ago from the '' @
         (case sc_pinSource context of Reported \<Rightarrow> js ''reported'' | Observed \<Rightarrow> js ''observed'') @
         js '' account, at '' @ sc_checkpoint context @ js '', after '' @
         decimal (sc_approvalsCompleted context) @ js '' approval'' @
         (if sc_approvalsCompleted context = 1 then [] else js ''s'') @ js ''.''))"

definition walletAccountChangedError ::
  "base58 \<Rightarrow> int \<Rightarrow> js_string \<Rightarrow> js_string \<Rightarrow> ConnectedAccount option \<Rightarrow> AccountSwitchContext \<Rightarrow> js_error" where
  "walletAccountChangedError B t previous current account context =
     WalletAccountChangedError previous current account context
       (js ''Connected wallet account changed mid-flow. This action was set up to pay with '' @
          archIdentityFingerprint B (Some previous) @ js '', but Arch Wallet is now offering '' @
          archIdentityFingerprint B (Some current) @ js ''. '' @ describeSwitchContext t context @
          js '' Nothing further was signed and nothing was submitted.'')"

definition signerMismatchError :: "base58 \<Rightarrow> js_string \<Rightarrow> js_string option \<Rightarrow> SignerProbe list \<Rightarrow> nat \<Rightarrow> js_error" where
  "signerMismatchError B payer signer probes approvalsCompleted =
     SignerMismatchError payer signer probes approvalsCompleted
       (case truthyText signer of
          Some s \<Rightarrow> (js ''Arch Wallet signed with '' @ archIdentityFingerprint B (Some s) @ js '', not '' @
             archIdentityFingerprint B (Some payer) @
             js '', which is paying for this transaction. Verified locally before submitting; '' @
             js ''nothing was sent to the network and nothing changed on-chain.'')
        | None \<Rightarrow> (js ''Arch Wallet's signature does not verify against '' @ archIdentityFingerprint B (Some payer) @
           js '', the account paying for this transaction, and does not match any account '' @
           js ''this browser has seen the wallet report. Verified locally before submitting; '' @
           js ''nothing was sent to the network and nothing changed on-chain.''))"

definition unwrapStepError :: "js_error \<Rightarrow> js_error" where
  "unwrapStepError error = (case error of AnsStepError _ _ cause \<Rightarrow> cause | e \<Rightarrow> e)"

definition isSignerMismatchError :: "js_error \<Rightarrow> bool" where
  "isSignerMismatchError error \<longleftrightarrow> (case unwrapStepError error of SignerMismatchError _ _ _ _ _ \<Rightarrow> True | _ \<Rightarrow> False)"

record AccountMismatch =
  am_pinnedArchAddress :: js_string
  am_currentArchAddress :: js_string
  am_pinnedShort :: js_string
  am_currentShort :: js_string
  am_currentKind :: "js_string option"

definition accountMismatchFromError :: "js_error \<Rightarrow> AccountMismatch option" where
  "accountMismatchFromError error =
     (case unwrapStepError error of
        WalletAccountChangedError previous current account _ _ \<Rightarrow> Some
          \<lparr>am_pinnedArchAddress = previous, am_currentArchAddress = current,
           am_pinnedShort = shortArchAddress (Some previous) 6, am_currentShort = shortArchAddress (Some current) 6,
           am_currentKind = Option.bind account ca_kind\<rparr>
      | _ \<Rightarrow> None)"

text \<open>The short forms of the payer and, where a key was recognised, of the signer.\<close>

definition signerMismatchFromError :: "js_error \<Rightarrow> (js_string \<times> js_string option) option" where
  "signerMismatchFromError error =
     (case unwrapStepError error of
        SignerMismatchError payer signer _ _ _ \<Rightarrow> Some
          (shortArchAddress (Some payer) 6, map_option (\<lambda>s. shortArchAddress (Some s) 6) (truthyText signer))
      | _ \<Rightarrow> None)"

definition isWalletAccountChangedError :: "js_error \<Rightarrow> bool" where
  "isWalletAccountChangedError error \<longleftrightarrow>
     (case error of WalletAccountChangedError _ _ _ _ _ \<Rightarrow> True | _ \<Rightarrow> False) \<or>
     matchesFolded (errorMessage error) (js ''wallet account changed'')"

definition isUnsupportedWalletKindError :: "js_error \<Rightarrow> bool" where
  "isUnsupportedWalletKindError error \<longleftrightarrow> (case error of UnsupportedWalletKindError _ \<Rightarrow> True | _ \<Rightarrow> False)"

definition isSignatureMismatchError :: "js_error \<Rightarrow> bool" where
  "isSignatureMismatchError error = matchesAny
     [js ''error checking transaction sigs'', js ''bip322 signature verification failed'',
      js ''signature did not match''] (errorMessage error)"

definition isLinkedExternalSigningError :: "js_error \<Rightarrow> bool" where
  "isLinkedExternalSigningError error = matchesAny
     [js ''linked external'',
      js ''raw arch message-hash signing is not yet supported for linked external''] (errorMessage error)"

definition needsWalletReconnect :: "js_error \<Rightarrow> bool" where
  "needsWalletReconnect error \<longleftrightarrow>
     isWalletAccountChangedError error \<or> isSignatureMismatchError error \<or> isLinkedExternalSigningError error \<or>
     isUnsupportedWalletKindError error"

definition accountMismatchUserMessage :: "js_string option \<Rightarrow> AccountMismatch option \<Rightarrow> js_string" where
  "accountMismatchUserMessage action mismatch =
     (let retry = mutationRetryLabel action in
      case mismatch of
        Some m \<Rightarrow> (js ''This page was set up to pay with '' @ am_pinnedShort m @
           js '', but Arch Wallet is now offering '' @ am_currentShort m @
           js ''. Nothing was signed and no funds moved. Switch this page to '' @ am_currentShort m @
           js '' and '' @ retry @ js '' again, or reconnect the site to pick a different account.'')
      | None \<Rightarrow> (js ''Arch Wallet offered a different account than this page was set up to pay '' @
         js ''with, so nothing was signed and no funds moved. Reconnect the site to the '' @
         js ''account you want to use, then '' @ retry @ js '' again.''))"

definition assertAnsSigningSupported :: "ConnectedAccount \<Rightarrow> js_error + unit" where
  "assertAnsSigningSupported account =
     guardR (\<not> isSignableAccount account)
       (UnsupportedWalletKindError (case ca_kind account of Some k \<Rightarrow> k | None \<Rightarrow> [])) (Inr ())"

section \<open>formatAnsMutationError\<close>

text \<open>The branches for an error that is not a step's.\<close>

definition mutationErrorText :: "(js_error \<Rightarrow> js_error option) \<Rightarrow> js_error \<Rightarrow> js_string" where
  "mutationErrorText causeOf error =
     (let raw = errorMessage error in
      if isWalletAccountChangedError error \<or> isUnsupportedWalletKindError error \<or> isSignerMismatchError error then raw
      else if anySuffix accountHexNotFound (map lowerUnit raw)
      then (js ''Name lookup failed unexpectedly. Refresh and try again.'')
      else if matchesFolded raw (js ''missing required signature'')
      then (js ''This name is owned by a different Arch account than the one that signed, so '' @
         js ''the network rejected the update. Nothing changed on-chain and no funds moved. '' @
         js ''Open Arch Wallet and make the owning account the active one (the account its '' @
         js ''home screen shows), then try again '' @ [0x2014] @
         js '' or manage a name that belongs to the account you are signing with.'')
      else if isLinkedExternalSigningError error
      then (js ''Arch Wallet could not finish signing with the linked external wallet. Confirm '' @
         js ''the prompt in Xverse or UniSat, or switch to another Arch Wallet account and '' @
         js ''try again.'')
      else if isSignatureMismatchError error
      then (js ''Arch Wallet signed with a different account than the one paying for this '' @
         js ''transaction, so the network rejected it. Nothing changed on-chain. Open Arch '' @
         js ''Wallet, make the account you want to use the active account (the one its home '' @
         js ''screen shows), stay on Testnet, then try again.'')
      else if isTransactionPendingError error \<or> isTransactionNotIndexedError causeOf (ThrownError error)
      then pendingConfirmationMessage (js ''transaction'')
      else if matchesFolded raw (js ''invalid params'')
      then (js ''The Arch testnet RPC endpoint rejected a well-formed '' @
         (case error of ArchRpcError m _ _ _ \<Rightarrow> m | _ \<Rightarrow> js ''RPC'') @
         js '' request as invalid params, which means the endpoint's expected request '' @
         js ''format changed. Nothing was registered and nothing was charged. Retrying will '' @
         js ''not help '' @ [0x2014] @
         js '' report this to the Arch team with the technical details below. ('' @ raw @ js '')'')
      else raw)"

fun formatAnsMutationError :: "(js_error \<Rightarrow> js_error option) \<Rightarrow> js_error \<Rightarrow> js_string" where
  "formatAnsMutationError causeOf (AnsStepError _ _ cause) = formatAnsMutationError causeOf cause"
| "formatAnsMutationError causeOf error = mutationErrorText causeOf error"

section \<open>Blockers survive the wrapping\<close>

text \<open>A text that no branch rewrites.\<close>

definition passesThrough :: "js_string \<Rightarrow> bool" where
  "passesThrough raw \<longleftrightarrow>
     \<not> anySuffix accountHexNotFound (map lowerUnit raw) \<and>
     \<not> list_ex (matchesFolded raw)
       [js ''wallet account changed'', js ''missing required signature'', js ''linked external'',
        js ''raw arch message-hash signing is not yet supported for linked external'',
        js ''error checking transaction sigs'', js ''bip322 signature verification failed'',
        js ''signature did not match'', js ''invalid params''] \<and>
     \<not> notIndexedDetail raw"

lemma format_passesThrough:
  assumes "passesThrough raw" "causeOf error = None"
    and "error \<in> {PlainError raw, WalletLockedError, SiteNotConnectedError}" "errorMessage error = raw"
  shows "formatAnsMutationError causeOf error = raw"
proof -
  have "\<not> isTransactionNotIndexedError causeOf (ThrownError error)"
    using assms by (auto simp: eval_nat_numeral saysNotIndexed_def passesThrough_def dest: arg_cong [of _ _ errorCode])
  then show ?thesis
    using assms
    by (cases error) (auto simp: mutationErrorText_def passesThrough_def isWalletAccountChangedError_def isUnsupportedWalletKindError_def
        isSignerMismatchError_def unwrapStepError_def isLinkedExternalSigningError_def isSignatureMismatchError_def
        matchesAny_def isTransactionPendingError_def)
qed

lemma format_plain:
  "passesThrough raw \<Longrightarrow> causeOf (PlainError raw) = None \<Longrightarrow> mutationErrorText causeOf (PlainError raw) = raw"
  using format_passesThrough [of raw causeOf "PlainError raw"] by simp

definition blockerOf :: "WalletStatus \<Rightarrow> WalletBlockerKind option" where
  "blockerOf status =
     (case status of
        WalletLocked \<Rightarrow> Some Blocked_locked
      | NotConnected \<Rightarrow> Some Blocked_not_connected
      | StaleExtension \<Rightarrow> Some Blocked_stale_extension
      | _ \<Rightarrow> None)"

lemma account_text: "anySuffix accountHexNotFound s \<Longrightarrow> includesText s (js ''account '')"
  by (induction s) (auto simp: accountHexNotFound_def)

lemma lowered_texts:
  "map lowerUnit (errorMessage WalletLockedError) = js ''arch wallet is locked. unlock it, then try again.''"
  "map lowerUnit (errorMessage SiteNotConnectedError) =
     js ''site not connected to arch wallet. connect it, then try again.''"
  "map lowerUnit (errorMessage (walletStatusError StaleExtension)) =
     js ''extension context invalidated. reload this page and try again.''"
  by (simp_all add: walletStatusError_def js_def lowerUnit_def)

lemma passesThrough_js:
  assumes "map lowerUnit raw = js t"
  shows "passesThrough raw \<longleftrightarrow> \<not> anySuffix accountHexNotFound (js t) \<and>
    \<not> list_ex (\<lambda>p. occurs p t)
       [''wallet account changed'', ''missing required signature'', ''linked external'',
        ''raw arch message-hash signing is not yet supported for linked external'',
        ''error checking transaction sigs'', ''bip322 signature verification failed'',
        ''signature did not match'', ''invalid params'', ''invalid type: sequence, expected a string'']"
  by (simp add: passesThrough_def notIndexedDetail_def matchesFolded_def assms includesText_js del: occurs.simps)

lemma blocked_texts:
  "passesThrough (errorMessage WalletLockedError)"
  "passesThrough (errorMessage SiteNotConnectedError)"
  "passesThrough (errorMessage (walletStatusError StaleExtension))"
  "blockerFromMessage (errorMessage WalletLockedError) = Some Blocked_locked"
  "blockerFromMessage (errorMessage SiteNotConnectedError) = Some Blocked_not_connected"
  "blockerFromMessage (errorMessage (walletStatusError StaleExtension)) = Some Blocked_stale_extension"
proof -
  have no: "\<not> anySuffix accountHexNotFound (js t)" if "\<not> occurs ''account '' t" for t
    using that account_text [of "js t"] by (auto simp: includesText_js)
  show "passesThrough (errorMessage WalletLockedError)"
    unfolding passesThrough_js [OF lowered_texts(1)] by (intro conjI no; code_simp)
  show "passesThrough (errorMessage SiteNotConnectedError)"
    unfolding passesThrough_js [OF lowered_texts(2)] by (intro conjI no; code_simp)
  show "passesThrough (errorMessage (walletStatusError StaleExtension))"
    unfolding passesThrough_js [OF lowered_texts(3)] by (intro conjI no; code_simp)
qed (simp_all add: blockerFromMessage_def staleExtensionText_def matchesAny_def matchesFolded_def lowered_texts
    includesText_js del: errorMessage.simps)

lemma blocker_codes:
  "blockerFromCode [] = None" "blockerFromCode (js ''WALLET_LOCKED'') = Some Blocked_locked"
  "blockerFromCode (js ''SITE_NOT_CONNECTED'') = Some Blocked_not_connected"
  by code_simp+

text \<open>A blocker survives the wrapping. When a submission stops because the wallet is locked, the site is not
  connected or the extension is stale, the error that reaches the page is a step's failure of which only the
  text is left; it is still classified as that blocker, like the error itself.\<close>

theorem step_failure_keeps_blocker:
  assumes "blockerOf status = Some k" "causeOf (walletStatusError status) = None"
  shows "classifyWalletBlocker (walletErrorOf (walletStatusError status)) = Some k
    \<and> classifyWalletBlocker (walletErrorOf
        (AnsStepError phase progress (PlainError (formatAnsMutationError causeOf (walletStatusError status))))) = Some k"
  using assms blocked_texts blocker_codes
  by (cases status)
    (simp_all add: blockerOf_def walletStatusError_def classCode_def format_passesThrough
      del: errorMessage.simps formatAnsMutationError.simps, simp_all add: format_plain)

theorem step_failure_keeps_blocker_witness:
  "classifyWalletBlocker (walletErrorOf (AnsStepError Mutation None
     (PlainError (formatAnsMutationError (\<lambda>_. None) (walletStatusError WalletLocked))))) = Some Blocked_locked"
  using step_failure_keeps_blocker [of WalletLocked Blocked_locked "\<lambda>_. None" Mutation None] by (simp add: blockerOf_def)

end
