(* ===== verification/Bip322.thy ===== *)
theory Bip322
  imports Runner Signers
begin

text \<open>
  Checking a wallet's signature before it is used: \<^verbatim>\<open>bip322.ts\<close> and \<^verbatim>\<open>bip322-witness.ts\<close> of the manager. The
  curve and the tagged hash of the noble packages are the parameter \<open>curve\<close>, over an arbitrary type of points;
  \<open>adjustSignature\<close> belongs to \<open>arch_sdk\<close>; base58 is \<open>base58\<close>. The digest is shown to bind the account and the
  message, a verdict to say exactly what was verified, and the witness parser to accept exactly the
  serialised stacks.
\<close>

section \<open>bip322.ts\<close>

record 'p curve =
  cv_sha256 :: "bytes \<Rightarrow> bytes"
  cv_taggedHash :: "js_string \<Rightarrow> bytes \<Rightarrow> bytes"
  cv_lift_x :: "nat \<Rightarrow> js_error + 'p"
  cv_add :: "'p \<Rightarrow> 'p \<Rightarrow> 'p"
  cv_multiplyBase :: "nat \<Rightarrow> js_error + 'p"
  cv_pointToBytes :: "'p \<Rightarrow> js_error + bytes"
  cv_verify :: "bytes \<Rightarrow> bytes \<Rightarrow> bytes \<Rightarrow> js_error + bool"

definition uint32LE :: "int \<Rightarrow> bytes" where
  "uint32LE v = leBytes 4 v"

definition uint64LE :: "int \<Rightarrow> bytes" where
  "uint64LE v = leBytes 8 v"

definition compactSize :: "nat \<Rightarrow> js_error + bytes" where
  "compactSize v =
     (if v < 0xfd then Inr [of_nat v]
      else Inl (PlainError (js ''compactSize: '' @ decimal v @ js '' is out of range for BIP-322 framing'')))"

definition withLength :: "bytes \<Rightarrow> js_error + bytes" where
  "withLength script = bindR (compactSize (length script)) (\<lambda>size. Inr (size @ script))"

definition bytesToBigInt :: "bytes \<Rightarrow> nat" where
  "bytesToBigInt bs = foldl (\<lambda>value b. value * 256 + unat b) 0 bs"

definition taprootOutputKey :: "'p curve \<Rightarrow> bytes \<Rightarrow> js_error + bytes" where
  "taprootOutputKey K internalXOnly =
     (let tweak = bytesToBigInt (cv_taggedHash K (js ''TapTweak'') internalXOnly) in
      bindR (cv_lift_x K (bytesToBigInt internalXOnly)) (\<lambda>internalPoint.
      bindR (cv_multiplyBase K tweak) (\<lambda>tweakPoint.
      cv_pointToBytes K (cv_add K internalPoint tweakPoint))))"

definition p2trScriptPubKey :: "bytes \<Rightarrow> bytes" where
  "p2trScriptPubKey outputKey = [0x51, 0x20] @ outputKey"

definition toSpendTxid :: "'p curve \<Rightarrow> bytes \<Rightarrow> bytes \<Rightarrow> js_error + bytes" where
  "toSpendTxid K messageBytes scriptPubKey =
     (let messageHash = cv_taggedHash K (js ''BIP0322-signed-message'') messageBytes;
          scriptSig = [0x00, 0x20] @ messageHash in
      bindR (compactSize 1) (\<lambda>one.
      bindR (withLength scriptSig) (\<lambda>sig.
      bindR (withLength scriptPubKey) (\<lambda>spk.
      Inr (cv_sha256 K (cv_sha256 K
        (uint32LE 0 @ one @ replicate 32 0 @ uint32LE 0xffffffff @ sig @ uint32LE 0 @ one @ uint64LE 0 @ spk
         @ uint32LE 0)))))))"

definition bip322TaprootSighash :: "'p curve \<Rightarrow> bytes \<Rightarrow> js_string \<Rightarrow> js_error + bytes" where
  "bip322TaprootSighash K outputKey message =
     (let scriptPubKey = p2trScriptPubKey outputKey; messageBytes = textEncode message in
      bindR (toSpendTxid K messageBytes scriptPubKey) (\<lambda>prevoutTxid.
      bindR (withLength scriptPubKey) (\<lambda>spk.
      bindR (withLength [0x6a]) (\<lambda>out.
      let shaPrevouts = cv_sha256 K (prevoutTxid @ uint32LE 0);
          shaAmounts = cv_sha256 K (uint64LE 0);
          shaScriptPubKeys = cv_sha256 K spk;
          shaSequences = cv_sha256 K (uint32LE 0);
          shaOutputs = cv_sha256 K (uint64LE 0 @ out);
          sigMsg = [0x00] @ uint32LE 0 @ uint32LE 0 @ shaPrevouts @ shaAmounts @ shaScriptPubKeys @ shaSequences
            @ shaOutputs @ [0x00] @ uint32LE 0 in
      Inr (cv_taggedHash K (js ''TapSighash'') ([0x00] @ sigMsg))))))"

text \<open>The private \<open>hexToBytes\<close>: nothing for a text that is not an even number of hexadecimal digits.\<close>

definition strictHex :: "js_string \<Rightarrow> bytes option" where
  "strictHex hex =
     (let clean = stripHexPrefix (trim hex) in
      if \<not> list_all isHexDigit clean \<or> length clean mod 2 \<noteq> 0 then None else Some (hexPairs clean))"

definition isMessageHash :: "js_string \<Rightarrow> bool" where
  "isMessageHash s \<longleftrightarrow> length s = 64 \<and> list_all isHexDigit s"

text \<open>The body of the \<open>try\<close>.\<close>

definition verifySignature :: "'p curve \<Rightarrow> bytes \<Rightarrow> js_string \<Rightarrow> bytes \<Rightarrow> js_error + bool" where
  "verifySignature K internal message signature =
     bindR (taprootOutputKey K internal) (\<lambda>outputKey.
     bindR (bip322TaprootSighash K outputKey message) (\<lambda>digest.
     cv_verify K signature digest outputKey))"

definition checkArchSignature ::
  "base58 \<Rightarrow> 'p curve \<Rightarrow> js_string option \<Rightarrow> js_string \<Rightarrow> js_string \<Rightarrow> SignatureCheck" where
  "checkArchSignature B K archAddress messageHashHex signature64Hex =
     (case canonicalArchKey B archAddress of
        None \<Rightarrow> SigUnverifiable
      | Some internal \<Rightarrow>
          (case strictHex signature64Hex of
             None \<Rightarrow> SigUnverifiable
           | Some signature \<Rightarrow>
               if length signature \<noteq> 64 then SigUnverifiable
               else if \<not> isMessageHash (trim messageHashHex) then SigUnverifiable
               else case verifySignature K internal (map lowerUnit (trim messageHashHex)) signature of
                 Inr True \<Rightarrow> SigMatch
               | Inr False \<Rightarrow> SigMismatch
               | Inl _ \<Rightarrow> SigUnverifiable))"

section \<open>bip322-witness.ts\<close>

text \<open>\<open>atob\<close>: ASCII white space is dropped, up to two padding characters are removed from a text of a multiple
  of four, and the remaining bits of an incomplete group are discarded.\<close>

definition sextet :: "u16 \<Rightarrow> nat option" where
  "sextet u =
     (if 65 \<le> u \<and> u \<le> 90 then Some (unat u - 65)
      else if 97 \<le> u \<and> u \<le> 122 then Some (unat u - 71)
      else if 48 \<le> u \<and> u \<le> 57 then Some (unat u + 4)
      else if u = 43 then Some 62
      else if u = 47 then Some 63
      else None)"

fun sextetBytes :: "nat list \<Rightarrow> bytes" where
  "sextetBytes (a # b # c # d # r) =
     of_nat (a * 4 + b div 16) # of_nat (b mod 16 * 16 + c div 4) # of_nat (c mod 4 * 64 + d) # sextetBytes r"
| "sextetBytes [a, b, c] = [of_nat (a * 4 + b div 16), of_nat (b mod 16 * 16 + c div 4)]"
| "sextetBytes [a, b] = [of_nat (a * 4 + b div 16)]"
| "sextetBytes _ = []"

definition unpad :: "js_string \<Rightarrow> js_string" where
  "unpad s =
     (if length s mod 4 \<noteq> 0 then s
      else if endsWith s (js ''=='') then dropEnd 2 s
      else if endsWith s (js ''='') then dropEnd 1 s
      else s)"

definition decodeBase64 :: "js_string \<Rightarrow> js_error + bytes" where
  "decodeBase64 input =
     (let s = unpad (filter (\<lambda>u. u \<notin> {9, 10, 12, 13, 32}) input) in
      if length s mod 4 = 1 \<or> \<not> list_all (\<lambda>u. sextet u \<noteq> None) s
      then Inl (PlainError (js ''InvalidCharacterError''))
      else Inr (sextetBytes (map (\<lambda>u. the (sextet u)) s)))"

definition decodeHex :: "js_string \<Rightarrow> js_error + bytes" where
  "decodeHex input =
     (let clean = stripHexPrefix input in
      guardR (\<not> list_all isHexDigit clean \<or> length clean mod 2 \<noteq> 0)
        (PlainError (js ''Cannot decode signature: not valid hex.'')) (Inr (hexPairs clean)))"

definition isHexText :: "js_string \<Rightarrow> bool" where
  "isHexText v \<longleftrightarrow>
     (let clean = stripHexPrefix v in length clean > 0 \<and> length clean mod 2 = 0 \<and> list_all isHexDigit clean)"

definition decodeRawWalletSignature :: "js_string \<Rightarrow> js_error + bytes" where
  "decodeRawWalletSignature raw =
     (if isHexText raw then decodeHex raw
      else case decodeBase64 raw of
        Inr bs \<Rightarrow> Inr bs
      | Inl _ \<Rightarrow> Inl (PlainError (js ''Cannot decode signature: not base64 or hex.'')))"

text \<open>The shifted bytes of a compact size do not overlap, so \<open>|\<close> adds them; the result of the four-byte form is
  a signed 32-bit integer.\<close>

definition readCompactSize :: "bytes \<Rightarrow> nat \<Rightarrow> (int \<times> nat) option" where
  "readCompactSize bs off =
     (if off \<ge> length bs then None
      else
        (let first = bs ! off in
         if first < 0xfd then Some (uint first, off + 1)
         else if first = 0xfd then
           (if off + 2 \<ge> length bs then None
            else Some (uint (bs ! (off + 1)) + uint (bs ! (off + 2)) * 2 ^ 8, off + 3))
         else if first = 0xfe then
           (if off + 4 \<ge> length bs then None
            else Some (signed_take_bit 31 (uint (bs ! (off + 1)) + uint (bs ! (off + 2)) * 2 ^ 8
                   + uint (bs ! (off + 3)) * 2 ^ 16 + uint (bs ! (off + 4)) * 2 ^ 24), off + 5))
         else None))"

text \<open>The loop: so many items are left, the next one starts at the offset.\<close>

fun witnessItems :: "bytes \<Rightarrow> nat \<Rightarrow> nat \<Rightarrow> bytes list option" where
  "witnessItems bs 0 off = (if off = length bs then Some [] else None)"
| "witnessItems bs (Suc n) off =
     (case readCompactSize bs off of
        None \<Rightarrow> None
      | Some (n', off') \<Rightarrow>
          if n' < 0 \<or> int off' + n' > int (length bs) then None
          else map_option ((#) (take (nat n') (drop off' bs))) (witnessItems bs n (off' + nat n')))"

definition parseWitnessStack :: "bytes \<Rightarrow> bytes list option" where
  "parseWitnessStack bs =
     (case readCompactSize bs 0 of
        None \<Rightarrow> None
      | Some (n, off) \<Rightarrow> if n \<le> 0 \<or> n > 16 then None else witnessItems bs (nat n) off)"

definition getWalletWitnessSignatureItem :: "js_string \<Rightarrow> js_error + bytes option" where
  "getWalletWitnessSignatureItem raw =
     bindR (decodeRawWalletSignature raw) (\<lambda>bs.
     Inr (case parseWitnessStack bs of Some (item # _) \<Rightarrow> Some item | _ \<Rightarrow> None))"

definition extractSchnorrHexFromWalletSignature :: "arch_sdk \<Rightarrow> js_string \<Rightarrow> js_error + js_string" where
  "extractSchnorrHexFromWalletSignature S rawSignature =
     bindR (getWalletWitnessSignatureItem rawSignature) (\<lambda>witnessItem.
     bindR (case witnessItem of None \<Rightarrow> Inr [] | Some item \<Rightarrow> sdk_adjustSignature S item) (\<lambda>fromWitness.
     if witnessItem \<noteq> None \<and> length fromWitness = 64 then Inr (bytesToHex fromWitness)
     else
       bindR (decodeRawWalletSignature rawSignature) (\<lambda>rawBytes.
       bindR (sdk_adjustSignature S rawBytes) (\<lambda>adjusted.
       if length adjusted = 64 then Inr (bytesToHex adjusted)
       else Inl (PlainError (js ''Failed to extract a valid 64-byte signature (witness='' @
         (case witnessItem of Some item \<Rightarrow> decimal (length item) | None \<Rightarrow> js ''none'') @ js '', raw='' @
         decimal (length rawBytes) @ js '').''))))))"

section \<open>Serialised stacks\<close>

text \<open>The texts of a compact size, and of the items of a stack.\<close>

definition sizeText :: "bytes \<Rightarrow> int \<Rightarrow> bool" where
  "sizeText h v \<longleftrightarrow>
     (\<exists>b. h = [b] \<and> b < 0xfd \<and> v = uint b) \<or>
     (\<exists>b c. h = [0xfd, b, c] \<and> v = uint b + uint c * 2 ^ 8) \<or>
     (\<exists>b c d e. h = [0xfe, b, c, d, e] \<and>
        v = signed_take_bit 31 (uint b + uint c * 2 ^ 8 + uint d * 2 ^ 16 + uint e * 2 ^ 24))"

fun itemsText :: "bytes list \<Rightarrow> bytes \<Rightarrow> bool" where
  "itemsText [] t = (t = [])"
| "itemsText (x # xs) t = (\<exists>h r. t = h @ x @ r \<and> sizeText h (int (length x)) \<and> itemsText xs r)"

definition sizeAt :: "bytes \<Rightarrow> (int \<times> nat) option" where
  "sizeAt t =
     (case t of
        [] \<Rightarrow> None
      | first # r \<Rightarrow>
          if first < 0xfd then Some (uint first, 1)
          else if first = 0xfd then (case r of b # c # _ \<Rightarrow> Some (uint b + uint c * 2 ^ 8, 3) | _ \<Rightarrow> None)
          else if first = 0xfe then
            (case r of
               b # c # d # e # _ \<Rightarrow>
                 Some (signed_take_bit 31 (uint b + uint c * 2 ^ 8 + uint d * 2 ^ 16 + uint e * 2 ^ 24), 5)
             | _ \<Rightarrow> None)
          else None)"

lemma readCompactSize_drop:
  "readCompactSize bs off = map_option (\<lambda>(v, n). (v, off + n)) (sizeAt (drop off bs))"
proof (cases "off < length bs")
  case True
  define t where "t = drop off bs"
  have nth: "bs ! (off + k) = t ! k" if "off + k < length bs" for k using that by (simp add: t_def)
  then have nth': "off + 1 < length bs \<Longrightarrow> bs ! Suc off = t ! 1" "off + 2 < length bs \<Longrightarrow> bs ! Suc (Suc off) = t ! 2"
    by (metis add_Suc_right add.right_neutral One_nat_def numeral_2_eq_2)+
  have "length bs = off + length t" "t \<noteq> []" using True by (auto simp: t_def)
  moreover from True nth [of 0] have "bs ! off = t ! 0" by simp
  ultimately show ?thesis
    using nth nth' unfolding t_def [symmetric] readCompactSize_def sizeAt_def Let_def
    by (auto split: list.splits)
qed (simp add: readCompactSize_def sizeAt_def)

lemma sizeAt_text: "sizeText h v \<Longrightarrow> sizeAt (h @ r) = Some (v, length h)"
  by (auto simp: sizeText_def sizeAt_def)

lemma sizeAt_prefix:
  assumes "sizeAt t = Some (v, n)"
  obtains h r where "sizeText h v" "t = h @ r" "n = length h"
proof
  show "sizeText (take n t) v" "t = take n t @ drop n t" "n = length (take n t)"
    using assms by (auto simp: sizeAt_def sizeText_def split: list.splits if_splits)
qed

lemma witnessItems_iff:
  "off \<le> length bs \<Longrightarrow> witnessItems bs n off = Some items \<longleftrightarrow> length items = n \<and> itemsText items (drop off bs)"
proof (induction n arbitrary: off items)
  case 0
  then show ?case by (cases items) auto
next
  case (Suc n)
  show ?case
  proof
    assume "witnessItems bs (Suc n) off = Some items"
    then obtain v k rest where r: "sizeAt (drop off bs) = Some (v, k)" "0 \<le> v" "int (off + k) + v \<le> int (length bs)"
        "items = take (nat v) (drop (off + k) bs) # rest" "witnessItems bs n (off + k + nat v) = Some rest"
      by (auto simp: readCompactSize_drop split: option.splits if_splits)
    then have rest: "length rest = n" "itemsText rest (drop (off + k + nat v) bs)" using Suc.IH by auto
    from r(1) obtain h q where h: "sizeText h v" "drop off bs = h @ q" "k = length h" by (rule sizeAt_prefix)
    then have q: "q = drop (off + k) bs" by (metis append_eq_conv_conj drop_drop add.commute)
    then have "drop off bs = h @ take (nat v) q @ drop (off + k + nat v) bs"
      using h(2) by (metis append_take_drop_id drop_drop add.commute)
    moreover have "int (length (take (nat v) q)) = v" using r(2,3) q by auto
    ultimately have "itemsText items (drop off bs)"
      using rest h(1) unfolding r(4) q itemsText.simps
      by (intro exI [of _ h] exI [of _ "drop (off + k + nat v) bs"]) simp
    then show "length items = Suc n \<and> itemsText items (drop off bs)" using r(4) rest by simp
  next
    assume "length items = Suc n \<and> itemsText items (drop off bs)"
    then obtain x xs h r where x: "items = x # xs" "length xs = n" "drop off bs = h @ x @ r"
        "sizeText h (int (length x))" "itemsText xs r"
      by (cases items) auto
    have d: "drop (off + length h) bs = x @ r" using x(3) by (metis append_eq_conv_conj drop_drop add.commute)
    then have "drop (off + length h + length x) bs = r" by (metis append_eq_conv_conj drop_drop add.commute)
    moreover have "off + length h + length x \<le> length bs"
      using x(3) Suc.prems by (metis append.assoc length_append length_drop le_add1 le_diff_conv2 add.commute add.assoc)
    ultimately show "witnessItems bs (Suc n) off = Some items"
      using Suc.IH [of "off + length h + length x" xs] x d sizeAt_text [OF x(4), of "x @ r"]
      by (auto simp: readCompactSize_drop)
  qed
qed

section \<open>The digest\<close>

text \<open>What the hashes are applied to, for an output key of 32 bytes.\<close>

definition spendPreimage :: "'p curve \<Rightarrow> bytes \<Rightarrow> js_string \<Rightarrow> bytes" where
  "spendPreimage K Q m =
     uint32LE 0 @ [1] @ replicate 32 0 @ uint32LE 0xffffffff
     @ 34 # [0x00, 0x20] @ cv_taggedHash K (js ''BIP0322-signed-message'') (textEncode m)
     @ uint32LE 0 @ [1] @ uint64LE 0 @ 34 # p2trScriptPubKey Q @ uint32LE 0"

definition prevoutPreimage :: "'p curve \<Rightarrow> bytes \<Rightarrow> js_string \<Rightarrow> bytes" where
  "prevoutPreimage K Q m = cv_sha256 K (cv_sha256 K (spendPreimage K Q m)) @ uint32LE 0"

definition sighashPreimage :: "'p curve \<Rightarrow> bytes \<Rightarrow> js_string \<Rightarrow> bytes" where
  "sighashPreimage K Q m =
     [0x00] @ [0x00] @ uint32LE 0 @ uint32LE 0 @ cv_sha256 K (prevoutPreimage K Q m) @ cv_sha256 K (uint64LE 0)
     @ cv_sha256 K (34 # p2trScriptPubKey Q) @ cv_sha256 K (uint32LE 0) @ cv_sha256 K (uint64LE 0 @ [1, 0x6a])
     @ [0x00] @ uint32LE 0"

definition shaInputs :: "'p curve \<Rightarrow> bytes \<Rightarrow> js_string \<Rightarrow> bytes list" where
  "shaInputs K Q m =
     [spendPreimage K Q m, cv_sha256 K (spendPreimage K Q m), prevoutPreimage K Q m, 34 # p2trScriptPubKey Q]"

text \<open>All digests have 32 bytes.\<close>

definition digestWidth :: "'p curve \<Rightarrow> bool" where
  "digestWidth K \<longleftrightarrow> (\<forall>x. length (cv_sha256 K x) = 32) \<and> (\<forall>t x. length (cv_taggedHash K t x) = 32)"

lemma sighash_preimage:
  assumes "digestWidth K" "length Q = 32"
  shows "bip322TaprootSighash K Q m = Inr (cv_taggedHash K (js ''TapSighash'') (sighashPreimage K Q m))"
  using assms
  by (simp add: bip322TaprootSighash_def toSpendTxid_def withLength_def compactSize_def p2trScriptPubKey_def
      sighashPreimage_def prevoutPreimage_def spendPreimage_def digestWidth_def Let_def)

lemma preimages_bind:
  assumes "digestWidth K" "length Q = 32" "length Q' = 32"
  shows "sighashPreimage K Q m = sighashPreimage K Q' m' \<longleftrightarrow>
      cv_sha256 K (prevoutPreimage K Q m) = cv_sha256 K (prevoutPreimage K Q' m') \<and>
      cv_sha256 K (34 # p2trScriptPubKey Q) = cv_sha256 K (34 # p2trScriptPubKey Q')"
    and "prevoutPreimage K Q m = prevoutPreimage K Q' m' \<longleftrightarrow>
      cv_sha256 K (cv_sha256 K (spendPreimage K Q m)) = cv_sha256 K (cv_sha256 K (spendPreimage K Q' m'))"
    and "spendPreimage K Q m = spendPreimage K Q' m' \<Longrightarrow>
      cv_taggedHash K (js ''BIP0322-signed-message'') (textEncode m) =
      cv_taggedHash K (js ''BIP0322-signed-message'') (textEncode m')"
  using assms by (simp_all add: sighashPreimage_def prevoutPreimage_def spendPreimage_def digestWidth_def)

section \<open>Verdicts\<close>

text \<open>The verdict reads the account through its key and the signature through its bytes, and is a match or a
  mismatch exactly when the verification ran and said so.\<close>

lemma signature_verdict:
  assumes "checkArchSignature B K a h s = v" "v \<noteq> SigUnverifiable"
  obtains k sig Q d where "canonicalArchKey B a = Some k" "strictHex s = Some sig" "length sig = 64"
    "taprootOutputKey K k = Inr Q" "bip322TaprootSighash K Q (map lowerUnit (trim h)) = Inr d"
    "cv_verify K sig d Q = Inr (v = SigMatch)"
  using assms
  by (auto simp: checkArchSignature_def verifySignature_def bindR_def Let_def
      split: option.splits if_splits sum.splits bool.splits)

lemma extractSchnorr_length:
  "extractSchnorrHexFromWalletSignature S raw = Inr hex \<Longrightarrow> \<exists>sig. hex = bytesToHex sig \<and> length sig = 64"
  by (auto simp: extractSchnorrHexFromWalletSignature_def result_iffs Let_def split: if_splits)

section \<open>A concrete curve\<close>

text \<open>Computable stand-ins on which the statements can be evaluated: a digest that samples its input at width 32,
  numbers as points, and a signature that repeats the digest and the key.\<close>

definition sampled :: "bytes \<Rightarrow> bytes" where
  "sampled x = take 32 (of_nat (length x) # take 6 (drop 44 x) @ take 6 (drop 95 x) @ take 6 (drop 78 x) @ take 11 x @ replicate 32 0)"

definition sampleCurve :: "nat curve" where
  "sampleCurve = \<lparr>
     cv_sha256 = sampled,
     cv_taggedHash = (\<lambda>t x. sampled x),
     cv_lift_x = Inr,
     cv_add = (\<lambda>p q. p),
     cv_multiplyBase = Inr,
     cv_pointToBytes = (\<lambda>p. Inr (rev (leBytes 32 (int p)))),
     cv_verify = (\<lambda>sig digest key. Inr (sig = digest @ key))\<rparr>"

lemma sampleCurve_width: "digestWidth sampleCurve"
  by (simp add: digestWidth_def sampleCurve_def sampled_def)

section \<open>Properties\<close>

text \<open>C38. The digest binds the account and the message. Where the hashes do not collide on the inputs of the two
  digests, two digests are equal exactly when the output keys and the messages are: a signature over one
  transaction hash for one account is never checked as one over another hash or for another account.\<close>

theorem sighash_binds:
  assumes "digestWidth K" "length Q = 32" "length Q' = 32" "isAscii m" "isAscii m'"
    and "inj_on (cv_sha256 K) (set (shaInputs K Q m @ shaInputs K Q' m'))"
    and "inj_on (cv_taggedHash K (js ''TapSighash'')) {sighashPreimage K Q m, sighashPreimage K Q' m'}"
    and "inj_on (cv_taggedHash K (js ''BIP0322-signed-message'')) {textEncode m, textEncode m'}"
  shows "bip322TaprootSighash K Q m = bip322TaprootSighash K Q' m' \<longleftrightarrow> Q = Q' \<and> m = m'"
proof
  assume eq: "bip322TaprootSighash K Q m = bip322TaprootSighash K Q' m'"
  then have "cv_taggedHash K (js ''TapSighash'') (sighashPreimage K Q m) =
      cv_taggedHash K (js ''TapSighash'') (sighashPreimage K Q' m')"
    unfolding sighash_preimage [OF assms(1,2)] sighash_preimage [OF assms(1,3)] by (rule sum.inject(2) [THEN iffD1])
  then have "sighashPreimage K Q m = sighashPreimage K Q' m'" by (rule inj_onD [OF assms(7)]) simp_all
  then have prevouts: "cv_sha256 K (prevoutPreimage K Q m) = cv_sha256 K (prevoutPreimage K Q' m')"
    and scripts: "cv_sha256 K (34 # p2trScriptPubKey Q) = cv_sha256 K (34 # p2trScriptPubKey Q')"
    unfolding preimages_bind(1) [OF assms(1-3)] by (rule conjunct1, rule conjunct2)
  from scripts have Q: "34 # p2trScriptPubKey Q = 34 # p2trScriptPubKey Q'"
    by (rule inj_onD [OF assms(6)]) (simp_all add: shaInputs_def)
  from prevouts have "prevoutPreimage K Q m = prevoutPreimage K Q' m'"
    by (rule inj_onD [OF assms(6)]) (simp_all add: shaInputs_def)
  then have "cv_sha256 K (cv_sha256 K (spendPreimage K Q m)) = cv_sha256 K (cv_sha256 K (spendPreimage K Q' m'))"
    unfolding preimages_bind(2) [OF assms(1-3)] .
  then have "cv_sha256 K (spendPreimage K Q m) = cv_sha256 K (spendPreimage K Q' m')"
    by (rule inj_onD [OF assms(6)]) (simp_all add: shaInputs_def)
  then have "spendPreimage K Q m = spendPreimage K Q' m'"
    by (rule inj_onD [OF assms(6)]) (simp_all add: shaInputs_def)
  from preimages_bind(3) [OF assms(1-3) this] have "textEncode m = textEncode m'"
    by (rule inj_onD [OF assms(8)]) simp_all
  then have "m = m'" by (rule textEncode_inj [OF decodable_ascii [OF assms(4)] decodable_ascii [OF assms(5)]])
  with Q show "Q = Q' \<and> m = m'" by (simp add: p2trScriptPubKey_def)
qed simp

lemma distinct_inj_on: "distinct (map f xs) \<Longrightarrow> inj_on f (set xs)"
  by (simp add: distinct_map)

theorem sighash_binds_witness:
  "bip322TaprootSighash sampleCurve (replicate 32 2) (js ''ab'') \<noteq>
   bip322TaprootSighash sampleCurve (replicate 32 3) (js ''cd'')"
proof -
  let ?Q = "replicate 32 2" and ?Q' = "replicate 32 3" and ?m = "js ''ab''" and ?m' = "js ''cd''"
  have "distinct (map (cv_sha256 sampleCurve) (shaInputs sampleCurve ?Q ?m @ shaInputs sampleCurve ?Q' ?m'))" by code_simp
  note sha = distinct_inj_on [OF this]
  have "distinct (map (cv_taggedHash sampleCurve (js ''TapSighash'')) [sighashPreimage sampleCurve ?Q ?m, sighashPreimage sampleCurve ?Q' ?m'])"
    by code_simp
  note sighash = distinct_inj_on [OF this, simplified list.set]
  have "distinct (map (cv_taggedHash sampleCurve (js ''BIP0322-signed-message'')) [textEncode ?m, textEncode ?m'])"
    by code_simp
  note message = distinct_inj_on [OF this, simplified list.set]
  have "isAscii ?m" "isAscii ?m'" "?m \<noteq> ?m'" by code_simp+
  with sighash_binds [OF sampleCurve_width _ _ this(1,2) sha sighash message] show ?thesis by simp
qed

text \<open>C39. \<open>parseWitnessStack\<close> accepts exactly the serialised witness stacks of one to sixteen items that fill the
  whole buffer, and returns their items; every form of a compact size is read, a size of four bytes as a
  signed number.\<close>

theorem witness_stack_exact:
  "parseWitnessStack bs = Some items \<longleftrightarrow>
     0 < length items \<and> length items \<le> 16 \<and>
     (\<exists>h r. bs = h @ r \<and> sizeText h (int (length items)) \<and> itemsText items r)"
proof
  assume "parseWitnessStack bs = Some items"
  then obtain v k where r: "sizeAt bs = Some (v, k)" "0 < v" "v \<le> 16" "witnessItems bs (nat v) k = Some items"
    by (auto simp: parseWitnessStack_def readCompactSize_drop split: option.splits if_splits)
  from r(1) obtain h q where h: "sizeText h v" "bs = h @ q" "k = length h" by (rule sizeAt_prefix)
  then have "length items = nat v \<and> itemsText items q" using witnessItems_iff [of k bs] r(4) by auto
  with r(2,3) h show "0 < length items \<and> length items \<le> 16 \<and>
     (\<exists>h r. bs = h @ r \<and> sizeText h (int (length items)) \<and> itemsText items r)" by auto
next
  assume a: "0 < length items \<and> length items \<le> 16 \<and>
     (\<exists>h r. bs = h @ r \<and> sizeText h (int (length items)) \<and> itemsText items r)"
  then obtain h r where h: "bs = h @ r" "sizeText h (int (length items))" "itemsText items r" by blast
  have "witnessItems bs (length items) (length h) = Some items" using h witnessItems_iff [of "length h" bs] by simp
  then show "parseWitnessStack bs = Some items"
    using a sizeAt_text [OF h(2), of r] h(1) by (auto simp: parseWitnessStack_def readCompactSize_drop)
qed

end
