(* ===== verification/Wallet_Port.thy ===== *)
theory Wallet_Port
  imports Bip322 Wallet
begin

text \<open>
  The only shape a submission needs from a connected wallet: \<^verbatim>\<open>ans-wallet-port.ts\<close> and \<^verbatim>\<open>ans-wallet-session.ts\<close>
  of the manager. A signer of the kit and the
  extension's \<open>signArchMessageHash\<close> are computations of the outside world.
\<close>

section \<open>Ports (ans-wallet-port.ts)\<close>

type_synonym 'w hash_signer = "js_string \<Rightarrow> ('w, js_string) io"

record 'w AnsWalletPort =
  po_archAddress :: js_string
  po_address :: js_string
  po_publicKey :: js_string
  po_kind :: "js_string option"
  po_providerId :: js_string
  po_providerLabel :: js_string
  po_signMessageHash :: "'w hash_signer"

datatype 'w TransactionSigner = DigestSigner "'w hash_signer" | ChallengeSigner "'w hash_signer"

text \<open>The test \<open>/^[0-9a-fA-F]{128}$/\<close> on the trimmed text without its prefix.\<close>

definition rawSignatureText :: "js_string \<Rightarrow> js_string option" where
  "rawSignatureText raw =
     (let t = stripHexPrefix (trim raw) in if length t = 128 \<and> list_all isHexDigit t then Some t else None)"

definition kitSignatureHex :: "arch_sdk \<Rightarrow> js_string \<Rightarrow> js_error + js_string" where
  "kitSignatureHex S raw =
     (case rawSignatureText raw of
        Some t \<Rightarrow>
          (case extractSchnorrHexFromWalletSignature S raw of Inr hex \<Rightarrow> Inr hex | Inl _ \<Rightarrow> Inr (map lowerUnit t))
      | None \<Rightarrow> extractSchnorrHexFromWalletSignature S raw)"

definition kitSignerToAnsHashSigner :: "arch_sdk \<Rightarrow> 'w TransactionSigner \<Rightarrow> 'w hash_signer" where
  "kitSignerToAnsHashSigner S signer messageHashHex =
     bindIO (case signer of DigestSigner f \<Rightarrow> f messageHashHex | ChallengeSigner f \<Rightarrow> f messageHashHex) (\<lambda>raw.
     pureIO (kitSignatureHex S raw))"

text \<open>What the extension returns: a buffer, or an object with \<open>signature64Hex\<close> or \<open>signature\<close>. A \<open>signature\<close> that
  is not a text is by its declared type a buffer.\<close>

definition dropPrefix0x :: "js_string \<Rightarrow> js_string" where
  "dropPrefix0x s = (if startsWith s (js ''0x'') then drop 2 s else s)"

definition unrecognizedSignature :: js_error where
  "unrecognizedSignature = PlainError (js ''Wallet returned an unrecognized signature payload'')"

definition extensionSignatureHex :: "jsval \<Rightarrow> js_error + js_string" where
  "extensionSignatureHex v =
     (case v of
        Buf bs \<Rightarrow> Inr (bytesToHex bs)
      | Arr _ \<Rightarrow> Inl unrecognizedSignature
      | Obj _ \<Rightarrow>
          (case optField v (js ''signature64Hex'') of
             Str s \<Rightarrow> Inr (dropPrefix0x s)
           | _ \<Rightarrow>
               if hasField v (js ''signature'') then
                 (case optField v (js ''signature'') of
                    Str s \<Rightarrow> Inr (dropPrefix0x s)
                  | Buf bs \<Rightarrow> Inr (bytesToHex bs)
                  | _ \<Rightarrow> Inl typeError)
               else Inl unrecognizedSignature)
      | _ \<Rightarrow> Inl typeError)"

text \<open>\<open>window.arch\<close> is read when the signature is asked for; it may have no \<open>signArchMessageHash\<close>.\<close>

definition createArchExtensionHashSigner :: "('w \<Rightarrow> (bytes \<Rightarrow> ('w, jsval) io) option) \<Rightarrow> 'w hash_signer" where
  "createArchExtensionHashSigner provider messageHashHex w =
     (case provider w of
        None \<Rightarrow> (Inl (PlainError (js ''Arch Wallet is not available. Install/enable the Chrome extension.'')), w)
      | Some signArchMessageHash \<Rightarrow>
          (let hashBytes = hexToBytesLoose messageHashHex in
           if length hashBytes \<noteq> 32
           then (Inl (PlainError (js ''Expected 32-byte message hash, got '' @ decimal (length hashBytes))), w)
           else bindIO (signArchMessageHash hashBytes) (\<lambda>v. pureIO (extensionSignatureHex v)) w))"

definition createArchExtensionPort ::
  "('w \<Rightarrow> (bytes \<Rightarrow> ('w, jsval) io) option) \<Rightarrow> js_string \<Rightarrow> js_string \<Rightarrow> js_string \<Rightarrow> js_string option \<Rightarrow> 'w AnsWalletPort" where
  "createArchExtensionPort provider archAddress address publicKey kind =
     \<lparr>po_archAddress = archAddress, po_address = address, po_publicKey = publicKey, po_kind = kind,
      po_providerId = js ''arch-extension'', po_providerLabel = js ''Arch Wallet'',
      po_signMessageHash = createArchExtensionHashSigner provider\<rparr>"

definition createKitLaserEyesPort :: "arch_sdk \<Rightarrow> 'w AnsWalletPort \<Rightarrow> 'w TransactionSigner \<Rightarrow> 'w AnsWalletPort" where
  "createKitLaserEyesPort S identity signer = identity\<lparr>po_signMessageHash := kitSignerToAnsHashSigner S signer\<rparr>"

definition WALLET_PROVIDER_LABELS :: "(js_string \<times> js_string) list" where
  "WALLET_PROVIDER_LABELS =
     [(js ''arch-extension'', js ''Arch Wallet''), (js ''arch'', js ''Arch Wallet''), (js ''xverse'', js ''Xverse''),
      (js ''unisat'', js ''UniSat''), (js ''leather'', js ''Leather''), (js ''phantom'', js ''Phantom''),
      (js ''turnkey-passkey'', js ''Arch Hub''), (js ''turnkey-email'', js ''Arch Hub''),
      (js ''turnkey-hub'', js ''Arch Hub'')]"

definition providerLabelFor :: "js_string option \<Rightarrow> js_string" where
  "providerLabelFor providerId =
     (case providerId of
        None \<Rightarrow> js ''Wallet''
      | Some i \<Rightarrow>
          if i = [] then js ''Wallet''
          else case map_of WALLET_PROVIDER_LABELS i of Some label \<Rightarrow> label | None \<Rightarrow> i)"

section \<open>The active port (ans-wallet-session.ts)\<close>

record 'w port_session =
  ps_activePort :: "'w AnsWalletPort option"
  ps_portEpoch :: nat

definition setActiveAnsWalletPort :: "'w AnsWalletPort option \<Rightarrow> 'w port_session \<Rightarrow> 'w port_session" where
  "setActiveAnsWalletPort port s = s\<lparr>ps_activePort := port, ps_portEpoch := ps_portEpoch s + 1\<rparr>"

end
