(* ===== verification/Submit.thy ===== *)
theory Submit
  imports Submit_Text Wallet_Port
begin

text \<open>
  Submitting a mutation with a connected wallet: the flow of \<^verbatim>\<open>ans.ts\<close>. The world of the flow is a record of the
  outside, the page's wallet session, the variables that the closures of one attempt share, and the trace of
  what the page has shown, asked and sent. The outside (transport, clock, wallet, faucet endpoint) is the parameter
  \<open>outside\<close>; it changes its own part of the world only. Console diagnostics are left out.
\<close>

section \<open>Computations that may not return\<close>

type_synonym ('w, 'a) aio = "'w \<Rightarrow> ((js_error + 'a) \<times> 'w) option"

definition liftA :: "('w, 'a) io \<Rightarrow> ('w, 'a) aio" where
  "liftA m w = Some (m w)"

definition bindA :: "('w, 'a) aio \<Rightarrow> ('a \<Rightarrow> ('w, 'b) aio) \<Rightarrow> ('w, 'b) aio" where
  "bindA m k w =
     (case m w of
        None \<Rightarrow> None
      | Some (Inl e, w') \<Rightarrow> Some (Inl e, w')
      | Some (Inr a, w') \<Rightarrow> k a w')"

definition catchA :: "('w, 'a) aio \<Rightarrow> (js_error \<Rightarrow> ('w, 'a) io) \<Rightarrow> ('w, 'a) aio" where
  "catchA m h w =
     (case m w of
        None \<Rightarrow> None
      | Some (Inl e, w') \<Rightarrow> Some (h e w')
      | Some (Inr a, w') \<Rightarrow> Some (Inr a, w'))"

section \<open>The world of the flow\<close>

record submit_vars =
  sv_approvalIndex :: nat
  sv_phase :: SubmitPhase
  sv_progress :: "SubmitProgress option"
  sv_verifierProven :: bool

text \<open>A call of the progress listener, a request to sign a hash, the wallet's signature, a transaction handed to
  the transport, and a request to the faucet.\<close>

datatype flow_event = Shown SubmitProgress | Asked js_string | Signed js_string | Sent jsval | FaucetAsked

record 'w flow =
  fl_env :: 'w
  fl_session :: wallet_session
  fl_vars :: submit_vars
  fl_trace :: "flow_event list"

record ('w, 'p) outside =
  os_transport :: "('w, jsval) AnsTransport"
  os_timer :: "'w timer"
  os_readWallet :: "'w \<Rightarrow> wallet_read \<times> 'w"
  os_activePort :: "'w \<Rightarrow> 'w AnsWalletPort option"
  os_archSigner :: "'w \<Rightarrow> (bytes \<Rightarrow> ('w, jsval) io) option"
  os_connect :: "'w \<Rightarrow> ('w, raw_account option) io option"
  os_disconnect :: "('w, unit) io"
  os_post :: "js_string \<Rightarrow> jsval \<Rightarrow> ('w, response) io"
  os_rpcUrl :: js_string
  os_base58 :: base58
  os_curve :: "'p curve"
  os_sdk :: arch_sdk
  os_cause :: "js_error \<Rightarrow> js_error option"
  os_lower :: "js_string \<Rightarrow> js_string"
  os_fraction :: "rat \<Rightarrow> js_string"

definition envIO :: "('w, 'a) io \<Rightarrow> ('w flow, 'a) io" where
  "envIO m w = (case m (fl_env w) of (r, e) \<Rightarrow> (r, w\<lparr>fl_env := e\<rparr>))"

definition emit :: "flow_event \<Rightarrow> ('w flow, unit) io" where
  "emit event w = (Inr (), w\<lparr>fl_trace := fl_trace w @ [event]\<rparr>)"

definition setVars :: "(submit_vars \<Rightarrow> submit_vars) \<Rightarrow> ('w flow, unit) io" where
  "setVars f w = (Inr (), w\<lparr>fl_vars := f (fl_vars w)\<rparr>)"

definition flowTimer :: "'w timer \<Rightarrow> 'w flow timer" where
  "flowTimer C = \<lparr>now = (\<lambda>w. now C (fl_env w)), sleep = (\<lambda>ms w. w\<lparr>fl_env := sleep C ms (fl_env w)\<rparr>)\<rparr>"

definition flowTransport :: "('w, jsval) AnsTransport \<Rightarrow> ('w flow, jsval) AnsTransport" where
  "flowTransport T = \<lparr>
     readAccountInfo = (\<lambda>a. envIO (readAccountInfo T a)),
     getMultipleAccounts = map_option (\<lambda>f as. envIO (f as)) (getMultipleAccounts T),
     getProgramAccounts = map_option (\<lambda>f pid fs. envIO (f pid fs)) (getProgramAccounts T),
     getCurrentSlot = envIO (getCurrentSlot T),
     getBestBlockHash = envIO (getBestBlockHash T),
     sendTransaction = (\<lambda>tx. bindIO (emit (Sent tx)) (\<lambda>_. envIO (sendTransaction T tx))),
     getProcessedTransaction = (\<lambda>txid. envIO (getProcessedTransaction T txid))\<rparr>"

section \<open>The connected account\<close>

text \<open>The account-changed abort: only with an expected account and a switch context.\<close>

definition switchCheck ::
  "base58 \<Rightarrow> int \<Rightarrow> js_string option \<Rightarrow> AccountSwitchContext option \<Rightarrow> ConnectedAccount \<Rightarrow> js_error + unit" where
  "switchCheck B t expected switchContext account =
     (case (truthyText expected, switchContext) of
        (Some e, Some context) \<Rightarrow>
          guardR (\<not> archAddressesEqual B e (ca_archAddress account))
            (walletAccountChangedError B t e (ca_archAddress account) (Some account) context) (Inr ())
      | _ \<Rightarrow> Inr ())"

definition portAccount :: "'w AnsWalletPort \<Rightarrow> ConnectedAccount" where
  "portAccount port =
     \<lparr>ca_address = po_address port, ca_publicKey = po_publicKey port, ca_archAddress = po_archAddress port,
      ca_kind = None, ca_providerId = Some (po_providerId port), ca_providerLabel = Some (po_providerLabel port)\<rparr>"

text \<open>The active port, where it is not the extension's.\<close>

definition kitPort :: "('w, 'p) outside \<Rightarrow> 'w \<Rightarrow> 'w AnsWalletPort option" where
  "kitPort X w =
     (case os_activePort X w of
        Some port \<Rightarrow> if po_providerId port \<noteq> js ''arch-extension'' then Some port else None
      | None \<Rightarrow> None)"

definition probeFlow :: "('w, 'p) outside \<Rightarrow> 'w flow \<Rightarrow> WalletStatus \<times> 'w flow" where
  "probeFlow X w =
     (let (read, e) = os_readWallet X (fl_env w);
          (status, s) = probeWalletStatus (os_base58 X) read (fl_session w) in
      (status, w\<lparr>fl_env := e, fl_session := s\<rparr>))"

definition requireConnectedArchAccount ::
  "('w, 'p) outside \<Rightarrow> js_string option \<Rightarrow> AccountSwitchContext option \<Rightarrow> ('w flow, ConnectedAccount) io" where
  "requireConnectedArchAccount X expected switchContext w =
     (case kitPort X (fl_env w) of
        Some port \<Rightarrow>
          (let account = portAccount port in
           (bindR (switchCheck (os_base58 X) (now (os_timer X) (fl_env w)) expected switchContext account)
              (\<lambda>_. Inr account), w))
      | None \<Rightarrow>
          (case probeFlow X w of
             (status, w') \<Rightarrow>
               (case statusAccount status of
                  None \<Rightarrow> (Inl (walletStatusError status), w')
                | Some account \<Rightarrow>
                    (bindR (switchCheck (os_base58 X) (now (os_timer X) (fl_env w')) expected switchContext account) (\<lambda>_.
                     bindR (assertAnsSigningSupported account) (\<lambda>_. Inr account)), w'))))"

definition actingArchAddress :: "base58 \<Rightarrow> browser \<Rightarrow> js_string option \<Rightarrow> js_string option" where
  "actingArchAddress B b reported = map_option (\<lambda>r. fst (preferredSigner B b r)) (truthyText reported)"

definition adoptCurrentArchAccount :: "('w, 'p) outside \<Rightarrow> ('w flow, ConnectedAccount) io" where
  "adoptCurrentArchAccount X = requireConnectedArchAccount X None None"

text \<open>Past the read: drop the connection, whatever comes of it, and ask for a new one.\<close>

definition reconnect :: "('w, 'p) outside \<Rightarrow> ('w, raw_account option) io \<Rightarrow> ('w flow, ConnectedAccount) io" where
  "reconnect X connect =
     bindIO (catchIO (envIO (os_disconnect X)) (\<lambda>_. retIO ())) (\<lambda>_.
     bindIO (envIO connect) (\<lambda>raw.
     case normalizeAccount raw of
       None \<Rightarrow> throwIO (PlainError (js ''Arch Wallet did not return an archAddress after reconnect.''))
     | Some account \<Rightarrow> pureIO (bindR (assertAnsSigningSupported account) (\<lambda>_. Inr account))))"

definition reconnectArchWallet :: "('w, 'p) outside \<Rightarrow> ('w flow, ConnectedAccount) io" where
  "reconnectArchWallet X w =
     (case os_connect X (fl_env w) of
        None \<Rightarrow> (Inl (PlainError (js ''Arch Wallet is not available. Install/enable the Chrome extension.'')), w)
      | Some connect \<Rightarrow>
          (case probeFlow X w of
             (status, w') \<Rightarrow>
               (case statusAccount status of
                  Some current \<Rightarrow>
                    if isSignableAccount current then (Inr current, w') else reconnect X connect w'
                | None \<Rightarrow> reconnect X connect w')))"

section \<open>Creating the account\<close>

definition archAccountExists :: "('w, 'p) outside \<Rightarrow> js_string \<Rightarrow> ('w flow, bool) io" where
  "archAccountExists X archAddress =
     bindIO (pureIO (requireArchKey (os_base58 X) archAddress)) (\<lambda>pubkey.
     bindIO (readAccountInfo (flowTransport (os_transport X)) pubkey) (\<lambda>info. retIO (info \<noteq> None)))"

text \<open>\<open>Uint8Array.from(v)\<close>, \<open>v.map(f)\<close> and \<open>[...v]\<close> for what is by its declared type an array.\<close>

definition uint8From :: "jsval \<Rightarrow> js_error + bytes" where
  "uint8From v =
     (case v of Arr ns \<Rightarrow> Inr (map (\<lambda>n. byteOf (toNumber n)) ns) | Buf bs \<Rightarrow> Inr bs | _ \<Rightarrow> Inl typeError)"

definition itemsOf :: "jsval \<Rightarrow> js_error + jsval list" where
  "itemsOf v = (case v of Arr vs \<Rightarrow> Inr vs | _ \<Rightarrow> Inl typeError)"

definition sdkMessageInstruction :: "jsval \<Rightarrow> js_error + jsval" where
  "sdkMessageInstruction instruction =
     bindR (field instruction (js ''program_id_index'')) (\<lambda>index.
     bindR (uint8From (optField instruction (js ''data''))) (\<lambda>data.
     Inr (Obj [(js ''program_id_index'', index), (js ''accounts'', optField instruction (js ''accounts'')),
               (js ''data'', Buf data)])))"

definition faucetMessage :: "jsval \<Rightarrow> js_error + jsval" where
  "faucetMessage message =
     bindR (field message (js ''header'')) (\<lambda>header.
     bindR (bindR (itemsOf (optField message (js ''account_keys''))) (mapR uint8From)) (\<lambda>keys.
     bindR (uint8From (optField message (js ''recent_blockhash''))) (\<lambda>blockhash.
     bindR (bindR (itemsOf (optField message (js ''instructions''))) (mapR sdkMessageInstruction)) (\<lambda>instructions.
     Inr (Obj [(js ''header'', header), (js ''account_keys'', Arr (map Buf keys)),
               (js ''recent_blockhash'', Buf blockhash), (js ''instructions'', Arr instructions)])))))"

text \<open>\<open>{...v, k: x}\<close>.\<close>

definition withField :: "jsval \<Rightarrow> js_string \<Rightarrow> jsval \<Rightarrow> jsval" where
  "withField v k x =
     Obj (case v of
            Obj fs \<Rightarrow> if hasField v k then map (\<lambda>(n, y). (n, if n = k then x else y)) fs else fs @ [(k, x)]
          | _ \<Rightarrow> [(k, x)])"

text \<open>The unsigned transaction of the faucet's answer.\<close>

definition faucetResult :: "('w, 'p) outside \<Rightarrow> response \<Rightarrow> js_error + jsval" where
  "faucetResult X response =
     guardR (\<not> responseOk response) (PlainError (js ''Arch faucet HTTP '' @ showInt (rs_status response)))
    (bindR (rs_json response) (\<lambda>body.
     bindR (field body (js ''error'')) (\<lambda>error.
     let result = optField body (js ''result'') in
     if truthy error \<or> \<not> truthy result
     then Inl (PlainError
       (if isNullish (optField error (js ''message''))
        then (js ''Could not create your Arch account via the testnet faucet. Open Arch Wallet '' @
           js ''and complete onboarding first.'')
        else showValue (os_fraction X) (optField error (js ''message''))))
     else Inr result)))"

text \<open>Up to the point where the node has the account-creation transaction.\<close>

definition faucetSubmit :: "('w, 'p) outside \<Rightarrow> bytes \<Rightarrow> ('w flow) hash_signer \<Rightarrow> ('w flow, js_string) io" where
  "faucetSubmit X pubkey signHash =
     bindIO (pureIO (params_create_account_with_faucet (KeyBytes pubkey))) (\<lambda>params.
     bindIO (emit FaucetAsked) (\<lambda>_.
     bindIO (envIO (os_post X (os_rpcUrl X) (requestBody (js ''create_account_with_faucet'') params))) (\<lambda>response.
     bindIO (pureIO (faucetResult X response)) (\<lambda>result.
     bindIO (pureIO (faucetMessage (optField result (js ''message'')))) (\<lambda>message.
     bindIO (signHash (textDecode (sdk_hash (os_sdk X) message))) (\<lambda>signature.
     bindIO (pureIO (sdk_adjustSignature (os_sdk X) (hexToBytesLoose signature))) (\<lambda>adjusted.
     bindIO (pureIO (itemsOf (optField result (js ''signatures'')))) (\<lambda>signatures.
     sendTransaction (flowTransport (os_transport X))
       (withField result (js ''signatures'') (Arr (signatures @ [numberArray (hexToBytesLoose (bytesToHex adjusted))])))))))))))"

definition faucetTimeoutError :: "('w, 'p) outside \<Rightarrow> js_string \<Rightarrow> js_error option \<Rightarrow> js_error" where
  "faucetTimeoutError X txid lastLookupError =
     (let lookupDetail =
        (case lastLookupError of
           Some e \<Rightarrow> if isTransactionNotIndexedError (os_cause X) (ThrownError e) then []
                     else js '' Last status lookup failed: '' @ errorMessage e
         | None \<Rightarrow> []) in
      PlainError (js ''Arch account creation was submitted but the account is not visible yet '' @
         js ''(transaction '' @ txid @ js ''). Wait a few seconds and retry '' @ [0x2014] @
         js '' retrying is safe, it will not create a second account.'' @ lookupDetail))"

definition createArchAccountWithFaucet ::
  "('w, 'p) outside \<Rightarrow> js_string \<Rightarrow> ('w flow) hash_signer \<Rightarrow> ('w flow, unit) aio" where
  "createArchAccountWithFaucet X archAddress signHash =
     bindA (liftA (pureIO (requireArchKey (os_base58 X) archAddress))) (\<lambda>pubkey.
     bindA (liftA (faucetSubmit X pubkey signHash)) (\<lambda>txid.
     bindA (waitForTransaction (flowTimer (os_timer X)) (flowTransport (os_transport X)) txid
         (Some (bindIO (readAccountInfo (flowTransport (os_transport X)) pubkey) (\<lambda>info. retIO (info \<noteq> None))))
         (Some 180000) None) (\<lambda>outcome.
     liftA (case outcome of
       Complete \<Rightarrow> retIO ()
     | Timeout lastLookupError \<Rightarrow> throwIO (faucetTimeoutError X txid lastLookupError)))))"

section \<open>One attempt\<close>

definition signMessageHashHex :: "('w, 'p) outside \<Rightarrow> ('w flow) hash_signer" where
  "signMessageHashHex X messageHashHex =
     bindIO (emit (Asked messageHashHex)) (\<lambda>_.
     bindIO (envIO (\<lambda>w. case os_activePort X w of
         Some port \<Rightarrow> po_signMessageHash port messageHashHex w
       | None \<Rightarrow> createArchExtensionHashSigner (os_archSigner X) messageHashHex w)) (\<lambda>signature.
     bindIO (emit (Signed signature)) (\<lambda>_. retIO signature)))"

text \<open>The loop of \<open>identifySigner\<close>: the first candidate the signature verifies for, and every verdict up to it.\<close>

fun probeCandidates ::
  "('w, 'p) outside \<Rightarrow> js_string \<Rightarrow> js_string \<Rightarrow> SignerProbe list \<Rightarrow> js_string list \<Rightarrow> js_string option \<times> SignerProbe list" where
  "probeCandidates X h signature probes [] = (None, probes)"
| "probeCandidates X h signature probes (candidate # cs) =
     (let result = checkArchSignature (os_base58 X) (os_curve X) (Some candidate) h signature;
          probes' = probes @ [\<lparr>pr_fingerprint = archIdentityFingerprint (os_base58 X) (Some candidate), pr_result = result\<rparr>] in
      if result = SigMatch then (Some candidate, probes') else probeCandidates X h signature probes' cs)"

definition identifySigner ::
  "('w, 'p) outside \<Rightarrow> browser \<Rightarrow> js_string \<Rightarrow> js_string \<Rightarrow> js_string \<Rightarrow> js_string \<Rightarrow> js_string option \<times> SignerProbe list" where
  "identifySigner X b payer reported messageHashHex signature64Hex =
     probeCandidates X messageHashHex signature64Hex [] (signerCandidates (os_base58 X) b payer [Some reported])"

text \<open>The parameters of an attempt, with the two values it fixes at its start.\<close>

record attempt =
  at_actor :: js_string
  at_reported :: js_string
  at_pinSource :: pin_source
  at_number :: nat
  at_pinnedAt :: int
  at_approvalTotal :: nat

definition checkpointText :: "attempt \<Rightarrow> nat \<Rightarrow> js_string" where
  "checkpointText A index =
     (js ''attempt-'' @ decimal (at_number A) @ js ''-approval-'' @ decimal (index + 1) @ js ''-of-'' @
        decimal (at_approvalTotal A))"

text \<open>The abort is armed once an approval has been given.\<close>

definition switchContextOf :: "attempt \<Rightarrow> nat \<Rightarrow> AccountSwitchContext option" where
  "switchContextOf A index =
     (if index > 0
      then Some \<lparr>sc_pinSource = at_pinSource A, sc_pinnedAt = at_pinnedAt A, sc_approvalsCompleted = index,
             sc_checkpoint = checkpointText A index\<rparr>
      else None)"

definition nextApproval :: "attempt \<Rightarrow> ('w flow, unit) io" where
  "nextApproval A w =
     (let v = fl_vars w; index = sv_approvalIndex v + 1;
          progress = \<lparr>sp_phase = sv_phase v, sp_confirming = False, sp_approvalIndex = index,
            sp_approvalTotal = at_approvalTotal A, sp_attempt = at_number A\<rparr> in
      emit (Shown progress) (w\<lparr>fl_vars := v\<lparr>sv_approvalIndex := index, sv_progress := Some progress\<rparr>\<rparr>))"

text \<open>What becomes of a signature: it is used, or refused where some key has verified.\<close>

definition judgeSignature :: "('w, 'p) outside \<Rightarrow> attempt \<Rightarrow> js_string \<Rightarrow> js_string \<Rightarrow> ('w flow, js_string) io" where
  "judgeSignature X A messageHashHex signature w =
     (case checkArchSignature (os_base58 X) (os_curve X) (Some (at_actor A)) messageHashHex signature of
        SigMatch \<Rightarrow> (Inr signature, w\<lparr>fl_vars := (fl_vars w)\<lparr>sv_verifierProven := True\<rparr>\<rparr>)
      | SigUnverifiable \<Rightarrow> (Inr signature, w)
      | SigMismatch \<Rightarrow>
          (let (signer, probes) = identifySigner X (se_browser (fl_session w)) (at_actor A) (at_reported A) messageHashHex signature;
               proven = (sv_verifierProven (fl_vars w) \<or> truthyText signer \<noteq> None);
               w' = w\<lparr>fl_vars := (fl_vars w)\<lparr>sv_verifierProven := proven\<rparr>\<rparr> in
           if proven
           then (Inl (signerMismatchError (os_base58 X) (at_actor A) signer probes (sv_approvalIndex (fl_vars w) - 1)), w')
           else (Inr signature, w')))"

definition signWithActor :: "('w, 'p) outside \<Rightarrow> attempt \<Rightarrow> ('w flow) hash_signer" where
  "signWithActor X A messageHashHex w =
     bindIO (requireConnectedArchAccount X (Some (at_reported A)) (switchContextOf A (sv_approvalIndex (fl_vars w)))) (\<lambda>_.
     bindIO (nextApproval A) (\<lambda>_.
     bindIO (signMessageHashHex X messageHashHex) (\<lambda>signature.
     judgeSignature X A messageHashHex signature))) w"

definition onSubmitted :: "js_string \<Rightarrow> ('w flow, unit) io" where
  "onSubmitted txid w =
     (case sv_progress (fl_vars w) of
        None \<Rightarrow> (Inr (), w)
      | Some progress \<Rightarrow>
          (let progress' = progress\<lparr>sp_confirming := True\<rparr> in
           emit (Shown progress') (w\<lparr>fl_vars := (fl_vars w)\<lparr>sv_progress := Some progress'\<rparr>\<rparr>)))"

type_synonym 'w instruction_builder = "js_string \<Rightarrow> ('w, BuiltInstruction) io"

definition sendMutation ::
  "('w, 'p) outside \<Rightarrow> 'w instruction_builder \<Rightarrow> (js_string \<Rightarrow> ('w, bool) io) option \<Rightarrow> attempt \<Rightarrow> ('w flow, js_string) aio" where
  "sendMutation X build confirmEffect A =
     bindA (liftA (envIO (build (at_actor A)))) (\<lambda>instruction.
     bindA (liftA (pureIO (requireArchKey (os_base58 X) (at_actor A)))) (\<lambda>feePayer.
     signAndSendInstruction (os_lower X) (os_sdk X) (flowTimer (os_timer X)) (flowTransport (os_transport X)) instruction
       feePayer (makeAnsSigner (os_sdk X) (signWithActor X A)) None None None
       (map_option (\<lambda>f. envIO (f (at_actor A))) confirmEffect) (Some onSubmitted)))"

text \<open>The \<open>catch\<close> of an attempt.\<close>

definition attemptFailure :: "('w, 'p) outside \<Rightarrow> js_error \<Rightarrow> ('w flow, js_string \<times> bool) io" where
  "attemptFailure X error w =
     (case error of
        TransactionPendingError txid _ \<Rightarrow> (Inr (txid, False), w)
      | WalletAccountChangedError _ _ _ _ _ \<Rightarrow> (Inl error, w)
      | SignerMismatchError _ _ _ _ _ \<Rightarrow> (Inl error, w)
      | UnsupportedWalletKindError _ \<Rightarrow> (Inl error, w)
      | _ \<Rightarrow> (Inl (AnsStepError (sv_phase (fl_vars w)) (sv_progress (fl_vars w))
               (PlainError (formatAnsMutationError (os_cause X) error))), w))"

definition attemptBody ::
  "('w, 'p) outside \<Rightarrow> 'w instruction_builder \<Rightarrow> (js_string \<Rightarrow> ('w, bool) io) option \<Rightarrow> attempt \<Rightarrow> bool \<Rightarrow>
   ('w flow, js_string \<times> bool) aio" where
  "attemptBody X build confirmEffect A needsAccountSetup =
     bindA (if needsAccountSetup
            then bindA (createArchAccountWithFaucet X (at_actor A) (signWithActor X A)) (\<lambda>_.
                 liftA (setVars (\<lambda>v. v\<lparr>sv_phase := Mutation\<rparr>)))
            else liftA (retIO ())) (\<lambda>_.
     bindA (sendMutation X build confirmEffect A) (\<lambda>txid.
     liftA (retIO (txid, True))))"

definition startAttempt :: "bool \<Rightarrow> ('w flow, unit) io" where
  "startAttempt needsAccountSetup = setVars (\<lambda>_.
     \<lparr>sv_approvalIndex = 0, sv_phase = (if needsAccountSetup then AccountSetup else Mutation), sv_progress = None,
      sv_verifierProven = False\<rparr>)"

definition runSubmitAttempt ::
  "('w, 'p) outside \<Rightarrow> 'w instruction_builder \<Rightarrow> (js_string \<Rightarrow> ('w, bool) io) option \<Rightarrow>
   js_string \<Rightarrow> js_string \<Rightarrow> pin_source \<Rightarrow> nat \<Rightarrow> ('w flow, js_string \<times> bool) aio" where
  "runSubmitAttempt X build confirmEffect actor reported pinSource n w =
     bindA (liftA (archAccountExists X actor)) (\<lambda>exists.
     bindA (liftA (startAttempt (\<not> exists))) (\<lambda>_.
     catchA (attemptBody X build confirmEffect
         \<lparr>at_actor = actor, at_reported = reported, at_pinSource = pinSource, at_number = n,
          at_pinnedAt = now (os_timer X) (fl_env w), at_approvalTotal = (if exists then 1 else 2)\<rparr> (\<not> exists))
       (attemptFailure X))) w"

section \<open>submitWithWindowArch\<close>

record SubmitOutcome =
  so_txid :: js_string
  so_actorArchAddress :: js_string
  so_adopted :: bool
  so_confirmed :: bool

definition rememberSigner :: "('w, 'p) outside \<Rightarrow> js_string \<Rightarrow> js_string \<Rightarrow> 'w flow \<Rightarrow> 'w flow" where
  "rememberSigner X reported signer w =
     w\<lparr>fl_session := (fl_session w)\<lparr>se_browser :=
        rememberSignerObservation (os_base58 X) reported signer (now (os_timer X) (fl_env w)) (se_browser (fl_session w))\<rparr>\<rparr>"

definition identifiedSigner :: "nat \<Rightarrow> js_error \<Rightarrow> js_string option" where
  "identifiedSigner n error =
     (case error of SignerMismatchError _ signer _ _ _ \<Rightarrow> if n = 1 then truthyText signer else None | _ \<Rightarrow> None)"

text \<open>The loop; the number is that of the attempts that are left of the two.\<close>

fun submitLoop ::
  "('w, 'p) outside \<Rightarrow> 'w instruction_builder \<Rightarrow> (js_string \<Rightarrow> ('w, bool) io) option \<Rightarrow> js_string \<Rightarrow> nat \<Rightarrow>
   js_string \<Rightarrow> pin_source \<Rightarrow> ('w flow, SubmitOutcome) aio" where
  "submitLoop X build confirmEffect reported 0 actor pinSource w =
     Some (Inl (PlainError (js ''Arch Wallet signing did not converge on an account.'')), w)"
| "submitLoop X build confirmEffect reported (Suc left) actor pinSource w =
     (case runSubmitAttempt X build confirmEffect actor reported pinSource (2 - left) w of
        None \<Rightarrow> None
      | Some (Inr (txid, confirmed), w') \<Rightarrow>
          Some (Inr \<lparr>so_txid = txid, so_actorArchAddress = actor,
                  so_adopted = (\<not> archAddressesEqual (os_base58 X) actor reported), so_confirmed = confirmed\<rparr>,
                rememberSigner X reported actor w')
      | Some (Inl error, w') \<Rightarrow>
          (case identifiedSigner (2 - left) error of
             None \<Rightarrow> Some (Inl error, w')
           | Some identified \<Rightarrow>
               submitLoop X build confirmEffect reported left identified Observed (rememberSigner X reported identified w')))"

definition submitWithWindowArch ::
  "('w, 'p) outside \<Rightarrow> 'w instruction_builder \<Rightarrow> (js_string \<Rightarrow> ('w, bool) io) option \<Rightarrow> ('w flow, SubmitOutcome) aio" where
  "submitWithWindowArch X build confirmEffect w =
     (case kitPort X (fl_env w) of
        Some port \<Rightarrow>
          bindA (runSubmitAttempt X build confirmEffect (po_archAddress port) (po_archAddress port) Reported 1) (\<lambda>(txid, confirmed).
          liftA (retIO \<lparr>so_txid = txid, so_actorArchAddress = po_archAddress port, so_adopted = False,
            so_confirmed = confirmed\<rparr>)) w
      | None \<Rightarrow>
          bindA (liftA (requireConnectedArchAccount X None None)) (\<lambda>account w'.
          case preferredSigner (os_base58 X) (se_browser (fl_session w')) (ca_archAddress account) of
            (actor, pinSource, _) \<Rightarrow> submitLoop X build confirmEffect (ca_archAddress account) 2 actor pinSource w') w)"

end
