(* ===== verification/Submit_Flow.thy ===== *)
theory Submit_Flow
  imports Submit
begin

text \<open>
  What a submission does, in order: the trace of an attempt is a beginning of one fixed sequence of approvals and
  transactions, an attempt is repeated at most once, and it always settles. From the trace follows what the
  abort errors can say about the network.
\<close>

section \<open>Steps\<close>

lemma bindIO_cases:
  assumes "bindIO m k w = (r, w'')"
  obtains e where "m w = (Inl e, w'')" "r = Inl e" | a w' where "m w = (Inr a, w')" "k a w' = (r, w'')"
  using assms by (auto simp: bindIO_def split: prod.splits sum.splits)

lemma bindA_cases:
  assumes "bindA m k w = Some (r, w'')"
  obtains e where "m w = Some (Inl e, w'')" "r = Inl e" | a w' where "m w = Some (Inr a, w')" "k a w' = Some (r, w'')"
  using assms by (auto simp: bindA_def split: option.splits prod.splits sum.splits)

lemma liftA_iff [simp]: "liftA m w = Some x \<longleftrightarrow> m w = x"
  by (simp add: liftA_def)

lemma bindA_liftA [simp]: "bindA (liftA (retIO a)) k = k a" "bindA (liftA (throwIO e)) k w = Some (Inl e, w)"
  by (auto simp: bindA_def liftA_def)

text \<open>Steps of the outside leave the page's part of the world alone.\<close>

definition quiet :: "'w flow \<Rightarrow> 'w flow \<Rightarrow> bool" where
  "quiet w w' \<longleftrightarrow> fl_trace w' = fl_trace w \<and> fl_vars w' = fl_vars w"

lemma quiet_refl [simp]: "quiet w w"
  by (simp add: quiet_def)

lemma quiet_trans [trans]: "quiet u v \<Longrightarrow> quiet v w \<Longrightarrow> quiet u w"
  by (simp add: quiet_def)

lemma envIO_quiet: "envIO m w = (r, w') \<Longrightarrow> quiet w w'"
  by (auto simp: envIO_def quiet_def split: prod.splits)

lemma probeFlow_quiet: "probeFlow X w = (status, w') \<Longrightarrow> quiet w w'"
  by (auto simp: probeFlow_def quiet_def split: prod.splits)

lemma require_quiet: "requireConnectedArchAccount X expected switchContext w = (r, w') \<Longrightarrow> quiet w w'"
  by (auto simp: requireConnectedArchAccount_def Let_def dest!: probeFlow_quiet split: option.splits prod.splits)

text \<open>What every poll and every pause of a wait keeps, the wait keeps.\<close>

definition pollsKeep ::
  "('v \<Rightarrow> bool) \<Rightarrow> 'v timer \<Rightarrow> ('v, 'tx) AnsTransport \<Rightarrow> js_string \<Rightarrow> ('v, bool) io option \<Rightarrow> int \<Rightarrow> bool" where
  "pollsKeep I C T txid isComplete interval \<longleftrightarrow>
     (\<forall>w. I w \<longrightarrow> I (snd (getProcessedTransaction T txid w)) \<and> I (sleep C interval w) \<and>
       (\<forall>check. isComplete = Some check \<longrightarrow> I (snd (check w))))"

lemma waitRound_keeps:
  assumes "pollsKeep I C T txid isComplete interval" "I w" "waitRound T txid isComplete st w = (d, w')"
  shows "I w'"
proof -
  obtain d1 w1 where p: "probe isComplete st w = (d1, w1)" by fastforce
  have w1: "I w1"
  proof (cases isComplete)
    case None
    with p assms(2) show ?thesis by (simp add: probe_def)
  next
    case (Some check)
    obtain x w2 where c: "check w = (x, w2)" by fastforce
    have "I (snd (check w))" using assms(1,2) Some unfolding pollsKeep_def by blast
    with c have "I w2" by simp
    with c show ?thesis using p Some by (auto simp: probe_def split: sum.splits bool.splits)
  qed
  obtain x w2 where l: "getProcessedTransaction T txid w1 = (x, w2)" by fastforce
  have "I (snd (getProcessedTransaction T txid w1))" using assms(1) w1 unfolding pollsKeep_def by blast
  with l have "I w2" by simp
  have "snd (lookup T txid (isComplete \<noteq> None) st' w1) = w2" for st'
    by (simp add: lookup_def l split: option.splits sum.splits)
  then have "\<And>st' d' w3. lookup T txid (isComplete \<noteq> None) st' w1 = (d', w3) \<Longrightarrow> I w3"
    using \<open>I w2\<close> by (metis snd_conv)
  then show ?thesis
    using assms(3) p w1 by (cases d1) (auto simp: waitRound_def)
qed

lemma waitLoop_keeps:
  assumes "waitLoop C T txid isComplete interval deadline st w = Some out"
    and "pollsKeep I C T txid isComplete interval" "I w"
  shows "I (snd out)"
proof -
  have "pollsKeep I C T txid isComplete interval \<longrightarrow> I w \<longrightarrow> I (snd out)"
    using assms(1)
  proof (rule waitLoop.raw_induct [where P = "\<lambda>C T txid isComplete interval deadline st w out.
      pollsKeep I C T txid isComplete interval \<longrightarrow> I w \<longrightarrow> I (snd out)", rotated])
    fix loop C T txid isComplete interval deadline st w out
    assume IH: "\<And>C T txid isComplete interval deadline st w out.
        loop C T txid isComplete interval deadline st w = Some out \<Longrightarrow>
        pollsKeep I C T txid isComplete interval \<longrightarrow> I w \<longrightarrow> I (snd out)"
      and body: "(case waitRound T txid isComplete st w of
          (Return r, w') \<Rightarrow> Some (Inr r, w')
        | (Throw e, w') \<Rightarrow> Some (Inl e, w')
        | (Again st', w') \<Rightarrow>
            if now C w' + interval > deadline
            then Some (Inr (Timeout (if ws_processed st' then None else ws_lastLookupError st')), w')
            else loop C T txid isComplete interval deadline st' (sleep C interval w')) = Some out"
    show "pollsKeep I C T txid isComplete interval \<longrightarrow> I w \<longrightarrow> I (snd out)"
    proof (intro impI)
      assume polls: "pollsKeep I C T txid isComplete interval" and "I w"
      obtain d w' where round: "waitRound T txid isComplete st w = (d, w')" by fastforce
      then have "I w'" using waitRound_keeps [OF polls \<open>I w\<close>] by blast
      moreover have "I (sleep C interval w')" using polls \<open>I w'\<close> by (simp add: pollsKeep_def)
      ultimately show "I (snd out)" using body IH polls by (cases d) (auto simp: round split: if_splits)
    qed
  qed
  then show ?thesis using assms by blast
qed

lemma flowTransport_simps [simp]:
  "readAccountInfo (flowTransport T) a = envIO (readAccountInfo T a)"
  "getBestBlockHash (flowTransport T) = envIO (getBestBlockHash T)"
  "sendTransaction (flowTransport T) tx = bindIO (emit (Sent tx)) (\<lambda>_. envIO (sendTransaction T tx))"
  "getProcessedTransaction (flowTransport T) txid = envIO (getProcessedTransaction T txid)"
  by (simp_all add: flowTransport_def)

text \<open>Waits of the flow are quiet, whatever outside computation is the success signal.\<close>

lemma flow_wait:
  assumes "waitForTransaction (flowTimer C) (flowTransport T) txid isComplete timeoutMs intervalMs w = Some (r, w')"
    and "\<And>check. isComplete = Some check \<Longrightarrow> \<exists>m. check = envIO m"
  shows "quiet w w'" and "r = Inl e \<Longrightarrow> \<exists>text. e = PlainError text"
proof -
  obtain deadline interval st where loop:
      "waitLoop (flowTimer C) (flowTransport T) txid isComplete interval deadline st w = Some (r, w')"
    using assms(1) by (auto simp: waitForTransaction_def Let_def)
  have "pollsKeep (quiet w) (flowTimer C) (flowTransport T) txid isComplete interval"
    using assms(2)
    by (auto simp: pollsKeep_def quiet_def flowTimer_def envIO_def split: prod.splits)
  from waitLoop_keeps [OF loop this] show "quiet w w'" by simp
  show "r = Inl e \<Longrightarrow> \<exists>text. e = PlainError text"
    using waitLoop_ends [OF loop] by (auto simp: endsRightly_def failedStatus_def failureOf_def)
qed

section \<open>Errors of the flow itself\<close>

fun isAccountChanged :: "js_error \<Rightarrow> bool" where
  "isAccountChanged (WalletAccountChangedError _ _ _ _ _) = True"
| "isAccountChanged _ = False"

fun isMismatch :: "js_error \<Rightarrow> bool" where
  "isMismatch (SignerMismatchError _ _ _ _ _) = True"
| "isMismatch _ = False"

fun isPending :: "js_error \<Rightarrow> bool" where
  "isPending (TransactionPendingError _ _) = True"
| "isPending _ = False"

definition outsideError :: "js_error \<Rightarrow> bool" where
  "outsideError e \<longleftrightarrow> \<not> isAccountChanged e \<and> \<not> isMismatch e \<and> \<not> isPending e"

lemma outsideError_simps [simp]:
  "outsideError (PlainError m)" "outsideError (AnsError c m)" "outsideError (ArchRpcError mt cd dt tx)" "outsideError typeError"
  "outsideError WalletLockedError" "outsideError SiteNotConnectedError" "outsideError (UnsupportedWalletKindError k)"
  "outsideError unrecognizedSignature"
  by (simp_all add: outsideError_def typeError_def unrecognizedSignature_def)

definition outsideThrows :: "('w, 'a) io \<Rightarrow> bool" where
  "outsideThrows m \<longleftrightarrow> (\<forall>w e w'. m w = (Inl e, w') \<longrightarrow> outsideError e)"

text \<open>Code outside the flow throws none of the three errors that the flow gives a meaning to.\<close>

definition plainOutside :: "('w, 'p) outside \<Rightarrow> 'w instruction_builder \<Rightarrow> bool" where
  "plainOutside X build \<longleftrightarrow>
     (\<forall>a. outsideThrows (readAccountInfo (os_transport X) a)) \<and> outsideThrows (getBestBlockHash (os_transport X)) \<and>
     (\<forall>tx. outsideThrows (sendTransaction (os_transport X) tx)) \<and>
     (\<forall>w port h. os_activePort X w = Some port \<longrightarrow> outsideThrows (po_signMessageHash port h)) \<and>
     (\<forall>w sign bs. os_archSigner X w = Some sign \<longrightarrow> outsideThrows (sign bs)) \<and>
     (\<forall>u v. outsideThrows (os_post X u v)) \<and>
     (\<forall>u v w rs w' e. os_post X u v w = (Inr rs, w') \<longrightarrow> rs_json rs = Inl e \<longrightarrow> outsideError e) \<and>
     (\<forall>bs e. sdk_adjustSignature (os_sdk X) bs = Inl e \<longrightarrow> outsideError e) \<and>
     (\<forall>a. outsideThrows (build a))"

lemma walletStatusError_outside: "outsideError (walletStatusError status)"
  by (cases status) (simp_all add: walletStatusError_def)

lemma signerMismatchError_is: "isMismatch (signerMismatchError B payer signer probes n)"
  by (simp add: signerMismatchError_def)

lemma require_errors:
  assumes "requireConnectedArchAccount X expected switchContext w = (Inl e, w')"
  shows "\<not> isMismatch e \<and> \<not> isPending e \<and> (isAccountChanged e \<longrightarrow> switchContext \<noteq> None)"
proof -
  have sw: "\<not> isMismatch e \<and> \<not> isPending e \<and> (isAccountChanged e \<longrightarrow> switchContext \<noteq> None)"
    if "switchCheck B t expected switchContext account = Inl e" for B t account
    using that by (auto simp: switchCheck_def walletAccountChangedError_def guardR_def split: option.splits if_splits)
  have kind: "\<not> isMismatch e \<and> \<not> isPending e \<and> \<not> isAccountChanged e" if "assertAnsSigningSupported account = Inl e" for account
    using that by (auto simp: assertAnsSigningSupported_def guardR_def split: if_splits)
  show ?thesis
    using assms walletStatusError_outside sw kind
    by (fastforce simp: requireConnectedArchAccount_def Let_def bindR_eq_Inl_iff outsideError_def
        split: option.splits prod.splits)
qed

section \<open>A signature\<close>

datatype event_kind = KShown | KAsked | KSigned | KSent | KFaucet

fun kindE :: "flow_event \<Rightarrow> event_kind" where
  "kindE (Shown _) = KShown"
| "kindE (Asked _) = KAsked"
| "kindE (Signed _) = KSigned"
| "kindE (Sent _) = KSent"
| "kindE FaucetAsked = KFaucet"

section \<open>What a computation establishes\<close>

text \<open>A triple with two postconditions: from a world with \<open>P\<close>, a computation that returns gives \<open>Q\<close> and one that rejects gives
  \<open>E\<close>.\<close>

definition spec :: "('v \<Rightarrow> bool) \<Rightarrow> ('v, 'a) aio \<Rightarrow> ('a \<Rightarrow> 'v \<Rightarrow> bool) \<Rightarrow> (js_error \<Rightarrow> 'v \<Rightarrow> bool) \<Rightarrow> bool" where
  "spec P m Q E \<longleftrightarrow>
     (\<forall>w r w'. P w \<longrightarrow> m w = Some (r, w') \<longrightarrow> (case r of Inr a \<Rightarrow> Q a w' | Inl e \<Rightarrow> E e w'))"

lemma specI: "(\<And>w r w'. P w \<Longrightarrow> m w = Some (r, w') \<Longrightarrow> case r of Inr a \<Rightarrow> Q a w' | Inl e \<Rightarrow> E e w') \<Longrightarrow> spec P m Q E"
  by (simp add: spec_def)

lemma specD: "spec P m Q E \<Longrightarrow> P w \<Longrightarrow> m w = Some (r, w') \<Longrightarrow> case r of Inr a \<Rightarrow> Q a w' | Inl e \<Rightarrow> E e w'"
  by (simp add: spec_def)

lemma spec_bindA:
  assumes "spec P m R E" "\<And>a. spec (R a) (k a) Q E"
  shows "spec P (bindA m k) Q E"
proof (rule specI)
  fix w r w'
  assume "P w" "bindA m k w = Some (r, w')"
  from this(2) show "case r of Inr a \<Rightarrow> Q a w' | Inl e \<Rightarrow> E e w'"
  proof (cases rule: bindA_cases)
    case (1 e)
    then show ?thesis using specD [OF assms(1) \<open>P w\<close>] by fastforce
  next
    case (2 a v)
    from specD [OF assms(1) \<open>P w\<close> 2(1)] have "R a v" by simp
    from specD [OF assms(2) this 2(2)] show ?thesis .
  qed
qed

lemma liftA_bindIO: "liftA (bindIO m k) = bindA (liftA m) (\<lambda>a. liftA (k a))"
  by (auto simp: liftA_def bindA_def bindIO_def fun_eq_iff split: prod.splits sum.splits)

lemma spec_bindIO:
  "spec P (liftA m) R E \<Longrightarrow> (\<And>a. spec (R a) (liftA (k a)) Q E) \<Longrightarrow> spec P (liftA (bindIO m k)) Q E"
  unfolding liftA_bindIO by (rule spec_bindA)

lemma spec_weaken:
  "spec P' m Q' E' \<Longrightarrow> (\<And>w. P w \<Longrightarrow> P' w) \<Longrightarrow> (\<And>a w. Q' a w \<Longrightarrow> Q a w) \<Longrightarrow> (\<And>e w. E' e w \<Longrightarrow> E e w) \<Longrightarrow> spec P m Q E"
  unfolding spec_def by (fastforce split: sum.splits)

lemma spec_ret: "(\<And>w. P w \<Longrightarrow> Q a w) \<Longrightarrow> spec P (liftA (retIO a)) Q E"
  by (simp add: spec_def)

lemma spec_pure: "(\<And>a w. r = Inr a \<Longrightarrow> P w \<Longrightarrow> Q a w) \<Longrightarrow> (\<And>e w. r = Inl e \<Longrightarrow> P w \<Longrightarrow> E e w) \<Longrightarrow> spec P (liftA (pureIO r)) Q E"
  by (auto simp: spec_def split: sum.splits)

section \<open>The order of an attempt\<close>

definition setupKinds :: "event_kind list" where
  "setupKinds = [KFaucet, KShown, KAsked, KSigned, KSent]"

definition mutationKinds :: "event_kind list" where
  "mutationKinds = [KShown, KAsked, KSigned, KSent, KShown]"

definition attemptKinds :: "bool \<Rightarrow> event_kind list" where
  "attemptKinds needsAccountSetup = (if needsAccountSetup then setupKinds else []) @ mutationKinds"

text \<open>Where the flow's own errors can end an attempt.\<close>

definition errorAt :: "bool \<Rightarrow> event_kind list \<Rightarrow> js_error \<Rightarrow> bool" where
  "errorAt needs ks e \<longleftrightarrow>
     (isAccountChanged e \<longrightarrow> needs \<and> ks = setupKinds) \<and>
     (isMismatch e \<longrightarrow> ks \<noteq> [] \<and> last ks = KSigned) \<and>
     (isPending e \<longrightarrow> ks = attemptKinds needs)"

lemma outsideError_at: "outsideError e \<Longrightarrow> errorAt needs ks e"
  by (simp add: outsideError_def errorAt_def)

definition traced :: "event_kind list \<Rightarrow> 'w flow \<Rightarrow> bool" where
  "traced ks w \<longleftrightarrow> map kindE (fl_trace w) = ks"

definition stage :: "event_kind list \<Rightarrow> event_kind list \<Rightarrow> nat \<Rightarrow> 'w flow \<Rightarrow> bool" where
  "stage past ks i w \<longleftrightarrow> traced (past @ ks) w \<and> sv_approvalIndex (fl_vars w) = i \<and>
     (0 < i \<longrightarrow> sv_progress (fl_vars w) \<noteq> None)"

definition endsAt :: "bool \<Rightarrow> event_kind list \<Rightarrow> js_error \<Rightarrow> 'w flow \<Rightarrow> bool" where
  "endsAt needs past e w \<longleftrightarrow> (\<exists>ks. prefix ks (attemptKinds needs) \<and> traced (past @ ks) w \<and> errorAt needs ks e)"

definition reached :: "bool \<Rightarrow> event_kind list \<Rightarrow> bool" where
  "reached needs ks \<longleftrightarrow> prefix ks (attemptKinds needs)"

lemma stage_quiet: "stage past ks i w \<Longrightarrow> quiet w w' \<Longrightarrow> stage past ks i w'"
  by (simp add: stage_def traced_def quiet_def)

lemma stage_ends: "reached needs ks \<Longrightarrow> stage past ks i w \<Longrightarrow> errorAt needs ks e \<Longrightarrow> endsAt needs past e w"
  by (auto simp: stage_def reached_def endsAt_def)

lemma plain_ends: "reached needs ks \<Longrightarrow> stage past ks i w \<Longrightarrow> endsAt needs past (PlainError m) w"
  by (erule stage_ends) (simp_all add: outsideError_at)

text \<open>A step of the outside that throws none of the flow's errors.\<close>

lemma spec_outside:
  assumes "reached needs ks" "outsideThrows m"
  shows "spec (stage past ks i) (liftA (envIO m)) (\<lambda>_. stage past ks i) (endsAt needs past)"
proof (rule specI)
  fix w r w'
  assume "stage past ks i w" "liftA (envIO m) w = Some (r, w')"
  then have m: "stage past ks i w" "envIO m w = (r, w')" by simp_all
  have "stage past ks i w'" by (rule stage_quiet [OF m(1) envIO_quiet [OF m(2)]])
  moreover have "r = Inl e \<Longrightarrow> outsideError e" for e
    using m(2) assms(2) by (auto simp: outsideThrows_def envIO_def split: prod.splits)
  ultimately show "case r of Inr a \<Rightarrow> stage past ks i w' | Inl e \<Rightarrow> endsAt needs past e w'"
    by (auto split: sum.splits intro: stage_ends [OF assms(1)] outsideError_at)
qed

lemma spec_outside_pure:
  "reached needs ks \<Longrightarrow> (\<And>e. r = Inl e \<Longrightarrow> outsideError e) \<Longrightarrow>
   spec (stage past ks i) (liftA (pureIO r)) (\<lambda>_. stage past ks i) (endsAt needs past)"
  by (rule spec_pure) (auto intro: stage_ends outsideError_at)

lemma spec_emit: "spec (stage past ks i) (liftA (emit event)) (\<lambda>_. stage past (ks @ [kindE event]) i) E"
  by (auto simp: spec_def emit_def stage_def traced_def)

section \<open>Results whose errors are plain\<close>

definition plainR :: "js_error + 'a \<Rightarrow> bool" where
  "plainR r \<longleftrightarrow> (\<forall>e. r = Inl e \<longrightarrow> outsideError e)"

lemma plainR_simps [simp]: "plainR (Inr a)" "plainR (Inl e) \<longleftrightarrow> outsideError e"
  by (simp_all add: plainR_def)

lemma plainR_bind: "plainR r \<Longrightarrow> (\<And>a. plainR (k a)) \<Longrightarrow> plainR (bindR r k)"
  by (cases r) simp_all

lemma plainR_guard: "outsideError e \<Longrightarrow> plainR r \<Longrightarrow> plainR (guardR b e r)"
  by (simp add: plainR_def guardR_def)

lemma plainR_map: "(\<And>x. plainR (f x)) \<Longrightarrow> plainR (mapR f xs)"
  by (induction xs) (auto simp: plainR_bind)

lemmas plainR_intros = plainR_bind plainR_guard plainR_map

lemma plain_fields [simp]: "plainR (field v k)" "plainR (itemsOf v)" "plainR (uint8From v)" "plainR (requireArchKey B a)"
  by (auto simp: field_def itemsOf_def uint8From_def requireArchKey_def split: jsval.splits option.splits)

lemma plain_message [simp]: "plainR (faucetMessage v)"
  unfolding faucetMessage_def sdkMessageInstruction_def by (intro plainR_intros) simp_all

lemma plain_params [simp]: "plainR (params_create_account_with_faucet (KeyBytes bs))"
  unfolding params_create_account_with_faucet_def pubkeyBytes_def by (intro plainR_intros) simp_all

lemma plain_transaction [simp]: "plainR (normalizeRuntimeTransaction v)"
  unfolding normalizeRuntimeTransaction_def normalizeMessage_def normalizeInstruction_def
  by (intro plainR_intros) simp_all

lemma plain_faucetResult: "plainR (rs_json response) \<Longrightarrow> plainR (faucetResult X response)"
  unfolding faucetResult_def Let_def by (intro plainR_intros) auto

lemma plain_extension [simp]: "plainR (extensionSignatureHex v)"
  by (auto simp: extensionSignatureHex_def split: jsval.splits)

lemma outsideThrows_bind: "outsideThrows m \<Longrightarrow> (\<And>a. outsideThrows (k a)) \<Longrightarrow> outsideThrows (bindIO m k)"
  unfolding outsideThrows_def by (auto elim!: bindIO_cases) blast

lemma outsideThrows_pure: "plainR r \<Longrightarrow> outsideThrows (pureIO r)"
  by (simp add: outsideThrows_def plainR_def)

section \<open>One approval\<close>

text \<open>The wallet as the flow asks it: the active port, or the extension.\<close>

lemma wallet_outside:
  assumes "plainOutside X build"
  shows "outsideThrows (\<lambda>w. case os_activePort X w of
      Some port \<Rightarrow> po_signMessageHash port h w
    | None \<Rightarrow> createArchExtensionHashSigner (os_archSigner X) h w)"
proof -
  have "outsideThrows (bindIO (sign bs) (\<lambda>v. pureIO (extensionSignatureHex v)))"
    if "os_archSigner X w = Some sign" for w sign bs
    using assms that by (intro outsideThrows_bind outsideThrows_pure) (auto simp: plainOutside_def)
  then have "outsideThrows (createArchExtensionHashSigner (os_archSigner X) h)"
    by (auto simp: outsideThrows_def createArchExtensionHashSigner_def Let_def split: option.splits if_splits)
  then show ?thesis
    using assms by (auto simp: plainOutside_def outsideThrows_def split: option.splits)
qed

text \<open>Where an approval is asked for: \<open>i\<close> approvals after the events \<open>ks\<close>.\<close>

definition signable :: "bool \<Rightarrow> event_kind list \<Rightarrow> nat \<Rightarrow> bool" where
  "signable needs ks i \<longleftrightarrow>
     needs \<and> ks = [KFaucet] \<and> i = 0 \<or> needs \<and> ks = setupKinds \<and> i = 1 \<or> \<not> needs \<and> ks = [] \<and> i = 0"

lemmas kinds_simps = attemptKinds_def setupKinds_def mutationKinds_def

lemma signable_reached:
  "signable needs ks i \<Longrightarrow> reached needs ks \<and> reached needs (ks @ [KShown]) \<and> reached needs (ks @ [KShown, KAsked]) \<and>
     reached needs (ks @ [KShown, KAsked, KSigned]) \<and> reached needs (ks @ [KShown, KAsked, KSigned, KSent])"
  by (auto simp: signable_def reached_def kinds_simps)

lemma spec_require:
  assumes "signable needs ks i"
  shows "spec (stage past ks i)
    (\<lambda>w. liftA (requireConnectedArchAccount X (Some reported) (switchContextOf A (sv_approvalIndex (fl_vars w)))) w)
    (\<lambda>_. stage past ks i) (endsAt needs past)"
proof (rule specI)
  fix w r w'
  assume w: "stage past ks i w"
    and "liftA (requireConnectedArchAccount X (Some reported) (switchContextOf A (sv_approvalIndex (fl_vars w)))) w = Some (r, w')"
  then have run: "requireConnectedArchAccount X (Some reported) (switchContextOf A i) w = (r, w')"
    by (simp add: stage_def)
  have w': "stage past ks i w'" by (rule stage_quiet [OF w require_quiet [OF run]])
  have "r = Inl e \<Longrightarrow> errorAt needs ks e" for e
    using require_errors [of X "Some reported" "switchContextOf A i" w e w'] run assms
    by (auto simp: errorAt_def switchContextOf_def signable_def split: if_splits)
  with w' show "case r of Inr a \<Rightarrow> stage past ks i w' | Inl e \<Rightarrow> endsAt needs past e w'"
    using signable_reached [OF assms] by (auto split: sum.splits intro: stage_ends)
qed

lemma spec_nextApproval:
  "spec (stage past ks i) (liftA (nextApproval A)) (\<lambda>_. stage past (ks @ [KShown]) (Suc i)) E"
  by (auto simp: spec_def nextApproval_def emit_def stage_def traced_def Let_def)

lemma spec_sign:
  assumes "plainOutside X build" "reached needs (ks @ [KAsked])"
  shows "spec (stage past ks i) (liftA (signMessageHashHex X h))
    (\<lambda>_. stage past (ks @ [KAsked, KSigned]) i) (endsAt needs past)"
  unfolding signMessageHashHex_def
proof (intro spec_bindIO)
  show "spec (stage past ks i) (liftA (emit (Asked h))) (\<lambda>_. stage past (ks @ [KAsked]) i) (endsAt needs past)"
    using spec_emit [of past ks i "Asked h"] by simp
  show "spec (stage past (ks @ [KAsked]) i) (liftA (envIO (\<lambda>w. case os_activePort X w of
        Some port \<Rightarrow> po_signMessageHash port h w
      | None \<Rightarrow> createArchExtensionHashSigner (os_archSigner X) h w))) (\<lambda>_. stage past (ks @ [KAsked]) i) (endsAt needs past)"
    by (rule spec_outside [OF assms(2) wallet_outside [OF assms(1)]])
  show "spec (stage past (ks @ [KAsked]) i) (liftA (emit (Signed s))) (\<lambda>_. stage past (ks @ [KAsked, KSigned]) i) (endsAt needs past)" for s
    using spec_emit [of past "ks @ [KAsked]" i "Signed s"] by simp
qed (rule spec_ret)

lemma judge_steps:
  assumes "judgeSignature X A h sig w = (r, w')"
  shows "fl_trace w' = fl_trace w \<and> sv_approvalIndex (fl_vars w') = sv_approvalIndex (fl_vars w) \<and>
    sv_phase (fl_vars w') = sv_phase (fl_vars w) \<and> sv_progress (fl_vars w') = sv_progress (fl_vars w) \<and>
    (r = Inr sig \<or> (\<exists>signer probes. r = Inl (signerMismatchError (os_base58 X) (at_actor A) signer probes (sv_approvalIndex (fl_vars w) - 1))))"
  using assms by (auto simp: judgeSignature_def Let_def split: SignatureCheck.splits prod.splits if_splits)

lemma spec_judge:
  assumes "reached needs (ks @ [KSigned])"
  shows "spec (stage past (ks @ [KSigned]) i) (liftA (judgeSignature X A h sig)) (\<lambda>_. stage past (ks @ [KSigned]) i) (endsAt needs past)"
proof (rule specI)
  fix w r w'
  assume w: "stage past (ks @ [KSigned]) i w" and "liftA (judgeSignature X A h sig) w = Some (r, w')"
  then have j: "judgeSignature X A h sig w = (r, w')" by simp
  have w': "stage past (ks @ [KSigned]) i w'" using w judge_steps [OF j] by (simp add: stage_def traced_def)
  have "r = Inl e \<Longrightarrow> errorAt needs (ks @ [KSigned]) e" for e
    using judge_steps [OF j] by (auto simp: errorAt_def signerMismatchError_def)
  with w' show "case r of Inr a \<Rightarrow> stage past (ks @ [KSigned]) i w' | Inl e \<Rightarrow> endsAt needs past e w'"
    by (auto split: sum.splits intro: stage_ends [OF assms])
qed

lemma spec_signWithActor:
  assumes "plainOutside X build" "signable needs ks i"
  shows "spec (stage past ks i) (liftA (signWithActor X A h))
    (\<lambda>_. stage past (ks @ [KShown, KAsked, KSigned]) (Suc i)) (endsAt needs past)"
proof -
  note r = signable_reached [OF assms(2)]
  have "spec (stage past ks i) (bindA
      (\<lambda>w. liftA (requireConnectedArchAccount X (Some (at_reported A)) (switchContextOf A (sv_approvalIndex (fl_vars w)))) w) (\<lambda>_.
      bindA (liftA (nextApproval A)) (\<lambda>_. bindA (liftA (signMessageHashHex X h)) (\<lambda>sig. liftA (judgeSignature X A h sig)))))
    (\<lambda>_. stage past (ks @ [KShown, KAsked, KSigned]) (Suc i)) (endsAt needs past)"
    using spec_sign [OF assms(1), of needs "ks @ [KShown]" past "Suc i" h] spec_judge [of needs "ks @ [KShown, KAsked]" past "Suc i"] r
    by (intro spec_bindA [OF spec_require [OF assms(2)] spec_bindA [OF spec_nextApproval spec_bindA]]) simp_all
  moreover have "liftA (signWithActor X A h) = bindA
      (\<lambda>w. liftA (requireConnectedArchAccount X (Some (at_reported A)) (switchContextOf A (sv_approvalIndex (fl_vars w)))) w) (\<lambda>_.
      bindA (liftA (nextApproval A)) (\<lambda>_. bindA (liftA (signMessageHashHex X h)) (\<lambda>sig. liftA (judgeSignature X A h sig))))"
    unfolding liftA_bindIO [symmetric]
    by (simp add: fun_eq_iff signWithActor_def bindA_def liftA_def bindIO_def split: prod.splits sum.splits)
  ultimately show ?thesis by simp
qed

section \<open>One attempt\<close>

lemma spec_send:
  assumes "plainOutside X build" "reached needs (ks @ [KSent])"
  shows "spec (stage past ks i) (liftA (sendTransaction (flowTransport (os_transport X)) tx))
    (\<lambda>_. stage past (ks @ [KSent]) i) (endsAt needs past)"
proof -
  have "outsideThrows (sendTransaction (os_transport X) tx)" using assms(1) by (simp add: plainOutside_def)
  with spec_emit [of past ks i "Sent tx"] spec_outside [OF assms(2)] show ?thesis
    by (auto intro!: spec_bindIO)
qed

text \<open>A wait is quiet and is rejected with a plain error.\<close>

lemma spec_wait:
  assumes "\<And>check. isComplete = Some check \<Longrightarrow> \<exists>m. check = envIO m" "reached needs ks"
  shows "spec (stage past ks i) (waitForTransaction (flowTimer C) (flowTransport T) txid isComplete timeoutMs intervalMs)
    (\<lambda>_. stage past ks i) (\<lambda>e w. stage past ks i w \<and> outsideError e)"
proof (rule specI)
  fix w r w'
  assume w: "stage past ks i w" and wait: "waitForTransaction (flowTimer C) (flowTransport T) txid isComplete timeoutMs intervalMs w = Some (r, w')"
  note q = flow_wait [OF wait assms(1)]
  have "r = Inl e \<Longrightarrow> outsideError e" for e using q(2) [of e] by auto
  with stage_quiet [OF w q(1)] show "case r of Inr a \<Rightarrow> stage past ks i w' | Inl e \<Rightarrow> stage past ks i w' \<and> outsideError e"
    by (auto split: sum.splits)
qed

lemma spec_plain:
  "reached needs ks \<Longrightarrow> plainR r \<Longrightarrow> spec (stage past ks i) (liftA (pureIO r)) (\<lambda>_. stage past ks i) (endsAt needs past)"
  by (rule spec_outside_pure) (simp_all add: plainR_def)

lemma spec_fact: "(K \<Longrightarrow> spec P m Q E) \<Longrightarrow> spec (\<lambda>w. P w \<and> K) m Q E"
  unfolding spec_def by blast

lemma spec_post:
  assumes "plainOutside X build" "reached needs ks"
  shows "spec (stage past ks i) (liftA (envIO (os_post X u v))) (\<lambda>response w. stage past ks i w \<and> plainR (rs_json response))
    (endsAt needs past)"
proof (rule specI)
  fix w r w'
  assume w: "stage past ks i w" and run: "liftA (envIO (os_post X u v)) w = Some (r, w')"
  have "outsideThrows (os_post X u v)" using assms(1) by (simp add: plainOutside_def)
  from specD [OF spec_outside [OF assms(2) this] w run]
  have "case r of Inr a \<Rightarrow> stage past ks i w' | Inl e \<Rightarrow> endsAt needs past e w'" .
  moreover have "r = Inr response \<Longrightarrow> plainR (rs_json response)" for response
    using run assms(1) unfolding plainOutside_def plainR_def by (fastforce simp: envIO_def split: prod.splits)
  ultimately show "case r of Inr response \<Rightarrow> stage past ks i w' \<and> plainR (rs_json response) | Inl e \<Rightarrow> endsAt needs past e w'"
    by (auto split: sum.splits)
qed

lemma spec_faucetSubmit:
  assumes X: "plainOutside X build" and sign: "\<And>h. spec (stage past [KFaucet] 0) (liftA (signHash h))
      (\<lambda>_. stage past [KFaucet, KShown, KAsked, KSigned] 1) (endsAt True past)"
  shows "spec (stage past [] 0) (liftA (faucetSubmit X pubkey signHash)) (\<lambda>_. stage past setupKinds 1) (endsAt True past)"
proof -
  have r: "reached True []" "reached True [KFaucet]" "reached True [KFaucet, KShown, KAsked, KSigned]"
    "reached True ([KFaucet, KShown, KAsked, KSigned] @ [KSent])"
    by (simp_all add: reached_def kinds_simps)
  have adjust: "plainR (sdk_adjustSignature (os_sdk X) bs)" for bs
    using X by (simp add: plainOutside_def plainR_def)
  have faucet: "spec (stage past [] 0) (liftA (emit FaucetAsked)) (\<lambda>_. stage past [KFaucet] 0) (endsAt True past)"
    using spec_emit [of past "[]" 0 FaucetAsked] by simp
  have result: "spec (\<lambda>w. stage past [KFaucet] 0 w \<and> plainR (rs_json response)) (liftA (pureIO (faucetResult X response)))
      (\<lambda>_. stage past [KFaucet] 0) (endsAt True past)" for response
    by (rule spec_fact) (intro spec_plain r plain_faucetResult)
  show ?thesis
    unfolding faucetSubmit_def
    by (rule spec_bindIO, rule spec_plain [OF r(1) plain_params], rule spec_bindIO, rule faucet,
      rule spec_bindIO, rule spec_post [OF X r(2)], rule spec_bindIO, rule result,
      rule spec_bindIO, rule spec_plain [OF r(2) plain_message], rule spec_bindIO, rule sign,
      rule spec_bindIO, rule spec_plain [OF r(3) adjust], rule spec_bindIO, rule spec_plain [OF r(3) plain_fields(2)])
      (use spec_send [OF X r(4)] in \<open>simp add: setupKinds_def\<close>)
qed

lemma spec_account:
  assumes X: "plainOutside X build" and sign: "\<And>h. spec (stage past [KFaucet] 0) (liftA (signHash h))
      (\<lambda>_. stage past [KFaucet, KShown, KAsked, KSigned] 1) (endsAt True past)"
  shows "spec (stage past [] 0) (createArchAccountWithFaucet X actor signHash) (\<lambda>_. stage past setupKinds 1) (endsAt True past)"
proof -
  have r: "reached True []" "reached True setupKinds" by (simp_all add: reached_def kinds_simps)
  let ?exists = "\<lambda>pubkey. bindIO (readAccountInfo (flowTransport (os_transport X)) pubkey) (\<lambda>info. retIO (info \<noteq> None))"
  have "?exists pubkey = envIO (bindIO (readAccountInfo (os_transport X) pubkey) (\<lambda>info. retIO (info \<noteq> None)))" for pubkey
    by (auto simp: fun_eq_iff envIO_def bindIO_def split: prod.splits sum.splits)
  then have "spec (stage past setupKinds 1) (waitForTransaction (flowTimer (os_timer X)) (flowTransport (os_transport X)) txid
      (Some (?exists pubkey)) (Some 180000) None) (\<lambda>_. stage past setupKinds 1) (\<lambda>e w. stage past setupKinds 1 w \<and> outsideError e)"
    for txid pubkey by - (rule spec_wait [OF _ r(2)], blast)
  then have wait: "spec (stage past setupKinds 1) (waitForTransaction (flowTimer (os_timer X)) (flowTransport (os_transport X)) txid
      (Some (?exists pubkey)) (Some 180000) None) (\<lambda>_. stage past setupKinds 1) (endsAt True past)" for txid pubkey
    by (rule spec_weaken) (auto intro: stage_ends [OF r(2)] outsideError_at)
  have timeout: "spec (stage past setupKinds 1) (liftA (case outcome of
       Complete \<Rightarrow> retIO () | Timeout lastLookupError \<Rightarrow> throwIO (faucetTimeoutError X txid lastLookupError)))
      (\<lambda>_. stage past setupKinds 1) (endsAt True past)" for outcome txid
    by (cases outcome) (auto simp: spec_def faucetTimeoutError_def Let_def intro: plain_ends [OF r(2)])
  show ?thesis
    unfolding createArchAccountWithFaucet_def
    by (rule spec_bindA [OF spec_plain [OF r(1) plain_fields(4)] spec_bindA [OF spec_faucetSubmit [OF X sign] spec_bindA [OF wait timeout]]])
qed

lemma signAndSend_steps:
  "signAndSendInstruction ucd S C T instruction feePayer signer None None None isComplete announce =
   bindA (liftA (submitInstruction S T instruction feePayer signer announce)) (\<lambda>txid w.
     map_option (\<lambda>(outcome, w''). (case outcome of
         Inr Complete \<Rightarrow> Inr txid
       | Inr (Timeout late) \<Rightarrow> Inl (reportFailure ucd (TransactionPendingError txid late))
       | Inl e \<Rightarrow> Inl (reportFailure ucd e), w''))
       (waitForTransaction C T txid isComplete None None w))"
  by (auto simp: fun_eq_iff signAndSendInstruction_def bindA_def liftA_def split: prod.splits sum.splits)

lemma reportFailure_at: "errorAt needs ks e \<Longrightarrow> errorAt needs ks (reportFailure ucd e)"
  by (auto simp: reportFailure_def duplicateRegistrationError_def ansError_def intro!: outsideError_at)

lemma reached_all: "reached needs (attemptKinds needs)"
  by (simp add: reached_def)

lemma spec_confirm:
  assumes "\<And>check. isComplete = Some check \<Longrightarrow> \<exists>m. check = envIO m" and ks: "ks = attemptKinds needs"
  shows "spec (stage past ks i) (\<lambda>w. map_option (\<lambda>(outcome, w'').
       (case outcome of
         Inr Complete \<Rightarrow> Inr txid
       | Inr (Timeout late) \<Rightarrow> Inl (reportFailure ucd (TransactionPendingError txid late))
       | Inl e \<Rightarrow> Inl (reportFailure ucd e), w''))
       (waitForTransaction (flowTimer C) (flowTransport T) txid isComplete None None w))
     (\<lambda>_. stage past ks i) (endsAt needs past)"
proof (rule specI, clarsimp)
  fix w w' outcome
  assume "stage past ks i w" "waitForTransaction (flowTimer C) (flowTransport T) txid isComplete None None w = Some (outcome, w')"
  have r: "reached needs ks" by (simp add: ks reached_all)
  from specD [OF spec_wait [OF assms(1) r] \<open>stage past ks i w\<close>] \<open>_ = Some (outcome, w')\<close>
  have w': "case outcome of Inr a \<Rightarrow> stage past ks i w' | Inl e \<Rightarrow> stage past ks i w' \<and> outsideError e" by blast
  have pending: "errorAt needs ks (reportFailure ucd (TransactionPendingError txid late))" for late
    by (rule reportFailure_at) (simp add: errorAt_def ks)
  show "case case outcome of Inr Complete \<Rightarrow> Inr txid
       | Inr (Timeout late) \<Rightarrow> Inl (reportFailure ucd (TransactionPendingError txid late))
       | Inl e \<Rightarrow> Inl (reportFailure ucd e) of Inr a \<Rightarrow> stage past ks i w' | Inl e \<Rightarrow> endsAt needs past e w'"
    using w'
    by (auto split: sum.splits ConfirmOutcome.splits intro: stage_ends [OF r] pending reportFailure_at outsideError_at)
qed

lemma spec_submitInstruction:
  assumes X: "plainOutside X build" and sign: "\<And>h. spec (stage past ks i) (liftA (signHash h))
      (\<lambda>_. stage past (ks @ [KShown, KAsked, KSigned]) (Suc i)) (endsAt needs past)"
    and s: "signable needs ks i" and ks: "ks @ mutationKinds = attemptKinds needs"
  shows "spec (stage past ks i) (liftA (submitInstruction (os_sdk X) (flowTransport (os_transport X)) instruction feePayer
      (makeAnsSigner (os_sdk X) signHash) (Some onSubmitted))) (\<lambda>_. stage past (attemptKinds needs) (Suc i)) (endsAt needs past)"
proof -
  note r = signable_reached [OF s]
  let ?ks = "ks @ [KShown, KAsked, KSigned]"
  have hash: "outsideThrows (getBestBlockHash (os_transport X))" and adjust: "plainR (sdk_adjustSignature (os_sdk X) bs)" for bs
    using X by (simp_all add: plainOutside_def plainR_def)
  have throw: "spec (stage past ks' j) (liftA (throwIO (PlainError m))) Q (endsAt needs past)" if "reached needs ks'" for m ks' j Q
    by (auto simp: spec_def intro: plain_ends [OF that])
  have built: "spec (stage past ks i) (liftA (buildTransaction (os_sdk X) (flowTransport (os_transport X)) [instruction] feePayer))
      (\<lambda>_. stage past ks i) (endsAt needs past)"
    unfolding buildTransaction_def flowTransport_simps
    by (rule spec_bindIO, rule spec_outside [OF _ hash])
      (use r in \<open>auto split: sum.splits simp: Let_def intro!: throw spec_bindIO [OF spec_plain [OF _ plain_transaction]] spec_ret\<close>)
  have signed: "spec (stage past ks i) (liftA (makeAnsSigner (os_sdk X) signHash h)) (\<lambda>_. stage past ?ks (Suc i)) (endsAt needs past)" for h
    unfolding makeAnsSigner_def Let_def
    by (rule spec_bindIO, rule sign) (use r in \<open>auto intro!: throw spec_bindIO [OF spec_plain [OF _ adjust]] spec_ret\<close>)
  have sent: "spec (stage past ?ks (Suc i)) (liftA (sendTransaction (flowTransport (os_transport X)) tx))
      (\<lambda>_. stage past (?ks @ [KSent]) (Suc i)) (endsAt needs past)" for tx
    by (rule spec_send [OF X]) (use r in simp)
  have shown: "spec (stage past (?ks @ [KSent]) (Suc i)) (liftA (onSubmitted txid)) (\<lambda>_. stage past (attemptKinds needs) (Suc i)) E"
    for txid E
    by (auto simp: spec_def onSubmitted_def emit_def stage_def traced_def ks [symmetric] mutationKinds_def Let_def)
  show ?thesis
    unfolding submitInstruction_def Let_def option.case case_prod_beta
    by (rule spec_bindIO, rule built, rule spec_bindIO, rule signed, rule spec_bindIO, rule sent,
      rule spec_bindIO, rule shown, rule spec_ret)
qed

lemma spec_sendMutation:
  assumes X: "plainOutside X build" and s: "signable needs ks i" and ks: "ks @ mutationKinds = attemptKinds needs"
  shows "spec (stage past ks i) (sendMutation X build confirmEffect A) (\<lambda>_. stage past (attemptKinds needs) (Suc i)) (endsAt needs past)"
proof -
  note r = signable_reached [OF s]
  have built: "outsideThrows (build (at_actor A))" using X by (simp add: plainOutside_def)
  have sign: "spec (stage past ks i) (liftA (signWithActor X A h))
      (\<lambda>_. stage past (ks @ [KShown, KAsked, KSigned]) (Suc i)) (endsAt needs past)" for h
    by (rule spec_signWithActor [OF X s])
  show ?thesis
    unfolding sendMutation_def signAndSend_steps
    by (rule spec_bindA, rule spec_outside [OF _ built], use r in blast,
      rule spec_bindA, rule spec_plain [OF _ plain_fields(4)], use r in blast,
      rule spec_bindA, rule spec_submitInstruction [OF X sign s ks], rule spec_confirm) auto
qed

lemma spec_attemptBody:
  assumes X: "plainOutside X build"
  shows "spec (stage past [] 0) (attemptBody X build confirmEffect A needs)
    (\<lambda>_. traced (past @ attemptKinds needs)) (endsAt needs past)"
proof -
  have account: "spec (stage past [] 0) (createArchAccountWithFaucet X (at_actor A) (signWithActor X A))
      (\<lambda>_. stage past setupKinds 1) (endsAt True past)"
    using spec_signWithActor [OF X, of True "[KFaucet]" 0 past A] by (intro spec_account [OF X]) (simp add: signable_def)
  have phase: "spec (stage past setupKinds 1) (liftA (setVars (\<lambda>v. v\<lparr>sv_phase := Mutation\<rparr>))) (\<lambda>_. stage past setupKinds 1) E" for E
    by (auto simp: spec_def setVars_def stage_def traced_def)
  have finished: "spec (stage past ks i) (liftA (retIO a)) (\<lambda>_. traced (past @ ks)) E" for ks i a E
    by (rule spec_ret) (simp add: stage_def)
  show ?thesis
  proof (cases needs)
    case True
    have "spec (stage past setupKinds 1) (sendMutation X build confirmEffect A) (\<lambda>_. stage past (attemptKinds True) (Suc 1)) (endsAt True past)"
      by (rule spec_sendMutation [OF X]) (simp_all add: signable_def attemptKinds_def)
    then show ?thesis
      unfolding attemptBody_def using True by (auto intro!: spec_bindA [OF spec_bindA [OF account phase]] spec_bindA [OF _ finished])
  next
    case False
    have "spec (stage past [] 0) (sendMutation X build confirmEffect A) (\<lambda>_. stage past (attemptKinds False) (Suc 0)) (endsAt False past)"
      by (rule spec_sendMutation [OF X]) (simp_all add: signable_def attemptKinds_def)
    then show ?thesis
      unfolding attemptBody_def using False by (auto intro!: spec_bindA [OF _ finished])
  qed
qed

lemma spec_catchA:
  assumes "spec P m Q E" "\<And>e. spec (E e) (liftA (h e)) Q E'"
  shows "spec P (catchA m h) Q E'"
proof (rule specI)
  fix w r w'
  assume "P w" and run: "catchA m h w = Some (r, w')"
  then obtain r0 w0 where m: "m w = Some (r0, w0)" by (auto simp: catchA_def split: option.splits)
  from specD [OF assms(1) \<open>P w\<close> m] show "case r of Inr a \<Rightarrow> Q a w' | Inl e \<Rightarrow> E' e w'"
    using run m specD [OF assms(2), of _ w0 r w'] by (cases r0) (auto simp: catchA_def)
qed

lemma spec_attemptFailure:
  "spec (endsAt needs past e) (liftA (attemptFailure X e)) (\<lambda>_. traced (past @ attemptKinds needs))
    (\<lambda>e w. endsAt needs past e w \<and> \<not> isPending e)"
proof (rule specI)
  fix w r w'
  assume w: "endsAt needs past e w" and "liftA (attemptFailure X e) w = Some (r, w')"
  then have run: "attemptFailure X e w = (r, w')" by simp
  have step: "endsAt needs past (AnsStepError ph pr c) w" for ph pr c
    using w by (auto simp: endsAt_def errorAt_def)
  show "case r of Inr a \<Rightarrow> traced (past @ attemptKinds needs) w' | Inl e' \<Rightarrow> endsAt needs past e' w' \<and> \<not> isPending e'"
    using run w step by (cases e) (auto simp: attemptFailure_def endsAt_def errorAt_def)
qed

lemma exists_outside:
  assumes X: "plainOutside X build" and run: "archAccountExists X actor w = (r, w')"
  shows "quiet w w' \<and> (\<forall>e. r = Inl e \<longrightarrow> outsideError e)"
proof -
  have "plainR (requireArchKey (os_base58 X) actor)" by simp
  moreover have "outsideThrows (readAccountInfo (os_transport X) a)" for a using X by (simp add: plainOutside_def)
  ultimately show ?thesis
    using run by (auto simp: archAccountExists_def plainR_def outsideThrows_def envIO_def quiet_def split: prod.splits elim!: bindIO_cases) blast
qed

text \<open>An attempt, with whatever the account's existence decides.\<close>

lemma spec_attempt:
  assumes X: "plainOutside X build"
  shows "spec (traced past) (runSubmitAttempt X build confirmEffect actor reported pinSource n)
    (\<lambda>_ w. \<exists>needs. traced (past @ attemptKinds needs) w) (\<lambda>e w. \<exists>needs. endsAt needs past e w \<and> \<not> isPending e)"
proof (rule specI)
  fix w r w'
  assume w: "traced past w"
    and run: "runSubmitAttempt X build confirmEffect actor reported pinSource n w = Some (r, w')"
  have body: "spec (stage past [] 0) (catchA (attemptBody X build confirmEffect A needs) (attemptFailure X))
      (\<lambda>_. traced (past @ attemptKinds needs)) (\<lambda>e w. endsAt needs past e w \<and> \<not> isPending e)" for A needs
    by (rule spec_catchA [OF spec_attemptBody [OF X] spec_attemptFailure])
  from run show "case r of Inr a \<Rightarrow> \<exists>needs. traced (past @ attemptKinds needs) w' | Inl e \<Rightarrow> \<exists>needs. endsAt needs past e w' \<and> \<not> isPending e"
    unfolding runSubmitAttempt_def
  proof (cases rule: bindA_cases)
    case (1 e)
    then have "archAccountExists X actor w = (Inl e, w')" by simp
    from exists_outside [OF X this] have "quiet w w' \<and> outsideError e" by simp
    then have "endsAt False past e w' \<and> \<not> isPending e"
      using w by (auto simp: endsAt_def quiet_def traced_def outsideError_def intro!: exI [of _ "[]"] outsideError_at)
    with 1(2) show ?thesis by auto
  next
    case (2 exists w1)
    then have "archAccountExists X actor w = (Inr exists, w1)" by simp
    from exists_outside [OF X this] w have w1: "traced past w1" by (simp add: quiet_def traced_def)
    from w1 have start: "spec (\<lambda>v. v = w1) (liftA (startAttempt (\<not> exists))) (\<lambda>_. stage past [] 0) E" for E
      by (auto simp: spec_def startAttempt_def setVars_def stage_def traced_def)
    note flow = spec_bindA [OF start body]
    from specD [OF flow refl 2(2)] show ?thesis by (auto split: sum.splits)
  qed
qed

section \<open>A submission\<close>

definition kindsOf :: "'w flow \<Rightarrow> event_kind list" where
  "kindsOf w = map kindE (fl_trace w)"

lemma attempt_ends:
  assumes "plainOutside X build"
    and "runSubmitAttempt X build confirmEffect actor reported pinSource n w = Some (r, w')"
  obtains (landed) a needs where "r = Inr a" "kindsOf w' = kindsOf w @ attemptKinds needs"
  | (stopped) e needs ks where "r = Inl e" "kindsOf w' = kindsOf w @ ks" "prefix ks (attemptKinds needs)" "errorAt needs ks e" "\<not> isPending e"
  using specD [OF spec_attempt [OF assms(1)] _ assms(2), of "kindsOf w"]
  by (cases r) (auto simp: kindsOf_def traced_def endsAt_def)

text \<open>The events of a submission: one attempt, or an attempt that ended at a refused signature and a second one.\<close>

definition submissionOrder :: "event_kind list \<Rightarrow> js_error + SubmitOutcome \<Rightarrow> bool" where
  "submissionOrder ks r \<longleftrightarrow>
     (\<exists>ks1 ks2 needs1 needs2. ks = ks1 @ ks2 \<and> prefix ks1 (attemptKinds needs1) \<and> prefix ks2 (attemptKinds needs2) \<and>
       (ks2 \<noteq> [] \<longrightarrow> ks1 \<noteq> [] \<and> last ks1 = KSigned) \<and>
       (case r of
          Inr _ \<Rightarrow> (ks1 = attemptKinds needs1 \<and> ks2 = []) \<or> ks2 = attemptKinds needs2
        | Inl e \<Rightarrow> \<not> isPending e \<and> (isMismatch e \<longrightarrow> ks \<noteq> [] \<and> last ks = KSigned) \<and>
            (isAccountChanged e \<longrightarrow> suffix setupKinds ks)))"

lemma one_attempt:
  assumes "prefix ks (attemptKinds needs)" "errorAt needs ks e" "\<not> isPending e"
  shows "submissionOrder ks (Inl e)"
  unfolding submissionOrder_def
  by (intro exI [of _ ks] exI [of _ "[]"] exI [of _ needs])
    (use assms in \<open>auto simp: errorAt_def suffix_def\<close>)

lemma one_attempt_lands: "submissionOrder (attemptKinds needs) (Inr out)"
  unfolding submissionOrder_def
  by (intro exI [of _ "attemptKinds needs"] exI [of _ "[]"] exI [of _ needs]) simp

lemma two_attempts:
  assumes "prefix ks1 (attemptKinds needs1)" "ks1 \<noteq> []" "last ks1 = KSigned" "prefix ks2 (attemptKinds needs2)"
    and "errorAt needs2 ks2 e" "\<not> isPending e"
  shows "submissionOrder (ks1 @ ks2) (Inl e)"
  unfolding submissionOrder_def
  by (intro exI [of _ ks1] exI [of _ ks2] exI [of _ needs1] exI [of _ needs2])
    (use assms in \<open>auto simp: errorAt_def suffix_def\<close>)

lemma two_attempts_land:
  assumes "prefix ks1 (attemptKinds needs1)" "ks1 \<noteq> []" "last ks1 = KSigned"
  shows "submissionOrder (ks1 @ attemptKinds needs2) (Inr out)"
  unfolding submissionOrder_def
  by (intro exI [of _ ks1] exI [of _ "attemptKinds needs2"] exI [of _ needs1] exI [of _ needs2]) (use assms in simp)

lemma rememberSigner_kinds [simp]: "kindsOf (rememberSigner X reported signer w) = kindsOf w"
  by (simp add: kindsOf_def rememberSigner_def)

lemma identifiedSigner_is: "identifiedSigner n e = Some s \<Longrightarrow> isMismatch e \<and> n = 1"
  by (cases e) (auto simp: identifiedSigner_def split: if_splits)

text \<open>The second round of the loop ends the submission; the first leads to it at most once.\<close>

lemma second_round:
  assumes "plainOutside X build" "submitLoop X build confirmEffect reported 1 actor pinSource w = Some (r, w')"
    and "prefix ks1 (attemptKinds needs1)" "ks1 \<noteq> []" "last ks1 = KSigned"
  shows "\<exists>ks2. kindsOf w' = kindsOf w @ ks2 \<and> submissionOrder (ks1 @ ks2) r"
proof -
  obtain r1 w1 where a: "runSubmitAttempt X build confirmEffect actor reported pinSource 2 w = Some (r1, w1)"
    using assms(2) by (auto split: option.splits simp: numeral_2_eq_2)
  from assms(1) a show ?thesis
  proof (cases rule: attempt_ends)
    case (landed out needs)
    then show ?thesis
      using assms(2) a two_attempts_land [OF assms(3-5)] by (cases out) (auto simp: numeral_2_eq_2)
  next
    case (stopped e needs ks)
    then have "identifiedSigner 2 e = None" using identifiedSigner_is by (cases "identifiedSigner 2 e") fastforce+
    then show ?thesis
      using stopped assms(2) a two_attempts [OF assms(3-5) stopped(3-5)] by (auto simp: numeral_2_eq_2)
  qed
qed

lemma first_round:
  assumes "plainOutside X build" "submitLoop X build confirmEffect reported 2 actor pinSource w = Some (r, w')"
  shows "\<exists>ks. kindsOf w' = kindsOf w @ ks \<and> submissionOrder ks r"
proof -
  have loop: "submitLoop X build confirmEffect reported (Suc 1) actor pinSource w = Some (r, w')"
    using assms(2) by (simp add: numeral_2_eq_2)
  then obtain r1 w1 where a: "runSubmitAttempt X build confirmEffect actor reported pinSource 1 w = Some (r1, w1)"
    by (auto split: option.splits)
  from assms(1) a show ?thesis
  proof (cases rule: attempt_ends)
    case (landed out needs)
    then show ?thesis using loop a one_attempt_lands by (cases out) auto
  next
    case (stopped e needs ks)
    show ?thesis
    proof (cases "identifiedSigner 1 e")
      case None
      then show ?thesis using stopped loop a one_attempt [OF stopped(3-5)] by auto
    next
      case (Some signer)
      then have "ks \<noteq> []" "last ks = KSigned" using stopped identifiedSigner_is by (auto simp: errorAt_def)
      from second_round [OF assms(1) _ stopped(3) this] show ?thesis
        using Some stopped(1,2) loop a by (fastforce simp: numeral_2_eq_2)
    qed
  qed
qed

lemma submission_ordered:
  assumes "plainOutside X build" "submitWithWindowArch X build confirmEffect w = Some (r, w')"
  shows "\<exists>ks. kindsOf w' = kindsOf w @ ks \<and> submissionOrder ks r"
proof (cases "kitPort X (fl_env w)")
  case (Some port)
  let ?a = "po_archAddress port"
  obtain r1 w1 where a: "runSubmitAttempt X build confirmEffect ?a ?a Reported 1 w = Some (r1, w1)"
    using assms(2) Some by (auto simp: submitWithWindowArch_def bindA_def split: option.splits)
  from assms(1) a show ?thesis
  proof (cases rule: attempt_ends)
    case (landed out needs)
    then show ?thesis
      using assms(2) Some a one_attempt_lands by (cases out) (auto simp: submitWithWindowArch_def bindA_def liftA_def)
  next
    case (stopped e needs ks)
    then show ?thesis
      using assms(2) Some a one_attempt [OF stopped(3-5)] by (auto simp: submitWithWindowArch_def bindA_def)
  qed
next
  case None
  obtain r1 w1 where a: "requireConnectedArchAccount X None None w = (r1, w1)" by fastforce
  from require_quiet [OF a] have w1: "kindsOf w1 = kindsOf w" by (simp add: kindsOf_def quiet_def)
  show ?thesis
  proof (cases r1)
    case (Inl e)
    with require_errors [of X None None w e w1] a have "errorAt False [] e" "\<not> isPending e" by (auto simp: errorAt_def)
    from one_attempt [OF _ this] show ?thesis
      using assms(2) None a Inl w1 by (auto simp: submitWithWindowArch_def bindA_def liftA_def)
  next
    case (Inr account)
    obtain actor pinSource since where p: "preferredSigner (os_base58 X) (se_browser (fl_session w1)) (ca_archAddress account) = (actor, pinSource, since)"
      by (cases "preferredSigner (os_base58 X) (se_browser (fl_session w1)) (ca_archAddress account)") blast
    have "submitLoop X build confirmEffect (ca_archAddress account) 2 actor pinSource w1 = Some (r, w')"
      using assms(2) None a Inr p by (simp add: submitWithWindowArch_def bindA_def liftA_def)
    from first_round [OF assms(1) this] w1 show ?thesis by simp
  qed
qed

end
