(* ===== verification/Submit_Safety.thy ===== *)
theory Submit_Safety
  imports Submit_Flow
begin

text \<open>
  What a submission guarantees: the order of what the user is shown, what the wallet is asked and what the network
  gets; which signatures are refused; that it settles; and where the account-changed abort can happen.
\<close>

section \<open>Order\<close>

text \<open>Every \<open>b\<close> comes directly after an \<open>a\<close>.\<close>

fun followsFrom :: "event_kind option \<Rightarrow> event_kind \<Rightarrow> event_kind \<Rightarrow> event_kind list \<Rightarrow> bool" where
  "followsFrom p a b [] = True"
| "followsFrom p a b (k # ks) = ((k = b \<longrightarrow> p = Some a) \<and> followsFrom (Some k) a b ks)"

definition follows :: "event_kind \<Rightarrow> event_kind \<Rightarrow> event_kind list \<Rightarrow> bool" where
  "follows = followsFrom None"

lemma followsFrom_append:
  "followsFrom p a b (xs @ ys) \<longleftrightarrow> followsFrom p a b xs \<and> followsFrom (if xs = [] then p else Some (last xs)) a b ys"
  by (induction xs arbitrary: p) auto

lemma followsFrom_weaken: "followsFrom None a b ys \<Longrightarrow> followsFrom p a b ys"
  by (cases ys) auto

lemma follows_append: "follows a b xs \<Longrightarrow> follows a b ys \<Longrightarrow> follows a b (xs @ ys)"
  by (simp add: follows_def followsFrom_append followsFrom_weaken)

lemma follows_prefix: "follows a b ys \<Longrightarrow> prefix xs ys \<Longrightarrow> follows a b xs"
  by (auto simp: follows_def prefix_def followsFrom_append)

lemma attempt_follows: "follows KSigned KSent (attemptKinds n)" "follows KAsked KSigned (attemptKinds n)" "follows KShown KAsked (attemptKinds n)"
  by (simp_all add: follows_def kinds_simps)

lemma attempt_counts:
  assumes "prefix ks (attemptKinds n)"
  shows "count_list ks KAsked \<le> 2" "count_list ks KSent \<le> 2" "last ks = KSigned \<Longrightarrow> ks \<noteq> [] \<Longrightarrow> count_list ks KSent \<le> 1"
proof -
  have "ks \<in> set (prefixes (attemptKinds n))" using assms by simp
  then show "count_list ks KAsked \<le> 2" "count_list ks KSent \<le> 2" "last ks = KSigned \<Longrightarrow> ks \<noteq> [] \<Longrightarrow> count_list ks KSent \<le> 1"
    by (cases n; auto simp: kinds_simps)+
qed

lemma count_list_append: "count_list (xs @ ys) x = count_list xs x + count_list ys x"
  by (induction xs) auto

text \<open>C6. The order of a submission. Whatever the outside does, what a submission adds to the trace of the page is such
  that every transaction follows a signature, every signature a request to sign and every request a note to the user;
  the wallet is asked at most four times, at most three transactions are sent, and an outcome is reported
  only after a transaction has been sent and the page has said that the network is confirming it.\<close>

theorem submission_order:
  assumes "plainOutside X build" "submitWithWindowArch X build confirmEffect w = Some (r, w')"
  shows "\<exists>ks. kindsOf w' = kindsOf w @ ks \<and>
    follows KSigned KSent ks \<and> follows KAsked KSigned ks \<and> follows KShown KAsked ks \<and>
    count_list ks KAsked \<le> 4 \<and> count_list ks KSent \<le> 3 \<and> (isl r \<or> suffix [KSent, KShown] ks)"
proof -
  obtain ks1 ks2 n1 n2 where k: "kindsOf w' = kindsOf w @ ks1 @ ks2" "prefix ks1 (attemptKinds n1)" "prefix ks2 (attemptKinds n2)"
      "ks2 \<noteq> [] \<longrightarrow> ks1 \<noteq> [] \<and> last ks1 = KSigned" "isl r \<or> ks1 = attemptKinds n1 \<and> ks2 = [] \<or> ks2 = attemptKinds n2"
    using submission_ordered [OF assms] unfolding submissionOrder_def by (cases r) (simp_all, blast+)
  have f: "follows a b (ks1 @ ks2)" if "\<And>n. follows a b (attemptKinds n)" for a b
    by (rule follows_append; rule follows_prefix [OF that]; rule k)
  have "count_list ks1 KSent + count_list ks2 KSent \<le> 3" "count_list ks1 KAsked + count_list ks2 KAsked \<le> 4"
    using attempt_counts [OF k(2)] attempt_counts [OF k(3)] k(4) by (cases "ks2 = []"; simp)+
  moreover have "suffix [KSent, KShown] (attemptKinds n)" for n
    by (simp add: kinds_simps suffix_def)
  ultimately show ?thesis
    using k(1,5) f attempt_follows
    by (intro exI [of _ "ks1 @ ks2"]) (auto simp: count_list_append intro: suffix_appendI)
qed

section \<open>Signatures\<close>

lemma probeCandidates_find:
  "fst (probeCandidates X h sig probes cs) = find (\<lambda>c. checkArchSignature (os_base58 X) (os_curve X) (Some c) h sig = SigMatch) cs"
  by (induction cs arbitrary: probes) (simp_all add: Let_def)

lemma checked_has_key: "checkArchSignature B K (Some c) h sig = SigMatch \<Longrightarrow> c \<noteq> []"
  by (auto simp: checkArchSignature_def canonicalArchKey_def trim_def stripHexPrefix_def split: option.splits)

lemma truthyText_find:
  "truthyText (find (\<lambda>c. checkArchSignature B K (Some c) h sig = SigMatch) cs) =
   find (\<lambda>c. checkArchSignature B K (Some c) h sig = SigMatch) cs"
proof (cases "find (\<lambda>c. checkArchSignature B K (Some c) h sig = SigMatch) cs")
  case (Some c)
  then have "checkArchSignature B K (Some c) h sig = SigMatch" by (auto simp: find_Some_iff)
  then have "c \<noteq> []" by (rule checked_has_key)
  then show ?thesis unfolding Some by (simp add: truthyText_def split: list.splits)
qed (simp add: truthyText_def)

text \<open>C8. Which signatures are refused. A signature is refused exactly when it does not verify for the fee payer and
  some key has verified in this attempt, the signature's own included; the error names the first known key that it
  verifies for, and every other signature is handed on unchanged. The verifier counts as proven exactly
  when a key has verified.\<close>

theorem signature_refused_exactly:
  "let check = (\<lambda>c. checkArchSignature (os_base58 X) (os_curve X) (Some c) h sig);
       known = signerCandidates (os_base58 X) (se_browser (fl_session w)) (at_actor A) [Some (at_reported A)];
       verified = (sv_verifierProven (fl_vars w) \<or> (\<exists>c \<in> set known. check c = SigMatch));
       (r, w') = judgeSignature X A h sig w in
   (if check (at_actor A) = SigMismatch \<and> verified
    then r = Inl (signerMismatchError (os_base58 X) (at_actor A) (find (\<lambda>c. check c = SigMatch) known)
           (snd (identifySigner X (se_browser (fl_session w)) (at_actor A) (at_reported A) h sig)) (sv_approvalIndex (fl_vars w) - 1))
    else r = Inr sig) \<and>
   (sv_verifierProven (fl_vars w') \<longleftrightarrow>
      sv_verifierProven (fl_vars w) \<or> check (at_actor A) = SigMatch \<or> check (at_actor A) = SigMismatch \<and> verified)"
proof -
  let ?known = "signerCandidates (os_base58 X) (se_browser (fl_session w)) (at_actor A) [Some (at_reported A)]"
  let ?match = "\<lambda>c. checkArchSignature (os_base58 X) (os_curve X) (Some c) h sig = SigMatch"
  obtain signer probes where i: "identifySigner X (se_browser (fl_session w)) (at_actor A) (at_reported A) h sig = (signer, probes)"
    by fastforce
  then have signer: "signer = find ?match ?known"
    using probeCandidates_find [of X h sig "[]" ?known] by (simp add: identifySigner_def)
  have "truthyText signer \<noteq> None \<longleftrightarrow> (\<exists>c \<in> set ?known. ?match c)"
    unfolding signer truthyText_find by (auto simp: find_None_iff)
  then show ?thesis
    using signer by (auto simp: judgeSignature_def i Let_def split: SignatureCheck.splits)
qed

section \<open>A submission settles\<close>

definition returns :: "('w, 'a) aio \<Rightarrow> bool" where
  "returns m \<longleftrightarrow> (\<forall>w. m w \<noteq> None)"

lemma returns_lift [simp]: "returns (liftA m)"
  by (simp add: returns_def liftA_def)

lemma returns_bind: "returns m \<Longrightarrow> (\<And>a. returns (k a)) \<Longrightarrow> returns (bindA m k)"
  by (fastforce simp: returns_def bindA_def split: option.splits sum.splits)

lemma returns_catch: "returns m \<Longrightarrow> returns (catchA m h)"
  by (fastforce simp: returns_def catchA_def split: option.splits sum.splits)

definition accountCheck :: "('w, 'p) outside \<Rightarrow> bytes \<Rightarrow> ('w, bool) io" where
  "accountCheck X pubkey = bindIO (readAccountInfo (os_transport X) pubkey) (\<lambda>info. retIO (info \<noteq> None))"

lemma accountCheck_flow:
  "bindIO (readAccountInfo (flowTransport (os_transport X)) pubkey) (\<lambda>info. retIO (info \<noteq> None)) = envIO (accountCheck X pubkey)"
  by (auto simp: accountCheck_def fun_eq_iff envIO_def bindIO_def split: prod.splits sum.splits)

text \<open>The clock of the outside advances over every poll and every pause of the two waits.\<close>

definition clocksAdvance :: "('w, 'p) outside \<Rightarrow> (js_string \<Rightarrow> ('w, bool) io) option \<Rightarrow> bool" where
  "clocksAdvance X confirmEffect \<longleftrightarrow>
     (\<forall>txid pubkey. advancingClock (os_timer X) (os_transport X) txid (Some (accountCheck X pubkey)) 1000) \<and>
     (\<forall>txid actor. advancingClock (os_timer X) (os_transport X) txid (map_option (\<lambda>f. f actor) confirmEffect) 1000)"

lemma advancingClock_flow:
  "advancingClock C T txid isComplete i \<Longrightarrow> advancingClock (flowTimer C) (flowTransport T) txid (map_option envIO isComplete) i"
  by (auto simp: advancingClock_def flowTimer_def envIO_def split: prod.splits) (metis snd_conv)+

lemma wait_returns:
  assumes "advancingClock C T txid isComplete 1000"
  shows "returns (waitForTransaction (flowTimer C) (flowTransport T) txid (map_option envIO isComplete) timeoutMs None)"
  using waitLoop_returns [OF advancingClock_flow [OF assms]] by (auto simp: returns_def waitForTransaction_def Let_def)

lemma account_returns:
  assumes "clocksAdvance X confirmEffect"
  shows "returns (createArchAccountWithFaucet X actor signHash)"
proof -
  have "returns (waitForTransaction (flowTimer (os_timer X)) (flowTransport (os_transport X)) txid
      (Some (envIO (accountCheck X pubkey))) (Some 180000) None)" for txid pubkey
    using wait_returns [of "os_timer X" "os_transport X" txid "Some (accountCheck X pubkey)"] assms
    by (simp add: clocksAdvance_def)
  then show ?thesis
    unfolding createArchAccountWithFaucet_def accountCheck_flow by (intro returns_bind) simp_all
qed

lemma mutation_returns:
  assumes "clocksAdvance X confirmEffect"
  shows "returns (sendMutation X build confirmEffect A)"
proof -
  have "advancingClock (os_timer X) (os_transport X) txid (map_option (\<lambda>f. f (at_actor A)) confirmEffect) 1000" for txid
    using assms by (simp add: clocksAdvance_def)
  from wait_returns [OF this, of _ None] show ?thesis
    unfolding sendMutation_def signAndSend_steps
    by (intro returns_bind returns_lift) (auto simp: returns_def option.map_comp comp_def)
qed

lemma attempt_returns:
  assumes "clocksAdvance X confirmEffect"
  shows "runSubmitAttempt X build confirmEffect actor reported pinSource n w \<noteq> None"
proof -
  have "returns (attemptBody X build confirmEffect A needs)" for A needs
    unfolding attemptBody_def
    using account_returns [OF assms] mutation_returns [OF assms] by (auto intro!: returns_bind)
  then have r: "returns (bindA (liftA (archAccountExists X actor)) (\<lambda>exists. bindA (liftA (startAttempt (\<not> exists))) (\<lambda>_.
      catchA (attemptBody X build confirmEffect (A exists) (\<not> exists)) (attemptFailure X))))" for A
    by (intro returns_bind returns_catch) simp_all
  show ?thesis
    using r [of "\<lambda>exists. \<lparr>at_actor = actor, at_reported = reported, at_pinSource = pinSource, at_number = n,
        at_pinnedAt = now (os_timer X) (fl_env w), at_approvalTotal = (if exists then 1 else 2)\<rparr>"]
    unfolding runSubmitAttempt_def returns_def by (rule spec)
qed

lemma loop_returns:
  "clocksAdvance X confirmEffect \<Longrightarrow> submitLoop X build confirmEffect reported left actor pinSource w \<noteq> None"
proof (induction left arbitrary: actor pinSource w)
  case (Suc left)
  obtain r w' where "runSubmitAttempt X build confirmEffect actor reported pinSource (2 - left) w = Some (r, w')"
    using attempt_returns [OF Suc.prems] by fastforce
  with Suc.IH [OF Suc.prems] show ?case by (auto split: sum.splits option.splits)
qed simp

text \<open>C18. A submission settles. Where the clock advances over polls and pauses, \<open>submitWithWindowArch\<close> returns or is
  rejected, whatever the wallet, the faucet and the network answer.\<close>

theorem submission_settles:
  assumes "clocksAdvance X confirmEffect"
  shows "\<exists>r w'. submitWithWindowArch X build confirmEffect w = Some (r, w')"
proof -
  have "submitWithWindowArch X build confirmEffect w \<noteq> None"
    using attempt_returns [OF assms, of build] loop_returns [OF assms, of build]
    by (auto simp: submitWithWindowArch_def bindA_def liftA_def simp del: not_None_eq split: option.splits prod.splits sum.splits)
  then show ?thesis by fastforce
qed

section \<open>The account-changed abort\<close>

text \<open>C40. The account-changed abort comes after a submission. \<open>WalletAccountChangedError\<close>, whose message says that nothing
  was submitted, is raised only right after the account-creation transaction of the same action has been sent and
  has been seen to take effect.\<close>

theorem account_changed_after_submission:
  assumes "plainOutside X build" "submitWithWindowArch X build confirmEffect w = Some (Inl e, w')" "isAccountChanged e"
  shows "\<exists>ks. kindsOf w' = kindsOf w @ ks @ [KFaucet, KShown, KAsked, KSigned, KSent]"
  using submission_ordered [OF assms(1,2)] assms(3) unfolding submissionOrder_def setupKinds_def suffix_def by auto

section \<open>A run\<close>

text \<open>A wallet of the kit whose account does not exist yet and that switches accounts once the account-creation
  transaction has been sent: the world is the number of transactions sent and the time.\<close>

definition sampleAccount :: AccountInfo where
  "sampleAccount = \<lparr>ai_data = [], ai_owner = [], ai_lamports = 1, ai_isExecutable = False\<rparr>"

definition samplePort :: "js_string \<Rightarrow> (nat \<times> int) AnsWalletPort" where
  "samplePort account = \<lparr>po_archAddress = account, po_address = [], po_publicKey = [], po_kind = None, po_providerId = [7],
     po_providerLabel = [], po_signMessageHash = (\<lambda>h w. (Inr [], w))\<rparr>"

definition sampleFaucet :: response where
  "sampleFaucet = \<lparr>rs_status = 200, rs_retryAfter = None, rs_json = Inr (Obj [(js ''result'', Obj
     [(js ''message'', Obj [(js ''account_keys'', Arr []), (js ''recent_blockhash'', Arr []), (js ''instructions'', Arr [])]),
      (js ''signatures'', Arr [])])])\<rparr>"

definition switchingOutside :: "(nat \<times> int, nat) outside" where
  "switchingOutside = \<lparr>
     os_transport = \<lparr>
       readAccountInfo = (\<lambda>a w. (Inr (if fst w = 0 then None else Some sampleAccount), w)),
       getMultipleAccounts = None, getProgramAccounts = None,
       getCurrentSlot = (\<lambda>w. (Inr 0, w)), getBestBlockHash = (\<lambda>w. (Inr [], w)),
       sendTransaction = (\<lambda>tx (n, t). (Inr [5], (Suc n, t))),
       getProcessedTransaction = (\<lambda>txid w. (Inr None, w))\<rparr>,
     os_timer = \<lparr>now = snd, sleep = (\<lambda>ms (n, t). (n, t + ms))\<rparr>,
     os_readWallet = (\<lambda>w. (NoProvider, w)),
     os_activePort = (\<lambda>w. Some (samplePort (if fst w = 0 then [65] else [66]))),
     os_archSigner = (\<lambda>w. None), os_connect = (\<lambda>w. None), os_disconnect = retIO (),
     os_post = (\<lambda>u v w. (Inr sampleFaucet, w)), os_rpcUrl = [],
     os_base58 = \<lparr>b58_decode = (\<lambda>s. Inr (replicate 32 (if s = [65] then 1 else 2))), b58_encode = (\<lambda>bs. [])\<rparr>,
     os_curve = sampleCurve, os_sdk = plainSdk, os_cause = (\<lambda>e. None), os_lower = (\<lambda>s. s), os_fraction = (\<lambda>q. [])\<rparr>"

definition sampleFlow :: "(nat \<times> int) flow" where
  "sampleFlow = \<lparr>fl_env = (0, 0), fl_session = \<lparr>se_knownNotInitialized = False, se_browser = \<lparr>br_blocked = True, br_seen = None, br_observation = None\<rparr>\<rparr>,
     fl_vars = \<lparr>sv_approvalIndex = 0, sv_phase = Mutation, sv_progress = None, sv_verifierProven = False\<rparr>, fl_trace = []\<rparr>"

lemma switching_plain: "plainOutside switchingOutside (\<lambda>a. retIO sampleInstruction)"
  by (auto simp: plainOutside_def switchingOutside_def outsideThrows_def samplePort_def plainSdk_def sampleFaucet_def)

declare waitLoop.simps [code]

lemma switching_run:
  "case submitWithWindowArch switchingOutside (\<lambda>a. retIO sampleInstruction) None sampleFlow of
     Some (Inl e, w') \<Rightarrow> isAccountChanged e | _ \<Rightarrow> False"
  by code_simp

lemma switching_ends:
  obtains e w' where "submitWithWindowArch switchingOutside (\<lambda>a. retIO sampleInstruction) None sampleFlow = Some (Inl e, w')"
    "isAccountChanged e"
  using switching_run by (auto split: option.splits sum.splits)

lemma switching_clock: "clocksAdvance switchingOutside None"
  by (auto simp: clocksAdvance_def advancingClock_def accountCheck_def bindIO_def switchingOutside_def)

theorem submission_order_witness:
  "\<exists>r w' ks. submitWithWindowArch switchingOutside (\<lambda>a. retIO sampleInstruction) None sampleFlow = Some (r, w') \<and>
     kindsOf w' = kindsOf sampleFlow @ ks \<and> follows KSigned KSent ks \<and> follows KAsked KSigned ks \<and>
     count_list ks KAsked \<le> 4 \<and> count_list ks KSent \<le> 3"
  by (rule switching_ends) (metis submission_order [OF switching_plain])

theorem submission_settles_witness:
  "\<exists>r w'. submitWithWindowArch switchingOutside (\<lambda>a. retIO sampleInstruction) None sampleFlow = Some (r, w')"
  by (rule submission_settles [OF switching_clock])

theorem account_changed_after_submission_witness:
  "\<exists>e w' ks. submitWithWindowArch switchingOutside (\<lambda>a. retIO sampleInstruction) None sampleFlow = Some (Inl e, w') \<and>
     isAccountChanged e \<and> kindsOf w' = kindsOf sampleFlow @ ks @ [KFaucet, KShown, KAsked, KSigned, KSent]"
  by (rule switching_ends) (metis account_changed_after_submission [OF switching_plain])

end
