(* ===== verification/Quote.thy ===== *)
theory Quote
  imports Js_Value Names
begin

text \<open>
  Amounts of the manager: \<^verbatim>\<open>quote-amount.ts\<close>, the pure part of \<^verbatim>\<open>quote-balance.ts\<close> and
  \<^verbatim>\<open>domain-profile.ts\<close>. An amount is a \<open>bigint\<close> of base units; what the user types is parsed into it
  and what the page shows is printed from it.
\<close>

section \<open>quote-amount.ts\<close>

fun quoteDecimals :: "QuoteCurrency \<Rightarrow> nat" where
  "quoteDecimals Arch = 9"
| "quoteDecimals Btc = 8"

definition quoteSymbol :: "QuoteCurrency \<Rightarrow> js_string" where
  "quoteSymbol currency = (if currency = Btc then js ''aBTC'' else js ''ARCH'')"

definition quoteBaseUnit :: "QuoteCurrency \<Rightarrow> js_string" where
  "quoteBaseUnit currency = (if currency = Btc then js ''sats'' else js ''lamports'')"

text \<open>The match \<open>/^(\d*)(?:\.(\d*))?$/\<close>: the digits before the point and, if there is one, those after it.\<close>

definition matchAmount :: "js_string \<Rightarrow> (js_string \<times> js_string option) option" where
  "matchAmount s =
     (let whole = takeWhile isDigit s; rest = dropWhile isDigit s in
      if rest = [] then Some (whole, None)
      else if hd rest = 46 \<and> list_all isDigit (tl rest) then Some (whole, Some (tl rest))
      else None)"

definition padEnd :: "nat \<Rightarrow> u16 \<Rightarrow> js_string \<Rightarrow> js_string" where
  "padEnd n c s = s @ replicate (n - length s) c"

definition parseQuoteAmount :: "js_string \<Rightarrow> QuoteCurrency \<Rightarrow> int option" where
  "parseQuoteAmount text currency =
     (let decimals = quoteDecimals currency in
      case matchAmount (trim text) of
        None \<Rightarrow> None
      | Some (m1, m2) \<Rightarrow>
          (let fraction = (case m2 of Some f \<Rightarrow> f | None \<Rightarrow> []) in
           if (m1 = [] \<and> fraction = []) \<or> length fraction > decimals then None
           else Some (int (digitsValue m1) * 10 ^ decimals + int (digitsValue (padEnd decimals 48 fraction)))))"

text \<open>Division and remainder of \<open>bigint\<close> truncate towards zero.\<close>

definition quotBig :: "int \<Rightarrow> int \<Rightarrow> int" where
  "quotBig a b = sgn a * (\<bar>a\<bar> div b)"

definition remBig :: "int \<Rightarrow> int \<Rightarrow> int" where
  "remBig a b = sgn a * (\<bar>a\<bar> mod b)"

definition formatQuoteBaseUnits :: "int \<Rightarrow> QuoteCurrency \<Rightarrow> js_string" where
  "formatQuoteBaseUnits amount currency =
     (let decimals = quoteDecimals currency;
          scale = 10 ^ decimals;
          whole = showInt (quotBig amount scale);
          fraction = rev (dropWhile (\<lambda>u. u = 48) (rev (padStart decimals 48 (showInt (remBig amount scale))))) in
      if fraction \<noteq> [] then whole @ js ''.'' @ fraction else whole)"

section \<open>quote-balance.ts\<close>

definition ARCH_OFFER_RESERVE_LAMPORTS :: int where "ARCH_OFFER_RESERVE_LAMPORTS = 10000000"

definition TOKEN_AMOUNT_OFFSET :: nat where "TOKEN_AMOUNT_OFFSET = 64"

record QuoteBalance =
  qb_total :: int
  qb_spendable :: int
  qb_reserved :: int

definition readTokenAccountAmount :: "bytes \<Rightarrow> int" where
  "readTokenAccountAmount data =
     (if length data < TOKEN_AMOUNT_OFFSET + 8 then 0
      else foldl (\<lambda>amount i. amount * 256 + uint (data ! (TOKEN_AMOUNT_OFFSET + i))) 0 (rev [0..<8]))"

definition spendableFrom :: "int \<Rightarrow> int \<Rightarrow> QuoteBalance" where
  "spendableFrom held reserved =
     \<lparr>qb_total = held, qb_spendable = (if held > reserved then held - reserved else 0), qb_reserved = reserved\<rparr>"

section \<open>domain-profile.ts\<close>

datatype DomainProfileTab = Details | Offers | Activity

definition parseDomainProfileTab :: "js_string option \<Rightarrow> DomainProfileTab" where
  "parseDomainProfileTab raw =
     (if raw = Some (js ''offers'') then Offers else if raw = Some (js ''activity'') then Activity else Details)"

definition formatQuoteAmount :: "int \<Rightarrow> QuoteCurrency \<Rightarrow> js_string" where
  "formatQuoteAmount price currency = formatQuoteBaseUnits price currency @ js '' '' @ quoteSymbol currency"

definition labelLengthCategory :: "js_string \<Rightarrow> js_string" where
  "labelLengthCategory fullName =
     (let label = (if endsWith fullName (js ''.arch'') then dropEnd 5 fullName else fullName);
          len = length label in
      if len \<le> 1 then js ''1 Character''
      else if len = 2 then js ''2 Characters''
      else if len = 3 then js ''3 Characters''
      else if len = 4 then js ''4 Characters''
      else js ''5+ Characters'')"

text \<open>Offers are sorted by a price and, where known, the slot they were made in; \<open>key\<close> reads the two off an offer.\<close>

definition compareOffers :: "int \<times> int option \<Rightarrow> int \<times> int option \<Rightarrow> int" where
  "compareOffers a b =
     (if fst a = fst b then
        (let as = (case snd a of Some s \<Rightarrow> s | None \<Rightarrow> 0); bs = (case snd b of Some s \<Rightarrow> s | None \<Rightarrow> 0) in
         if as > bs then -1 else if as < bs then 1 else 0)
      else if fst a > fst b then -1 else 1)"

definition sortOffersByPriceDesc :: "('a \<Rightarrow> int \<times> int option) \<Rightarrow> 'a list \<Rightarrow> 'a list" where
  "sortOffersByPriceDesc key offers = sortBy (\<lambda>a b. compareOffers (key a) (key b)) offers"

interpretation offers: comparator compareOffers
  by unfold_locales (auto simp: compareOffers_def Let_def split: if_splits)

section \<open>Amounts survive display\<close>

lemma digitsValue_zeros: "digitsValue (replicate n 48 @ ds) = digitsValue ds"
  by (induction n) (simp_all add: digitsValue_def)

lemma digitsValue_padStart [simp]: "digitsValue (padStart n 48 ds) = digitsValue ds"
  by (simp add: padStart_def digitsValue_zeros)

lemma length_decimal: "r < 10 ^ d \<Longrightarrow> 0 < d \<Longrightarrow> length (decimal r) \<le> d"
proof (induction d arbitrary: r)
  case (Suc d)
  then show ?case
  proof (cases "r < 10")
    case False
    have "r div 10 < 10 ^ d" using Suc.prems(1) by (simp add: less_mult_imp_div_less)
    moreover have "0 < d" using False Suc.prems(1) by (cases d) auto
    ultimately have "length (decimal (r div 10)) \<le> d" by (rule Suc.IH)
    then show ?thesis using False by (subst decimal.simps) simp
  qed (subst decimal.simps, simp)
qed simp

lemma padEnd_strip:
  "padEnd (length s) 48 (rev (dropWhile (\<lambda>u. u = 48) (rev s))) = s"
proof (induction s rule: rev_induct)
  case (snoc u s)
  let ?t = "rev (dropWhile (\<lambda>u. u = 48) (rev s))"
  have "length ?t \<le> length s" using length_dropWhile_le [of _ "rev s"] by simp
  then have "padEnd (Suc (length s)) 48 ?t = padEnd (length s) 48 ?t @ [48]"
    by (simp add: padEnd_def Suc_diff_le replicate_append_same)
  with snoc show ?case by (cases "u = 48") (simp_all add: padEnd_def)
qed (simp add: padEnd_def)

lemma showInt_nat [simp]: "showInt (int n) = decimal n"
  by (simp add: showInt_def)

lemma format_parts:
  "formatQuoteBaseUnits (int n) c =
     (let f = rev (dropWhile (\<lambda>u. u = 48) (rev (padStart (quoteDecimals c) 48 (decimal (n mod 10 ^ quoteDecimals c))))) in
      if f \<noteq> [] then decimal (n div 10 ^ quoteDecimals c) @ js ''.'' @ f else decimal (n div 10 ^ quoteDecimals c))"
proof -
  have "quotBig (int n) (10 ^ d) = int (n div 10 ^ d)" "remBig (int n) (10 ^ d) = int (n mod 10 ^ d)" for d
    by (auto simp: quotBig_def remBig_def zdiv_int zmod_int sgn_if)
  then show ?thesis by (simp add: formatQuoteBaseUnits_def Let_def)
qed

lemma matchAmount_whole: "list_all isDigit w \<Longrightarrow> matchAmount w = Some (w, None)"
  by (simp add: matchAmount_def list_all_iff Let_def)

lemma matchAmount_point:
  assumes "list_all isDigit w" "list_all isDigit f"
  shows "matchAmount (w @ js ''.'' @ f) = Some (w, Some f)"
proof -
  have "\<not> isDigit 46" by (simp add: isDigit_def)
  then have "takeWhile isDigit (w @ 46 # f) = w" "dropWhile isDigit (w @ 46 # f) = 46 # f"
    using assms(1) by (auto simp: list_all_iff takeWhile_append2 dropWhile_append2)
  then show ?thesis using assms(2) by (simp add: matchAmount_def js_def)
qed

lemma digit_not_space: "isDigit u \<Longrightarrow> \<not> isSpace u"
  by (auto simp: isDigit_def isSpace_def) (use order.trans in fastforce)+

lemma list_all_strip: "list_all p s \<Longrightarrow> list_all p (rev (dropWhile q (rev s)))"
  by (auto simp: list_all_iff dest!: set_dropWhileD)

lemma parse_parts:
  assumes "list_all isDigit w" "w \<noteq> []" "list_all isDigit f" "length f \<le> quoteDecimals c"
  shows "parseQuoteAmount (if f \<noteq> [] then w @ js ''.'' @ f else w) c =
    Some (int (digitsValue w) * 10 ^ quoteDecimals c + int (digitsValue (padEnd (quoteDecimals c) 48 f)))"
proof (cases "f = []")
  case True
  have "trim w = w" using assms(1,2) by (intro trim_noop) (auto simp: list_all_iff digit_not_space)
  with True show ?thesis
    unfolding parseQuoteAmount_def Let_def using matchAmount_whole [OF assms(1)] assms(2) by simp
next
  case False
  have "trim (w @ js ''.'' @ f) = w @ js ''.'' @ f"
    using assms(1-3) False by (intro trim_noop) (auto simp: list_all_iff digit_not_space js_def)
  with False show ?thesis
    unfolding parseQuoteAmount_def Let_def using matchAmount_point [OF assms(1,3)] assms(4) by simp
qed

lemma parse_format: "parseQuoteAmount (formatQuoteBaseUnits (int n) c) c = Some (int n)"
proof -
  let ?d = "quoteDecimals c" and ?w = "decimal (n div 10 ^ quoteDecimals c)"
  let ?p = "padStart ?d 48 (decimal (n mod 10 ^ ?d))"
  let ?f = "rev (dropWhile (\<lambda>u. u = 48) (rev ?p))"
  have "0 < ?d" by (cases c) simp_all
  then have len: "length ?p = ?d" using length_decimal [of "n mod 10 ^ ?d" ?d] by (simp add: padStart_def)
  have "list_all isDigit ?p"
    using digitsValue_decimal [of "n mod 10 ^ ?d"] by (simp add: padStart_def, simp add: list_all_iff isDigit_def)
  then have f: "list_all isDigit ?f" by (rule list_all_strip)
  have "length ?f \<le> ?d" using length_dropWhile_le [of _ "rev ?p"] by (metis len length_rev)
  note w = digitsValue_decimal [of "n div 10 ^ ?d"]
  have "parseQuoteAmount (formatQuoteBaseUnits (int n) c) c =
      Some (int (n div 10 ^ ?d) * 10 ^ ?d + int (digitsValue (padEnd ?d 48 ?f)))"
    using parse_parts [OF _ _ f \<open>length ?f \<le> ?d\<close>, of ?w, OF conjunct1 [OF conjunct2 [OF w]] conjunct2 [OF conjunct2 [OF w]]]
    unfolding format_parts Let_def conjunct1 [OF w] .
  moreover have "padEnd ?d 48 ?f = ?p" using padEnd_strip [of ?p] by (simp only: len)
  moreover have "digitsValue ?p = n mod 10 ^ ?d" using digitsValue_decimal [of "n mod 10 ^ ?d"] by simp
  moreover have "int (n div 10 ^ ?d) * 10 ^ ?d + int (n mod 10 ^ ?d) = int n"
    using div_mult_mod_eq [of "int n" "10 ^ ?d"] by (simp add: zdiv_int zmod_int)
  ultimately show ?thesis by (simp only:)
qed

lemma parse_nonneg: "parseQuoteAmount s c = Some p \<Longrightarrow> 0 \<le> p"
  unfolding parseQuoteAmount_def Let_def by (auto split: option.splits if_splits prod.splits intro!: add_nonneg_nonneg)

lemma decimal_digits:
  "n < 10 \<Longrightarrow> decimal n = [of_nat (48 + n)]"
  "\<not> n < 10 \<Longrightarrow> decimal n = decimal (n div 10) @ [of_nat (48 + n mod 10)]"
  by (subst decimal.simps, simp)+

text \<open>Amounts survive the form. What the page prints for an amount of either currency parses back to
  exactly that amount, with any white space around it; what parses is never negative; and two amounts
  are printed alike only if they are equal.\<close>

theorem quote_amount_roundtrip:
  assumes "0 \<le> a" "0 \<le> b"
  shows "parseQuoteAmount (formatQuoteBaseUnits a c) c = Some a \<and>
    (list_all isSpace l \<and> list_all isSpace r \<longrightarrow> parseQuoteAmount (l @ formatQuoteBaseUnits a c @ r) c = Some a) \<and>
    (formatQuoteBaseUnits a c = formatQuoteBaseUnits b c \<longleftrightarrow> a = b) \<and>
    (parseQuoteAmount s c = Some p \<longrightarrow> 0 \<le> p)"
proof -
  have rt: "parseQuoteAmount (formatQuoteBaseUnits x c) c = Some x" if "0 \<le> x" for x
    using parse_format [of "nat x" c] that by simp
  have "formatQuoteBaseUnits a c = formatQuoteBaseUnits b c \<longleftrightarrow> a = b"
    using rt [OF assms(1)] rt [OF assms(2)] by (metis option.inject)
  moreover have "parseQuoteAmount (l @ s @ r) c = parseQuoteAmount s c" if "list_all isSpace l" "list_all isSpace r" for s
    using trim_spaces [OF that] by (simp only: parseQuoteAmount_def)
  ultimately show ?thesis using rt [OF assms(1)] parse_nonneg [of s c p] by metis
qed

theorem quote_amount_roundtrip_witness:
  "formatQuoteBaseUnits 1250000000 Arch = js ''1.25'' \<and> parseQuoteAmount (js ''1.25'') Arch = Some 1250000000 \<and>
   parseQuoteAmount (js ''1.25'') Btc = Some 125000000"
proof -
  have "formatQuoteBaseUnits 1250000000 Arch = js ''1.25''" "formatQuoteBaseUnits 125000000 Btc = js ''1.25''"
    using format_parts [of 1250000000 Arch] format_parts [of 125000000 Btc]
    by (simp_all add: decimal_digits padStart_def js_def)
  then show ?thesis
    using quote_amount_roundtrip [of 1250000000 0 Arch] quote_amount_roundtrip [of 125000000 0 Btc] by simp
qed

end
