(* ===== verification/Market.thy ===== *)
theory Market
  imports Quote
begin

text \<open>
  Deep links and the marketplace: \<^verbatim>\<open>register-handoff.ts\<close> and \<^verbatim>\<open>marketplace.ts\<close> of the manager.
  \<open>encodeURIComponent\<close> and \<open>localeCompare\<close> (locale data of the browser) are arguments. The register
  form is prefilled with exactly the registrable labels, the length collections partition the names, and the floors
  are the cheapest listings.
\<close>

section \<open>register-handoff.ts\<close>

definition labelFromCanonical :: "prims \<Rightarrow> js_string \<Rightarrow> js_error + js_string" where
  "labelFromCanonical P canonical = bindR (canonicalizeName P canonical) (\<lambda>normalized. Inr (dropEnd 5 normalized))"

text \<open>\<open>raw.trim().toLowerCase()\<close>.\<close>

definition folded :: "prims \<Rightarrow> js_string \<Rightarrow> js_string" where
  "folded P raw = toLowerCase (unicodeLower P) (trim raw)"

definition parseRegisterLabelParam :: "prims \<Rightarrow> js_string option \<Rightarrow> js_string option" where
  "parseRegisterLabelParam P raw =
     (case raw of
        None \<Rightarrow> None
      | Some r \<Rightarrow>
          (let trimmed = folded P r in
           if trimmed = [] then None
           else case (if endsWith trimmed (js ''.arch'')
                      then bindR (canonicalizeName P trimmed) (labelFromCanonical P)
                      else bindR (validateLabel trimmed) (\<lambda>_. Inr trimmed)) of
             Inr label \<Rightarrow> Some label
           | Inl _ \<Rightarrow> None))"

definition registerPathForLabel :: "prims \<Rightarrow> (js_string \<Rightarrow> js_string) \<Rightarrow> js_string \<Rightarrow> js_string" where
  "registerPathForLabel P encodeURIComponent labelOrCanonical =
     (case parseRegisterLabelParam P (Some labelOrCanonical) of
        None \<Rightarrow> js ''/register''
      | Some parsed \<Rightarrow>
          if parsed = [] then js ''/register'' else js ''/register?label='' @ encodeURIComponent parsed)"

text \<open>The full name behind a label or a name.\<close>

definition canonicalOf :: "prims \<Rightarrow> js_string \<Rightarrow> js_error + js_string" where
  "canonicalOf P trimmed =
     canonicalizeName P (if endsWith trimmed (js ''.arch'') then trimmed else trimmed @ js ''.arch'')"

definition viewPathForName :: "prims \<Rightarrow> (js_string \<Rightarrow> js_string) \<Rightarrow> js_string \<Rightarrow> js_string" where
  "viewPathForName P encodeURIComponent labelOrCanonical =
     (let trimmed = folded P labelOrCanonical in
      if trimmed = [] then js ''/''
      else case canonicalOf P trimmed of
        Inr canonical \<Rightarrow> js ''/view?name='' @ encodeURIComponent canonical
      | Inl _ \<Rightarrow> js ''/'')"

definition managePathForName :: "prims \<Rightarrow> (js_string \<Rightarrow> js_string) \<Rightarrow> js_string \<Rightarrow> js_string" where
  "managePathForName P encodeURIComponent labelOrCanonical =
     (let trimmed = folded P labelOrCanonical in
      if trimmed = [] then js ''/manage''
      else case canonicalOf P trimmed of
        Inr canonical \<Rightarrow> js ''/manage?name='' @ encodeURIComponent canonical
      | Inl _ \<Rightarrow> js ''/manage'')"

section \<open>marketplace.ts\<close>

record MarketListing =
  ml_currency :: QuoteCurrency
  ml_price :: int
  ml_listedAtSlot :: "int option"
  ml_listedAt :: "jsnum option"

record MarketplaceEntry =
  me_name :: js_string
  me_ownerDisplay :: js_string
  me_registeredAtSlot :: int
  me_registeredAt :: "jsnum option"
  me_listing :: "MarketListing option"

datatype CollectionId = All | Char1 | Char2 | Char3 | Char4 | Plus5

datatype MarketplaceSort =
  PriceAsc | PriceDesc | ListedRecent | NameAsc | NameDesc | LengthAsc | LengthDesc | Recent

text \<open>The table of collections with their capacities; titles and descriptions are copy.\<close>

definition MARKETPLACE_COLLECTIONS :: "(CollectionId \<times> nat option) list" where
  "MARKETPLACE_COLLECTIONS =
     [(All, None), (Char1, Some 36), (Char2, Some (36 ^ 2)), (Char3, Some (36 ^ 3)), (Char4, Some (36 ^ 4)), (Plus5, None)]"

definition parseCollectionId :: "js_string option \<Rightarrow> CollectionId" where
  "parseCollectionId raw =
     (if raw = Some (js ''1-char'') then Char1
      else if raw = Some (js ''2-char'') then Char2
      else if raw = Some (js ''3-char'') then Char3
      else if raw = Some (js ''4-char'') then Char4
      else if raw = Some (js ''5-plus'') then Plus5
      else All)"

definition labelLength :: "prims \<Rightarrow> js_string \<Rightarrow> nat" where
  "labelLength P n =
     (case labelFromCanonical P n of
        Inr label \<Rightarrow> length label
      | Inl _ \<Rightarrow>
          (let trimmed = folded P n in
           if endsWith trimmed (js ''.arch'') then length trimmed - 5 else length trimmed))"

definition lengthBadge :: "prims \<Rightarrow> js_string \<Rightarrow> js_string" where
  "lengthBadge P n = (let len = labelLength P n in if len \<ge> 5 then js ''5+'' else decimal len)"

definition listingPriceSortKey :: "MarketListing \<Rightarrow> int" where
  "listingPriceSortKey listing = quotBig (ml_price listing * 100000000) (10 ^ quoteDecimals (ml_currency listing))"

definition entryMatchesCollection :: "prims \<Rightarrow> MarketplaceEntry \<Rightarrow> CollectionId \<Rightarrow> bool" where
  "entryMatchesCollection P entry collectionId =
     (let len = labelLength P (me_name entry) in
      case collectionId of
        All \<Rightarrow> True
      | Char1 \<Rightarrow> len = 1
      | Char2 \<Rightarrow> len = 2
      | Char3 \<Rightarrow> len = 3
      | Char4 \<Rightarrow> len = 4
      | Plus5 \<Rightarrow> len \<ge> 5)"

definition uniqueOwnerCount :: "MarketplaceEntry list \<Rightarrow> nat" where
  "uniqueOwnerCount entries = length (remdups (map me_ownerDisplay entries))"

definition collectionStats ::
  "prims \<Rightarrow> MarketplaceEntry list \<Rightarrow> CollectionId \<times> nat option \<Rightarrow> nat \<times> nat \<times> nat option" where
  "collectionStats P entries collection =
     (let filtered = filter (\<lambda>e. entryMatchesCollection P e (fst collection)) entries in
      (length filtered, uniqueOwnerCount filtered, snd collection))"

definition filterMarketplaceEntries ::
  "prims \<Rightarrow> MarketplaceEntry list \<Rightarrow> CollectionId \<Rightarrow> js_string option \<Rightarrow> MarketplaceEntry list" where
  "filterMarketplaceEntries P entries collectionId query =
     (let q = (case query of Some s \<Rightarrow> folded P s | None \<Rightarrow> []) in
      filter (\<lambda>entry.
        if \<not> entryMatchesCollection P entry collectionId then False
        else if q = [] then True
        else includesText (toLowerCase (unicodeLower P) (me_name entry)) q \<or>
             includesText (toLowerCase (unicodeLower P) (me_ownerDisplay entry)) q) entries)"

definition compareBigint :: "int \<Rightarrow> int \<Rightarrow> int" where
  "compareBigint a b = (if a = b then 0 else if a < b then -1 else 1)"

text \<open>Only the sign of the difference of two times matters to a sort.\<close>

definition compareRecency :: "jsnum option \<Rightarrow> jsnum option \<Rightarrow> int" where
  "compareRecency a b =
     (case (a, b) of
        (Some (Fin x), Some (Fin y)) \<Rightarrow> (if y - x < 0 then -1 else if y - x > 0 then 1 else 0)
      | (Some (Fin _), _) \<Rightarrow> -1
      | (_, Some (Fin _)) \<Rightarrow> 1
      | _ \<Rightarrow> 0)"

definition orBy :: "int \<Rightarrow> int \<Rightarrow> int" where
  "orBy d e = (if d \<noteq> 0 then d else e)"

text \<open>Missing keys go last.\<close>

definition compareKnown :: "(int \<Rightarrow> int \<Rightarrow> int) \<Rightarrow> int option \<Rightarrow> int option \<Rightarrow> int \<Rightarrow> int" where
  "compareKnown cmp a b byName =
     (case (a, b) of
        (None, None) \<Rightarrow> byName
      | (None, Some _) \<Rightarrow> 1
      | (Some _, None) \<Rightarrow> -1
      | (Some x, Some y) \<Rightarrow> orBy (cmp x y) byName)"

definition compareEntries ::
  "prims \<Rightarrow> (js_string \<Rightarrow> js_string \<Rightarrow> int) \<Rightarrow> MarketplaceSort \<Rightarrow> MarketplaceEntry \<Rightarrow> MarketplaceEntry \<Rightarrow> int" where
  "compareEntries P localeCompare s a b =
     (let byName = localeCompare (me_name a) (me_name b);
          key = (\<lambda>e. map_option listingPriceSortKey (me_listing e));
          slot = (\<lambda>e. Option.bind (me_listing e) ml_listedAtSlot);
          time = (\<lambda>e. Option.bind (me_listing e) ml_listedAt);
          len = (\<lambda>e. int (labelLength P (me_name e))) in
      case s of
        PriceAsc \<Rightarrow> compareKnown compareBigint (key a) (key b) byName
      | PriceDesc \<Rightarrow> compareKnown (\<lambda>x y. - compareBigint x y) (key a) (key b) byName
      | ListedRecent \<Rightarrow>
          orBy (compareRecency (time a) (time b)) (compareKnown (\<lambda>x y. compareBigint y x) (slot a) (slot b) byName)
      | NameDesc \<Rightarrow>
          (if textLess (me_name b) (me_name a) then -1 else if textLess (me_name a) (me_name b) then 1 else 0)
      | LengthAsc \<Rightarrow> orBy (len a - len b) byName
      | LengthDesc \<Rightarrow> orBy (len b - len a) byName
      | Recent \<Rightarrow>
          orBy (compareRecency (me_registeredAt a) (me_registeredAt b))
            (orBy (compareBigint (me_registeredAtSlot b) (me_registeredAtSlot a)) byName)
      | NameAsc \<Rightarrow> byName)"

definition sortMarketplaceEntries ::
  "prims \<Rightarrow> (js_string \<Rightarrow> js_string \<Rightarrow> int) \<Rightarrow> MarketplaceEntry list \<Rightarrow> MarketplaceSort \<Rightarrow> MarketplaceEntry list" where
  "sortMarketplaceEntries P localeCompare entries s = sortBy (compareEntries P localeCompare s) entries"

definition listedEntries :: "MarketplaceEntry list \<Rightarrow> MarketplaceEntry list" where
  "listedEntries entries = filter (\<lambda>e. me_listing e \<noteq> None) entries"

definition listedCount :: "MarketplaceEntry list \<Rightarrow> nat" where
  "listedCount entries = length (filter (\<lambda>e. me_listing e \<noteq> None) entries)"

text \<open>The loop of \<open>marketplaceFloors\<close>: an entry replaces the floor of its currency when it is cheaper.\<close>

definition priceOf :: "MarketplaceEntry \<Rightarrow> int" where
  "priceOf e = ml_price (the (me_listing e))"

definition floorStep :: "MarketplaceEntry \<Rightarrow> (QuoteCurrency \<rightharpoonup> MarketplaceEntry) \<Rightarrow> (QuoteCurrency \<rightharpoonup> MarketplaceEntry)" where
  "floorStep entry floors =
     (let currency = ml_currency (the (me_listing entry)) in
      case floors currency of
        None \<Rightarrow> floors(currency \<mapsto> entry)
      | Some current \<Rightarrow> if priceOf entry < priceOf current then floors(currency \<mapsto> entry) else floors)"

definition marketplaceFloors :: "MarketplaceEntry list \<Rightarrow> (QuoteCurrency \<rightharpoonup> MarketplaceEntry)" where
  "marketplaceFloors entries = fold floorStep (listedEntries entries) Map.empty"

definition topListingsByPrice ::
  "prims \<Rightarrow> (js_string \<Rightarrow> js_string \<Rightarrow> int) \<Rightarrow> MarketplaceEntry list \<Rightarrow> bool \<Rightarrow> int \<Rightarrow> MarketplaceEntry list" where
  "topListingsByPrice P localeCompare entries ascending limit =
     take (nat (max 0 limit))
       (sortMarketplaceEntries P localeCompare (listedEntries entries) (if ascending then PriceAsc else PriceDesc))"

definition newestListings ::
  "prims \<Rightarrow> (js_string \<Rightarrow> js_string \<Rightarrow> int) \<Rightarrow> MarketplaceEntry list \<Rightarrow> int \<Rightarrow> MarketplaceEntry list" where
  "newestListings P localeCompare entries limit =
     take (nat (max 0 limit)) (sortMarketplaceEntries P localeCompare (listedEntries entries) ListedRecent)"

definition collectionFloors ::
  "prims \<Rightarrow> (js_string \<Rightarrow> js_string \<Rightarrow> int) \<Rightarrow> MarketplaceEntry list \<Rightarrow> (CollectionId \<times> MarketplaceEntry) list" where
  "collectionFloors P localeCompare entries =
     List.map_filter (\<lambda>(cid, _).
       if cid = All then None
       else case topListingsByPrice P localeCompare (filter (\<lambda>e. entryMatchesCollection P e cid) entries) True 1 of
         [] \<Rightarrow> None
       | cheapest # _ \<Rightarrow> Some (cid, cheapest)) MARKETPLACE_COLLECTIONS"

fun collectionText :: "CollectionId \<Rightarrow> js_string" where
  "collectionText All = js ''all''"
| "collectionText Char1 = js ''1-char''"
| "collectionText Char2 = js ''2-char''"
| "collectionText Char3 = js ''3-char''"
| "collectionText Char4 = js ''4-char''"
| "collectionText Plus5 = js ''5-plus''"

definition explorePathForCollection :: "(js_string \<Rightarrow> js_string) \<Rightarrow> CollectionId \<Rightarrow> js_string" where
  "explorePathForCollection encodeURIComponent collectionId =
     (if collectionId = All then js ''/explore''
      else js ''/explore?collection='' @ encodeURIComponent (collectionText collectionId))"

lemma parse_collectionText: "parseCollectionId (Some (collectionText c)) = c"
  by (cases c) (simp_all add: parseCollectionId_def js_def)

section \<open>Deep links prefill valid labels only\<close>

lemma labelFromCanonical_iff:
  "labelFromCanonical P n = Inr l \<longleftrightarrow> canonicalizeName P n = Inr (l @ ARCH_SUFFIX)"
proof -
  have "dropEnd 5 (m @ ARCH_SUFFIX) = m" for m by (simp add: dropEnd_def ARCH_SUFFIX_text)
  then show ?thesis by (auto simp: labelFromCanonical_def result_iffs canonicalizeName_iff canonicalName_def)
qed

lemma valid_label_stable:
  assumes "labelText l"
  shows "folded P l = l" "\<not> endsWith l (js ''.arch'')"
proof -
  have u: "list_all labelUnit l" using labelText_units [OF assms] by simp
  have "trim l = l" by (rule trim_noop) (use u labelUnit_canonical in \<open>auto simp: list_all_iff\<close>)
  moreover have "isAscii l" "map lowerUnit l = l"
    using u labelUnit_canonical by (auto simp: isAscii_def list_all_iff intro: map_idI)
  ultimately show "folded P l = l" by (simp add: folded_def toLowerCase_def)
  show "\<not> endsWith l (js ''.arch'')"
    using u by (auto simp: endsWith_iff_suffix suffix_def js_def labelUnit_def alnum_def)
qed

lemma canonical_name_stable: "canonicalName n \<Longrightarrow> folded P n = n"
  using canonicalName_units [of n] by (simp add: folded_def toLowerCase_def)

lemma arch_suffix: "js ''.arch'' = ARCH_SUFFIX"
  by (simp add: ARCH_SUFFIX_def)

lemma case_result_Some: "(case r of Inr x \<Rightarrow> Some x | Inl _ \<Rightarrow> None) = Some l \<longleftrightarrow> r = Inr l"
  by (cases r) auto

lemma register_param_some:
  "parseRegisterLabelParam P (Some raw) = Some l \<longleftrightarrow>
     folded P raw \<noteq> [] \<and>
     (if endsWith (folded P raw) ARCH_SUFFIX
      then \<exists>n. canonicalizeName P (folded P raw) = Inr n \<and> canonicalizeName P n = Inr (l @ ARCH_SUFFIX)
      else labelText l \<and> length l \<le> 63 \<and> folded P raw = l)"
  unfolding parseRegisterLabelParam_def Let_def option.case arch_suffix
  by (simp add: case_result_Some result_iffs validateLabel_iff labelFromCanonical_iff) auto

text \<open>What prefills the register form is a registrable label, and both spellings of a registrable label do.\<close>

theorem register_param_sound:
  assumes "parseRegisterLabelParam P raw = Some l"
  shows "validateLabel l = Inr ()"
  using assms
  by (cases raw) (auto simp: parseRegisterLabelParam_def [of P None] register_param_some validateLabel_iff
      canonicalizeName_iff canonicalName_def split: if_splits)

theorem register_param_complete:
  assumes "validateLabel l = Inr ()"
  shows "parseRegisterLabelParam P (Some l) = Some l"
    and "parseRegisterLabelParam P (Some (l @ ARCH_SUFFIX)) = Some l"
proof -
  have l: "labelText l" "length l \<le> 63" using assms by (simp_all add: validateLabel_iff)
  show "parseRegisterLabelParam P (Some l) = Some l"
    using valid_label_stable [OF l(1)] labelText_units [OF l(1)] l
    by (simp add: register_param_some arch_suffix)
  have "canonicalName (l @ ARCH_SUFFIX)" using l by (simp add: canonicalName_def)
  then show "parseRegisterLabelParam P (Some (l @ ARCH_SUFFIX)) = Some l"
    using canonical_name_stable canonicalizeName_canonical labelText_units [OF l(1)]
    by (simp add: register_param_some endsWith_iff_suffix suffix_def)
qed

section \<open>The length collections partition the names\<close>

lemma length_collections_partition:
  assumes "canonicalName (me_name e)"
  shows "\<exists>!c. c \<in> set (map fst MARKETPLACE_COLLECTIONS) \<and> c \<noteq> All \<and> entryMatchesCollection P e c"
proof -
  obtain l where l: "me_name e = l @ ARCH_SUFFIX" "labelText l" using assms by (auto simp: canonicalName_def)
  have "labelFromCanonical P (me_name e) = Inr l"
    using canonicalizeName_canonical [OF assms, of P] l by (simp add: labelFromCanonical_iff)
  then have len: "labelLength P (me_name e) = length l" by (simp add: labelLength_def)
  define bucket where
    "bucket = (if length l = 1 then Char1 else if length l = 2 then Char2 else if length l = 3 then Char3
               else if length l = 4 then Char4 else Plus5)"
  obtain n where "length l = Suc n" using labelText_units [OF l(2)] by (cases l) auto
  then have "entryMatchesCollection P e c \<longleftrightarrow> c = All \<or> c = bucket" for c
    by (cases c) (auto simp: entryMatchesCollection_def len bucket_def)
  moreover have "bucket \<in> set (map fst MARKETPLACE_COLLECTIONS)" "bucket \<noteq> All"
    by (simp_all add: bucket_def MARKETPLACE_COLLECTIONS_def)
  ultimately show ?thesis by blast
qed

section \<open>Floors\<close>

text \<open>The first of the cheapest entries listed in a currency.\<close>

definition listedIn :: "QuoteCurrency \<Rightarrow> MarketplaceEntry \<Rightarrow> bool" where
  "listedIn c e \<longleftrightarrow> (\<exists>l. me_listing e = Some l \<and> ml_currency l = c)"

definition firstCheapest :: "MarketplaceEntry list \<Rightarrow> MarketplaceEntry option" where
  "firstCheapest es = find (\<lambda>e. \<forall>x \<in> set es. priceOf e \<le> priceOf x) es"

lemma firstCheapest_None: "firstCheapest es = None \<longleftrightarrow> es = []"
proof (cases "es = []")
  case False
  then obtain m where "m \<in> set es" "priceOf m = Min (priceOf ` set es)"
    using Min_in [of "priceOf ` set es"] by fastforce
  then have "\<forall>x \<in> set es. priceOf m \<le> priceOf x" by simp
  with \<open>m \<in> set es\<close> show ?thesis by (auto simp: firstCheapest_def find_None_iff)
qed (simp add: firstCheapest_def)

lemma find_append: "find p (xs @ ys) = (case find p xs of None \<Rightarrow> find p ys | Some x \<Rightarrow> Some x)"
  by (induction xs) auto

lemma firstCheapest_snoc:
  "firstCheapest (es @ [e]) =
     (case firstCheapest es of
        None \<Rightarrow> Some e
      | Some m \<Rightarrow> if priceOf e < priceOf m then Some e else Some m)"
proof (cases "firstCheapest es")
  case None
  then show ?thesis by (simp add: firstCheapest_None) (simp add: firstCheapest_def)
next
  case (Some m)
  then have m: "m \<in> set es" "\<forall>x \<in> set es. priceOf m \<le> priceOf x"
    by (auto simp: firstCheapest_def find_Some_iff)
  let ?least = "\<lambda>xs d. \<forall>x \<in> set xs. priceOf d \<le> priceOf x"
  show ?thesis
  proof (cases "priceOf e < priceOf m")
    case True
    then have "find (?least (es @ [e])) es = None" using m by (fastforce simp: find_None_iff)
    moreover have "?least (es @ [e]) e" using True m by auto
    ultimately show ?thesis using True Some by (simp add: firstCheapest_def find_append)
  next
    case False
    then have "find (?least (es @ [e])) es = find (?least es) es"
      using m by (intro find_cong) force+
    then show ?thesis using False Some by (simp add: firstCheapest_def find_append)
  qed
qed

lemma floors_fold:
  "fold floorStep (listedEntries es) Map.empty c = firstCheapest (filter (listedIn c) es)"
proof (induction es rule: rev_induct)
  case Nil
  show ?case by (simp add: listedEntries_def firstCheapest_def)
next
  case (snoc e es)
  then show ?case
    by (cases "me_listing e")
      (auto simp: listedEntries_def floorStep_def listedIn_def firstCheapest_snoc Let_def split: option.splits)
qed

section \<open>Properties\<close>

text \<open>For each currency \<open>marketplaceFloors\<close> keeps the first of the cheapest entries listed in that currency,
  and no entry where none is listed.\<close>

theorem marketplaceFloors_exact:
  "marketplaceFloors entries c = firstCheapest (filter (listedIn c) entries)"
  by (simp add: marketplaceFloors_def floors_fold)

end
