(* ===== verification/Derive.thy ===== *)
theory Derive
  imports Names Borsh
begin

text \<open>
  Program-derived addresses: \<^verbatim>\<open>derive.ts\<close>. The PDA search itself is \<open>PubkeyUtil.findProgramAddress\<close>
  of the Arch SDK, a parameter. What the module decides is the seed list of every account, and the
  lemmas show that no two accounts of a deployment share their seed bytes.
\<close>

section \<open>Addresses (derive.ts)\<close>

definition encodeU32LE :: "int \<Rightarrow> bytes" where
  "encodeU32LE v = leBytes 4 (v mod 2 ^ 32)"

fun recordTypeByte :: "RecordType \<Rightarrow> u8" where
  "recordTypeByte ArchOwnerT = 0"
| "recordTypeByte BitcoinTaprootT = 1"
| "recordTypeByte TokenAtaT = 2"
| "recordTypeByte TextT = 3"

text \<open>\<open>asBytes\<close> copies an array; values have no identity here.\<close>

definition derive :: "prims \<Rightarrow> ArchAddress \<Rightarrow> bytes list \<Rightarrow> js_error + ArchAddress" where
  "derive P programId seeds = bindR (findProgramAddress P seeds programId) (\<lambda>(a, _). Inr a)"

definition deriveConfigAddress :: "prims \<Rightarrow> ArchAddress \<Rightarrow> int \<Rightarrow> js_string \<Rightarrow> js_error + ArchAddress" where
  "deriveConfigAddress P programId networkId ns =
     derive P programId [CONFIG_SEED, encodeU32LE networkId, namespaceHash P ns]"

definition deriveNameAddress :: "prims \<Rightarrow> ArchAddress \<Rightarrow> js_string \<Rightarrow> bytes \<Rightarrow> js_error + ArchAddress" where
  "deriveNameAddress P programId ns hash = derive P programId [NAME_SEED, namespaceHash P ns, hash]"

definition deriveRecordAddress ::
  "prims \<Rightarrow> ArchAddress \<Rightarrow> js_string \<Rightarrow> bytes \<Rightarrow> RecordType \<Rightarrow> js_error + ArchAddress" where
  "deriveRecordAddress P programId ns hash rtype =
     derive P programId [RECORD_SEED, namespaceHash P ns, hash, [recordTypeByte rtype]]"

definition deriveTextRecordAddress ::
  "prims \<Rightarrow> ArchAddress \<Rightarrow> js_string \<Rightarrow> bytes \<Rightarrow> js_string \<Rightarrow> js_error + ArchAddress" where
  "deriveTextRecordAddress P programId ns hash key =
     derive P programId [RECORD_SEED, namespaceHash P ns, hash, [recordTypeByte TextT], recordKeyHash P key]"

text \<open>\<open>!textKey\<close> holds for \<open>undefined\<close> and for the empty text.\<close>

definition deriveRecordAddressFor ::
  "prims \<Rightarrow> ArchAddress \<Rightarrow> js_string \<Rightarrow> bytes \<Rightarrow> RecordType \<Rightarrow> js_string option \<Rightarrow> js_error + ArchAddress" where
  "deriveRecordAddressFor P programId ns hash rtype textKey =
     (if rtype = TextT then
        (case textKey of
           None \<Rightarrow> Inl (PlainError (js ''Text records require a key''))
         | Some key \<Rightarrow>
             guardR (key = []) (PlainError (js ''Text records require a key''))
               (deriveTextRecordAddress P programId ns hash key))
      else deriveRecordAddress P programId ns hash rtype)"

definition deriveReverseAddress :: "prims \<Rightarrow> ArchAddress \<Rightarrow> js_string \<Rightarrow> ArchAddress \<Rightarrow> js_error + ArchAddress" where
  "deriveReverseAddress P programId ns owner = derive P programId [REVERSE_SEED, namespaceHash P ns, owner]"

definition deriveListingAddress :: "prims \<Rightarrow> ArchAddress \<Rightarrow> js_string \<Rightarrow> bytes \<Rightarrow> js_error + ArchAddress" where
  "deriveListingAddress P programId ns hash = derive P programId [LISTING_SEED, namespaceHash P ns, hash]"

definition deriveOfferAddress ::
  "prims \<Rightarrow> ArchAddress \<Rightarrow> js_string \<Rightarrow> bytes \<Rightarrow> ArchAddress \<Rightarrow> js_error + ArchAddress" where
  "deriveOfferAddress P programId ns hash buyer = derive P programId [OFFER_SEED, namespaceHash P ns, hash, buyer]"

definition deriveTokenAta ::
  "prims \<Rightarrow> ArchAddress \<Rightarrow> ArchAddress \<Rightarrow> ArchAddress \<Rightarrow> ArchAddress \<Rightarrow> js_error + ArchAddress" where
  "deriveTokenAta P owner tokenId tokenProgramId associatedTokenProgramId =
     bindR (findProgramAddress P [owner, tokenProgramId, tokenId] associatedTokenProgramId) (\<lambda>(a, _). Inr a)"

section \<open>Accounts and their seeds\<close>

text \<open>The accounts of the registry: what a derived address stands for.\<close>

datatype account =
    ConfigOf int js_string
  | NameOf js_string bytes
  | RecordOf js_string bytes RecordType
  | TextOf js_string bytes js_string
  | ReverseOf js_string ArchAddress
  | ListingOf js_string bytes
  | OfferOf js_string bytes ArchAddress

fun addressOf :: "prims \<Rightarrow> ArchAddress \<Rightarrow> account \<Rightarrow> js_error + ArchAddress" where
  "addressOf P pid (ConfigOf n ns) = deriveConfigAddress P pid n ns"
| "addressOf P pid (NameOf ns h) = deriveNameAddress P pid ns h"
| "addressOf P pid (RecordOf ns h t) = deriveRecordAddressFor P pid ns h t None"
| "addressOf P pid (TextOf ns h k) = deriveRecordAddressFor P pid ns h TextT (Some k)"
| "addressOf P pid (ReverseOf ns p) = deriveReverseAddress P pid ns p"
| "addressOf P pid (ListingOf ns h) = deriveListingAddress P pid ns h"
| "addressOf P pid (OfferOf ns h b) = deriveOfferAddress P pid ns h b"

fun seedsOf :: "prims \<Rightarrow> account \<Rightarrow> bytes list" where
  "seedsOf P (ConfigOf n ns) = [CONFIG_SEED, encodeU32LE n, namespaceHash P ns]"
| "seedsOf P (NameOf ns h) = [NAME_SEED, namespaceHash P ns, h]"
| "seedsOf P (RecordOf ns h t) = [RECORD_SEED, namespaceHash P ns, h, [recordTypeByte t]]"
| "seedsOf P (TextOf ns h k) = [RECORD_SEED, namespaceHash P ns, h, [3], recordKeyHash P k]"
| "seedsOf P (ReverseOf ns p) = [REVERSE_SEED, namespaceHash P ns, p]"
| "seedsOf P (ListingOf ns h) = [LISTING_SEED, namespaceHash P ns, h]"
| "seedsOf P (OfferOf ns h b) = [OFFER_SEED, namespaceHash P ns, h, b]"

text \<open>Identifiers at their documented widths, texts that have one UTF-8 form, and a key exactly
  for text records.\<close>

fun okAccount :: "account \<Rightarrow> bool" where
  "okAccount (ConfigOf n ns) = (fitsU32 n \<and> decodable ns)"
| "okAccount (NameOf ns h) = (decodable ns \<and> length h = 32)"
| "okAccount (RecordOf ns h t) = (decodable ns \<and> length h = 32 \<and> t \<noteq> TextT)"
| "okAccount (TextOf ns h k) = (decodable ns \<and> length h = 32 \<and> decodable k \<and> k \<noteq> [])"
| "okAccount (ReverseOf ns p) = (decodable ns \<and> length p = 32)"
| "okAccount (ListingOf ns h) = (decodable ns \<and> length h = 32)"
| "okAccount (OfferOf ns h b) = (decodable ns \<and> length h = 32 \<and> length b = 32)"

lemma addressOf_seeds: "okAccount a \<Longrightarrow> addressOf P pid a = derive P pid (seedsOf P a)"
  by (cases a)
    (auto simp: deriveConfigAddress_def deriveNameAddress_def deriveRecordAddressFor_def
      deriveRecordAddress_def deriveTextRecordAddress_def deriveReverseAddress_def
      deriveListingAddress_def deriveOfferAddress_def)

lemma encodeU32LE_inj:
  assumes "fitsU32 m" "fitsU32 n" "encodeU32LE m = encodeU32LE n"
  shows "m = n"
proof -
  have "leValue (encodeU32LE v) = v" if "fitsU32 v" for v
    unfolding encodeU32LE_def leValue_leBytes using that by simp
  then show ?thesis using assms by metis
qed

lemma length_encodeU32LE: "length (encodeU32LE n) = 4"
  by (simp add: encodeU32LE_def)

lemma recordTypeByte_inj: "recordTypeByte s = recordTypeByte t \<Longrightarrow> s = t"
  by (cases s; cases t) simp_all

text \<open>The constructor is decided by the bytes of the seed prefix, and by the length between the two
  kinds of record.\<close>

fun sameKind :: "account \<Rightarrow> account \<Rightarrow> bool" where
  "sameKind (ConfigOf _ _) (ConfigOf _ _) = True"
| "sameKind (NameOf _ _) (NameOf _ _) = True"
| "sameKind (RecordOf _ _ _) (RecordOf _ _ _) = True"
| "sameKind (TextOf _ _ _) (TextOf _ _ _) = True"
| "sameKind (ReverseOf _ _) (ReverseOf _ _) = True"
| "sameKind (ListingOf _ _) (ListingOf _ _) = True"
| "sameKind (OfferOf _ _ _) (OfferOf _ _ _) = True"
| "sameKind _ _ = False"

lemma seeds_kind:
  assumes "sha256_width P" "okAccount a" "okAccount b" and eq: "concat (seedsOf P a) = concat (seedsOf P b)"
  shows "sameKind a b"
proof -
  have "length (concat (seedsOf P a)) = length (concat (seedsOf P b))" using eq by simp
  then show ?thesis
    using assms(2-) by (cases a; cases b) (simp_all add: seed_bytes length_hashes [OF assms(1)])
qed

text \<open>The inputs of SHA-256 that the seeds of an account are made of.\<close>

fun preimagesOf :: "account \<Rightarrow> bytes set" where
  "preimagesOf (ConfigOf n ns) = {namespacePreimage ns}"
| "preimagesOf (NameOf ns h) = {namespacePreimage ns}"
| "preimagesOf (RecordOf ns h t) = {namespacePreimage ns}"
| "preimagesOf (TextOf ns h k) = {namespacePreimage ns, recordKeyPreimage k}"
| "preimagesOf (ReverseOf ns p) = {namespacePreimage ns}"
| "preimagesOf (ListingOf ns h) = {namespacePreimage ns}"
| "preimagesOf (OfferOf ns h b) = {namespacePreimage ns}"

lemma seeds_inj:
  assumes width: "sha256_width P" and inj: "inj_on (sha256 P) (preimagesOf a \<union> preimagesOf b)"
    and ok: "okAccount a" "okAccount b" and eq: "concat (seedsOf P a) = concat (seedsOf P b)"
  shows "a = b"
proof -
  have len: "length (sha256 P x) = 32" for x using width by (simp add: sha256_width_def)
  have same: "sha256 P x = sha256 P y \<longleftrightarrow> x = y" if "x \<in> preimagesOf a" "y \<in> preimagesOf b" for x y
    using inj that by (auto dest: inj_onD)
  have "sameKind a b" using seeds_kind [OF width ok eq] .
  then show ?thesis
    using ok eq same
    by (cases a; cases b)
      (simp_all add: len length_encodeU32LE hashes_of_preimages preimage_inj encodeU32LE_inj recordTypeByte_inj)
qed

section \<open>Properties\<close>

text \<open>C25. The seed scheme separates accounts: every address function passes the seeds of its account
  to the PDA search, and two accounts of any kinds whose concatenated seed bytes are equal are the
  same account, where SHA-256 does not collide on the texts they hash.\<close>

theorem derived_accounts_separate:
  assumes "sha256_width P" "inj_on (sha256 P) (preimagesOf a \<union> preimagesOf b)" "okAccount a" "okAccount b"
  shows "addressOf P pid a = derive P pid (seedsOf P a) \<and> addressOf P pid b = derive P pid (seedsOf P b)
    \<and> (concat (seedsOf P a) = concat (seedsOf P b) \<longleftrightarrow> a = b)"
  using seeds_inj [OF assms] addressOf_seeds [OF assms(3)] addressOf_seeds [OF assms(4)] by auto

theorem derived_accounts_separate_witness:
  "concat (seedsOf samplePrims (RecordOf (js ''arch'') (replicate 32 7) TokenAtaT)) \<noteq>
   concat (seedsOf samplePrims (TextOf (js ''arch'') (replicate 32 7) (js ''url'')))"
proof -
  have inj: "inj_on (sha256 samplePrims) (preimagesOf (RecordOf (js ''arch'') (replicate 32 7) TokenAtaT) \<union>
      preimagesOf (TextOf (js ''arch'') (replicate 32 7) (js ''url'')))"
    by (simp add: inj_on_def samplePrims_def fold32_def preimage_defs domain_bytes textEncode_ascii js_def)
  show ?thesis
    using derived_accounts_separate [OF samplePrims_width inj] by (simp add: decodable_ascii js_def)
qed

end
