(* ===== verification/Validate.thy ===== *)
theory Validate
  imports Derive State_Codec
begin

text \<open>
  Record validation: \<^verbatim>\<open>validate.ts\<close>. Activity of a name, Taproot addresses over the bech32m
  package, text keys and values, token accounts, and the check of a whole record value, which is
  characterised exactly.
\<close>

section \<open>Activity and Taproot addresses (validate.ts)\<close>

definition isActive :: "NameAccount \<Rightarrow> int \<Rightarrow> bool" where
  "isActive n currentSlot \<longleftrightarrow> currentSlot < na_expiresAtSlot n"

fun hrp :: "BitcoinNetwork \<Rightarrow> js_string" where
  "hrp Mainnet = js ''bc''"
| "hrp Testnet = js ''tb''"
| "hrp Signet = js ''tb''"
| "hrp Regtest = js ''bcrt''"

definition encodeTaprootAddress :: "prims \<Rightarrow> bytes \<Rightarrow> BitcoinNetwork \<Rightarrow> js_error + js_string" where
  "encodeTaprootAddress P witnessProgram network =
     guardR (length witnessProgram \<noteq> 32) (ansError InvalidTaprootAddress)
       (bech32m_encode P (hrp network) (1 # bech32m_toWords P witnessProgram))"

text \<open>Only the \<open>decode\<close> call stands inside the \<open>try\<close>; what \<open>fromWords\<close> throws is not caught.\<close>

definition parseTaprootAddress :: "prims \<Rightarrow> js_string \<Rightarrow> BitcoinNetwork \<Rightarrow> js_error + RecordValue" where
  "parseTaprootAddress P address network =
     (case bech32m_decode P address of
        Inl _ \<Rightarrow> Inl (ansError InvalidTaprootAddress)
      | Inr (pre, words) \<Rightarrow>
          guardR (pre \<noteq> hrp network \<or> js_at words 0 \<noteq> Some 1) (ansError InvalidTaprootAddress)
         (bindR (bech32m_fromWords P (drop 1 words)) (\<lambda>program.
          guardR (length program \<noteq> 32) (ansError InvalidTaprootAddress)
         (bindR (encodeTaprootAddress P program network) (\<lambda>canonical.
          guardR (canonical \<noteq> address) (ansError InvalidTaprootAddress)
            (Inr (BitcoinTaproot program)))))))"

section \<open>Record values\<close>

fun maxRecordValueLen :: "RecordType \<Rightarrow> nat" where
  "maxRecordValueLen ArchOwnerT = 33"
| "maxRecordValueLen BitcoinTaprootT = 33"
| "maxRecordValueLen TokenAtaT = 65"
| "maxRecordValueLen TextT = 297"

text \<open>\<open>[...s]\<close>: the text split at code points, a surrogate pair staying together.\<close>

fun spreadText :: "js_string \<Rightarrow> js_string list" where
  "spreadText [] = []"
| "spreadText [u] = [[u]]"
| "spreadText (u # v # s) =
     (if highSurrogate u \<and> lowSurrogate v then [u, v] # spreadText s else [u] # spreadText (v # s))"

text \<open>The character class \<open>[a-z0-9_-]\<close>; \<open>test\<close> looks for one matching unit.\<close>

definition keyUnit :: "u16 \<Rightarrow> bool" where
  "keyUnit u \<longleftrightarrow> (97 \<le> u \<and> u \<le> 122) \<or> (48 \<le> u \<and> u \<le> 57) \<or> u = 95 \<or> u = 45"

definition validateTextKey :: "js_string \<Rightarrow> js_error + unit" where
  "validateTextKey key =
     guardR (key = [] \<or> length key > MAX_TEXT_KEY_LEN) (ansError InvalidTextRecord)
    (guardR (\<not> list_all (list_ex keyUnit) (spreadText key)) (ansError InvalidTextRecord)
    (Inr ()))"

fun printableLoop :: "js_string \<Rightarrow> js_error + unit" where
  "printableLoop [] = Inr ()"
| "printableLoop (u # s) = guardR (u < 0x20 \<or> u > 0x7e) (ansError InvalidTextRecord) (printableLoop s)"

definition validateTextValue :: "js_string \<Rightarrow> js_error + unit" where
  "validateTextValue val =
     guardR (val = [] \<or> length val > MAX_TEXT_VALUE_LEN) (ansError InvalidTextRecord) (printableLoop val)"

fun validateTokenAta :: "prims \<Rightarrow> bytes \<Rightarrow> bytes \<Rightarrow> bytes \<Rightarrow> TokenProgramConfig list \<Rightarrow> js_error + unit" where
  "validateTokenAta P owner tokenId ata [] = Inl (ansError InvalidTokenAta)"
| "validateTokenAta P owner tokenId ata (programs # configured) =
     bindR (deriveTokenAta P owner tokenId (tp_tokenProgramId programs) (tp_associatedTokenProgramId programs))
       (\<lambda>expected. if bytesEqual expected ata then Inr () else validateTokenAta P owner tokenId ata configured)"

definition validateRecordValue ::
  "prims \<Rightarrow> RegistryConfig \<Rightarrow> NameAccount \<Rightarrow> RecordType \<Rightarrow> RecordValue \<Rightarrow> js_error + unit" where
  "validateRecordValue P config name rtype val =
     guardR (kindOf val \<noteq> rtype) (ansError RecordTypeMismatch)
    (bindR (finishWriter (encodeRecordValue val)) (\<lambda>encoded.
     guardR (length encoded > maxRecordValueLen rtype) (ansError RecordValueTooLarge)
    (case val of
       ArchOwner owner \<Rightarrow>
         guardR (\<not> bytesEqual owner (na_owner name)) (ansError OwnerRecordMismatch) (Inr ())
     | BitcoinTaproot wp \<Rightarrow> bindR (encodeTaprootAddress P wp (rc_bitcoinNetwork config)) (\<lambda>_. Inr ())
     | TokenAta tokenId ata \<Rightarrow> validateTokenAta P (na_owner name) tokenId ata (rc_tokenPrograms config)
     | Text key v \<Rightarrow> bindR (validateTextKey key) (\<lambda>_. validateTextValue v))))"

section \<open>Taproot addresses are canonical\<close>

text \<open>The documented behaviour of the bech32m package: decoding inverts encoding, and regrouping
  bytes into five-bit words and back gives the bytes.\<close>

definition bech32m_laws :: "prims \<Rightarrow> bool" where
  "bech32m_laws P \<longleftrightarrow>
     (\<forall>h ws s. bech32m_encode P h ws = Inr s \<longrightarrow> bech32m_decode P s = Inr (h, ws)) \<and>
     (\<forall>bs. bech32m_fromWords P (bech32m_toWords P bs) = Inr bs)"

lemma parseTaprootAddress_canonical:
  assumes "parseTaprootAddress P address network = Inr v"
  obtains wp where "v = BitcoinTaproot wp" "length wp = 32" "encodeTaprootAddress P wp network = Inr address"
  using assms by (auto simp: parseTaprootAddress_def result_iffs split: sum.splits)

lemma parse_encodeTaprootAddress:
  assumes "bech32m_laws P" "encodeTaprootAddress P wp network = Inr address"
  shows "parseTaprootAddress P address network = Inr (BitcoinTaproot wp)"
proof -
  have enc: "length wp = 32" "bech32m_encode P (hrp network) (1 # bech32m_toWords P wp) = Inr address"
    using assms(2) by (auto simp: encodeTaprootAddress_def result_iffs)
  then have "bech32m_decode P address = Inr (hrp network, 1 # bech32m_toWords P wp)"
    using assms(1) by (simp add: bech32m_laws_def)
  with enc assms show ?thesis
    by (simp add: parseTaprootAddress_def js_at_def bech32m_laws_def)
qed

section \<open>Text records\<close>

lemma keyUnit_not_surrogate: "highSurrogate u \<or> lowSurrogate u \<Longrightarrow> \<not> keyUnit u"
  by (auto simp: keyUnit_def highSurrogate_def lowSurrogate_def word_less_nat_alt word_le_nat_alt)

lemma spread_key_iff: "list_all (list_ex keyUnit) (spreadText s) \<longleftrightarrow> list_all keyUnit s"
  by (induction s rule: spreadText.induct) (auto simp: keyUnit_not_surrogate)

lemma validateTextKey_iff:
  "validateTextKey key = Inr u \<longleftrightarrow> 1 \<le> length key \<and> length key \<le> 32 \<and> list_all keyUnit key"
  by (auto simp: validateTextKey_def result_iffs spread_key_iff MAX_TEXT_KEY_LEN_def Suc_le_eq)

lemma printableLoop_iff: "printableLoop s = Inr u \<longleftrightarrow> list_all (\<lambda>c. 0x20 \<le> c \<and> c \<le> 0x7e) s"
  by (induction s) (auto simp: result_iffs)

lemma validateTextValue_iff:
  "validateTextValue v = Inr u \<longleftrightarrow>
   1 \<le> length v \<and> length v \<le> 256 \<and> list_all (\<lambda>c. 0x20 \<le> c \<and> c \<le> 0x7e) v"
  by (auto simp: validateTextValue_def result_iffs printableLoop_iff MAX_TEXT_VALUE_LEN_def Suc_le_eq)

lemma ascii_of_key: "list_all keyUnit s \<Longrightarrow> isAscii s"
  by (induction s) (auto simp: keyUnit_def word_less_nat_alt word_le_nat_alt)

lemma ascii_of_printable: "list_all (\<lambda>c. 0x20 \<le> c \<and> c \<le> 0x7e) s \<Longrightarrow> isAscii s"
  by (induction s) (auto simp: word_less_nat_alt word_le_nat_alt)

section \<open>Encoded sizes\<close>

lemma finish_lengths:
  "length a = 32 \<Longrightarrow> finishWriter (encodeRecordValue (ArchOwner a)) = Inr (0 # a)"
  "length a = 32 \<Longrightarrow> finishWriter (encodeRecordValue (BitcoinTaproot a)) = Inr (1 # a)"
  "length a = 32 \<Longrightarrow> length b = 32 \<Longrightarrow> finishWriter (encodeRecordValue (TokenAta a b)) = Inr (2 # a @ b)"
  by (simp_all add: finishWriter_def chain.simps w_pubkey_def w_bytes_def w_u8_def push_def newWriter_def lowByte_def)

lemma finish_wrong_length:
  "length a \<noteq> 32 \<Longrightarrow> finishWriter (encodeRecordValue (ArchOwner a)) = Inl (PlainError (js ''pubkey must be 32 bytes''))"
  "length a \<noteq> 32 \<Longrightarrow> finishWriter (encodeRecordValue (BitcoinTaproot a)) = Inl (PlainError (js ''pubkey must be 32 bytes''))"
  "length a \<noteq> 32 \<or> length b \<noteq> 32 \<Longrightarrow>
   finishWriter (encodeRecordValue (TokenAta a b)) = Inl (PlainError (js ''pubkey must be 32 bytes''))"
  by (auto simp: finishWriter_def chain.simps w_pubkey_def w_bytes_def w_u8_def push_def guardR_def)

lemma finish_text_length:
  "\<exists>bs. finishWriter (encodeRecordValue (Text key v)) = Inr bs
     \<and> length bs = 9 + length (textEncode key) + length (textEncode v)"
  by (simp add: finishWriter_def chain.simps w_string_def w_bytes_def w_u8_def w_u32_def push_def
      newWriter_def Let_def)

section \<open>The record check, exactly\<close>

lemma validateTokenAta_iff:
  "validateTokenAta P owner tokenId ata ps = Inr u \<longleftrightarrow>
   (\<exists>i < length ps.
      deriveTokenAta P owner tokenId (tp_tokenProgramId (ps ! i)) (tp_associatedTokenProgramId (ps ! i)) = Inr ata \<and>
      (\<forall>j < i. isOk (deriveTokenAta P owner tokenId (tp_tokenProgramId (ps ! j)) (tp_associatedTokenProgramId (ps ! j)))))"
proof (induction ps)
  case (Cons p ps)
  show ?case
    using Cons.IH
    by (cases "deriveTokenAta P owner tokenId (tp_tokenProgramId p) (tp_associatedTokenProgramId p)")
      (auto simp: Ex_less_Suc2 All_less_Suc2)
qed simp

text \<open>What each kind of value has to be. A token account is one that the address search finds for the owner, the token
  and the programs; the programs before the one that fits must give some account as well, since a search that fails
  ends the check.\<close>

definition findsTokenAccount :: "prims \<Rightarrow> bytes \<Rightarrow> bytes \<Rightarrow> TokenProgramConfig \<Rightarrow> bytes option" where
  "findsTokenAccount P owner tokenId programs =
     (case findProgramAddress P [owner, tp_tokenProgramId programs, tokenId] (tp_associatedTokenProgramId programs) of
        Inr (a, bump) \<Rightarrow> Some a
      | Inl _ \<Rightarrow> None)"

fun acceptableValue :: "prims \<Rightarrow> RegistryConfig \<Rightarrow> NameAccount \<Rightarrow> RecordValue \<Rightarrow> bool" where
  "acceptableValue P c n (ArchOwner a) = (length a = 32 \<and> a = na_owner n)"
| "acceptableValue P c n (BitcoinTaproot wp) =
     (length wp = 32 \<and> isOk (bech32m_encode P (hrp (rc_bitcoinNetwork c)) (1 # bech32m_toWords P wp)))"
| "acceptableValue P c n (TokenAta tokenId ata) =
     (length tokenId = 32 \<and> length ata = 32 \<and>
      (\<exists>i < length (rc_tokenPrograms c).
         findsTokenAccount P (na_owner n) tokenId (rc_tokenPrograms c ! i) = Some ata \<and>
         (\<forall>j < i. findsTokenAccount P (na_owner n) tokenId (rc_tokenPrograms c ! j) \<noteq> None)))"
| "acceptableValue P c n (Text key v) =
     (1 \<le> length key \<and> length key \<le> 32 \<and> list_all keyUnit key \<and>
      1 \<le> length v \<and> length v \<le> 256 \<and> list_all (\<lambda>u. 0x20 \<le> u \<and> u \<le> 0x7e) v)"

lemma text_size:
  assumes "acceptableValue P c n (Text key v)" "finishWriter (encodeRecordValue (Text key v)) = Inr bs"
  shows "length bs \<le> 297"
proof -
  have "isAscii key" "isAscii v" using assms(1) by (auto intro: ascii_of_key ascii_of_printable)
  then show ?thesis
    using assms finish_text_length [of key v] by (auto simp: length_textEncode_ascii)
qed

lemma derive_finds:
  "deriveTokenAta P owner tokenId (tp_tokenProgramId p) (tp_associatedTokenProgramId p) = Inr a \<longleftrightarrow>
     findsTokenAccount P owner tokenId p = Some a"
  "isOk (deriveTokenAta P owner tokenId (tp_tokenProgramId p) (tp_associatedTokenProgramId p)) \<longleftrightarrow>
     findsTokenAccount P owner tokenId p \<noteq> None"
  by (auto simp: deriveTokenAta_def findsTokenAccount_def isOk_iff result_iffs split: sum.splits prod.splits)

lemma validateRecordValue_iff:
  "validateRecordValue P c n t v = Inr () \<longleftrightarrow> kindOf v = t \<and> acceptableValue P c n v"
proof (cases v)
  case (ArchOwner a)
  then show ?thesis
    by (cases "length a = 32") (auto simp: validateRecordValue_def finish_lengths finish_wrong_length guardR_def
        simp del: encodeRecordValue.simps)
next
  case (BitcoinTaproot wp)
  then show ?thesis
    by (cases "length wp = 32")
      (auto simp: validateRecordValue_def finish_lengths finish_wrong_length result_iffs isOk_iff
        encodeTaprootAddress_def simp del: encodeRecordValue.simps)
next
  case (TokenAta tokenId ata)
  then show ?thesis
    by (cases "length tokenId = 32 \<and> length ata = 32")
      (auto simp: validateRecordValue_def finish_lengths finish_wrong_length result_iffs validateTokenAta_iff derive_finds
        simp del: encodeRecordValue.simps)
next
  case (Text key val)
  obtain bs where bs: "finishWriter (encodeRecordValue (Text key val)) = Inr bs"
    using finish_text_length by blast
  then show ?thesis
    using text_size [OF _ bs, of P c n] Text
    by (auto simp: validateRecordValue_def result_iffs validateTextKey_iff validateTextValue_iff
        simp del: encodeRecordValue.simps)
qed

section \<open>Properties\<close>

text \<open>C26. \<open>validateRecordValue\<close> accepts exactly the values of the requested kind that are acceptable
  for the name: an owner record naming the present owner, a 32-byte witness program that has an
  address on the configured network, the token account that the address search finds for the owner and one of the
  configured programs, no search for an earlier one having failed, or a text with a key in \<open>[a-z0-9_-]{1,32}\<close> and a printable value of 1 to 256 characters. In
  particular the size limit never refuses a value that the other checks accept.\<close>

theorem validateRecordValue_exact:
  "validateRecordValue P config name rtype val = Inr () \<longleftrightarrow> kindOf val = rtype \<and> acceptableValue P config name val"
  by (rule validateRecordValue_iff)

text \<open>Text records fit their limit, and the limit is tight: a valid key and value encode to at most
  297 bytes, and there is a valid pair that needs all of them.\<close>

theorem text_record_size:
  "(validateTextKey key = Inr () \<longrightarrow> validateTextValue v = Inr () \<longrightarrow>
      (\<exists>bs. finishWriter (encodeRecordValue (Text key v)) = Inr bs \<and> length bs \<le> maxRecordValueLen TextT))
   \<and> (\<exists>k w bs. validateTextKey k = Inr () \<and> validateTextValue w = Inr () \<and>
      finishWriter (encodeRecordValue (Text k w)) = Inr bs \<and> length bs = maxRecordValueLen TextT)"
proof (intro conjI impI)
  assume "validateTextKey key = Inr ()" "validateTextValue v = Inr ()"
  then have ok: "acceptableValue P c n (Text key v)" for P c n
    by (simp add: validateTextKey_iff validateTextValue_iff)
  obtain bs where bs: "finishWriter (encodeRecordValue (Text key v)) = Inr bs"
    using finish_text_length by blast
  show "\<exists>bs. finishWriter (encodeRecordValue (Text key v)) = Inr bs \<and> length bs \<le> maxRecordValueLen TextT"
    using text_size [OF ok bs] bs by simp
next
  define k w where "k = replicate 32 (97 :: u16)" and "w = replicate 256 (97 :: u16)"
  obtain bs where bs: "finishWriter (encodeRecordValue (Text k w)) = Inr bs"
      "length bs = 9 + length (textEncode k) + length (textEncode w)"
    using finish_text_length by blast
  have "isAscii k" "isAscii w" by (simp_all add: k_def w_def isAscii_def list_all_iff)
  then have "length bs = 297" by (simp add: bs(2) length_textEncode_ascii) (simp add: k_def w_def)
  moreover have "validateTextKey k = Inr ()" "validateTextValue w = Inr ()"
    by (simp_all add: validateTextKey_iff validateTextValue_iff k_def w_def list_all_iff keyUnit_def)
  ultimately show "\<exists>k w bs. validateTextKey k = Inr () \<and> validateTextValue w = Inr () \<and>
      finishWriter (encodeRecordValue (Text k w)) = Inr bs \<and> length bs = maxRecordValueLen TextT"
    using bs(1) by auto
qed

theorem text_record_size_witness:
  "\<exists>bs. finishWriter (encodeRecordValue (Text (js ''url'') (js ''https://arch.network''))) = Inr bs \<and> length bs \<le> 297"
  using conjunct1 [OF text_record_size [of "js ''url''" "js ''https://arch.network''"]]
  by (simp add: validateTextKey_iff validateTextValue_iff keyUnit_def js_def)

text \<open>Taproot addresses have one spelling: a parsed address is the encoding of the witness program
  it parses to, so two addresses that parse to the same program on a network are equal; and, where
  the bech32m package decodes what it encodes, every encoded witness program parses back.\<close>

theorem taproot_canonical:
  "(\<forall>wp. parseTaprootAddress P address network = Inr (BitcoinTaproot wp) \<longrightarrow>
      length wp = 32 \<and> encodeTaprootAddress P wp network = Inr address)
   \<and> (bech32m_laws P \<longrightarrow> encodeTaprootAddress P wp network = Inr address \<longrightarrow>
      parseTaprootAddress P address network = Inr (BitcoinTaproot wp))"
  by (auto elim: parseTaprootAddress_canonical intro: parse_encodeTaprootAddress)

text \<open>The concrete bech32m instance satisfies the package's laws on the prefixes in use and on bytes;
  a code unit separates prefix and words, so the law is stated for texts it can occur in.\<close>

definition strictPrims :: prims where
  "strictPrims = samplePrims\<lparr>bech32m_encode := (\<lambda>h ws.
     if list_all (\<lambda>u. u \<noteq> 0x31) h \<and> list_all (\<lambda>w. w < 256) ws then bech32m_encode samplePrims h ws
     else Inl (PlainError (js ''invalid'')))\<rparr>"

lemma strictPrims_laws: "bech32m_laws strictPrims"
proof -
  have "map unat (map (\<lambda>w. of_nat w :: u16) ws) = ws" if "list_all (\<lambda>w. w < 256) ws" for ws
    using that by (induction ws) (simp_all add: unat_unit_of_nat)
  moreover have "takeWhile (\<lambda>u. u \<noteq> 0x31) (h @ 0x31 # ws) = h" "dropWhile (\<lambda>u. u \<noteq> 0x31) (h @ 0x31 # ws) = 0x31 # ws"
    if "list_all (\<lambda>u. u \<noteq> 0x31) h" for h ws :: js_string
    using that by (induction h) simp_all
  moreover have "map (of_nat :: nat \<Rightarrow> u8) (map unat bs) = bs" for bs
    by (simp add: map_idI)
  ultimately show ?thesis
    by (auto simp: bech32m_laws_def strictPrims_def samplePrims_def split: if_splits)
qed

theorem taproot_canonical_witness:
  "\<exists>address. encodeTaprootAddress strictPrims (replicate 32 3) Testnet = Inr address \<and>
     parseTaprootAddress strictPrims address Testnet = Inr (BitcoinTaproot (replicate 32 3))"
proof -
  have "isOk (encodeTaprootAddress strictPrims (replicate 32 3) Testnet)"
    by (simp add: encodeTaprootAddress_def strictPrims_def samplePrims_def js_def list_all_iff)
  then obtain address where a: "encodeTaprootAddress strictPrims (replicate 32 3) Testnet = Inr address"
    by (auto simp: isOk_iff)
  show ?thesis
    using taproot_canonical [of strictPrims address Testnet "replicate 32 3"] a strictPrims_laws by blast
qed

end
