(* ===== verification/Resolve.thy ===== *)
theory Resolve
  imports Validate
begin

text \<open>
  Resolution of names, records and primary names from account data: \<^verbatim>\<open>resolve.ts\<close>. The three
  resolvers are characterised exactly: what they return, and the condition on the accounts under
  which they return it.
\<close>

section \<open>The resolvers (resolve.ts)\<close>

definition validateConfig :: "prims \<Rightarrow> ArchAddress \<Rightarrow> RegistryConfig AccountAt \<Rightarrow> js_error + unit" where
  "validateConfig P programId config =
     bindR (validateHeader (rc_header (at_state config)) REGISTRY_CONFIG_DISCRIMINATOR) (\<lambda>_.
     bindR (deriveConfigAddress P programId (rc_networkId (at_state config)) (rc_namespace (at_state config))) (\<lambda>expected.
     guardR (\<not> bytesEqual (at_address config) expected) (ansError InvalidAccountDerivation)
     (Inr ())))"

definition validateName ::
  "prims \<Rightarrow> ArchAddress \<Rightarrow> RegistryConfig \<Rightarrow> js_string \<Rightarrow> NameAccount AccountAt \<Rightarrow> int \<Rightarrow> js_error + unit" where
  "validateName P programId config requestedName name currentSlot =
     bindR (validateHeader (na_header (at_state name)) NAME_ACCOUNT_DISCRIMINATOR) (\<lambda>_.
     bindR (canonicalizeName P requestedName) (\<lambda>canonical.
     bindR (nameHash P canonical) (\<lambda>expectedHash.
     bindR (deriveNameAddress P programId (rc_namespace config) expectedHash) (\<lambda>expectedAddress.
     guardR (\<not> bytesEqual (at_address name) expectedAddress) (ansError InvalidAccountDerivation)
    (guardR (\<not> isActive (at_state name) currentSlot) (ansError InactiveName)
    (guardR (\<not> bytesEqual (na_nameHash (at_state name)) expectedHash \<or>
             na_canonicalLabel (at_state name) @ js ''.arch'' \<noteq> canonical) (ansError NameMismatch)
    (Inr ())))))))"

definition resolveOwner ::
  "prims \<Rightarrow> ArchAddress \<Rightarrow> RegistryConfig AccountAt \<Rightarrow> js_string \<Rightarrow> NameAccount AccountAt \<Rightarrow> int \<Rightarrow>
   js_error + ArchAddress" where
  "resolveOwner P programId config requestedName name currentSlot =
     bindR (validateConfig P programId config) (\<lambda>_.
     bindR (validateName P programId (at_state config) requestedName name currentSlot) (\<lambda>_.
     Inr (na_owner (at_state name))))"

definition resolveRecord ::
  "prims \<Rightarrow> ArchAddress \<Rightarrow> RegistryConfig AccountAt \<Rightarrow> js_string \<Rightarrow> NameAccount AccountAt \<Rightarrow>
   RecordAccount AccountAt \<Rightarrow> RecordType \<Rightarrow> int \<Rightarrow> js_string option \<Rightarrow> js_error + RecordValue" where
  "resolveRecord P programId config requestedName name record rtype currentSlot textKey =
     bindR (validateConfig P programId config) (\<lambda>_.
     bindR (validateName P programId (at_state config) requestedName name currentSlot) (\<lambda>_.
     bindR (validateHeader (ra_header (at_state record)) RECORD_ACCOUNT_DISCRIMINATOR) (\<lambda>_.
     let key = (if rtype = TextT then
                  (case textKey of
                     Some k \<Rightarrow> Some k
                   | None \<Rightarrow> (case ra_value (at_state record) of Text k _ \<Rightarrow> Some k | _ \<Rightarrow> None))
                else None) in
     bindR (deriveRecordAddressFor P programId (rc_namespace (at_state config)) (na_nameHash (at_state name)) rtype key)
       (\<lambda>expected.
     guardR (\<not> bytesEqual (at_address record) expected) (ansError InvalidAccountDerivation)
    (let state = at_state record in
     guardR (\<not> bytesEqual (ra_nameHash state) (na_nameHash (at_state name)) \<or>
             ra_recordType state \<noteq> rtype \<or>
             \<not> bytesEqual (ra_ownerSnapshot state) (na_owner (at_state name)) \<or>
             ra_recordEpoch state \<noteq> na_recordEpoch (at_state name)) (ansError StaleRecord)
    (bindR (validateRecordValue P (at_state config) (at_state name) rtype (ra_value state)) (\<lambda>_.
     Inr (ra_value state))))))))"

definition resolvePrimary ::
  "prims \<Rightarrow> ArchAddress \<Rightarrow> RegistryConfig AccountAt \<Rightarrow> ReverseAccount AccountAt \<Rightarrow> NameAccount AccountAt \<Rightarrow> int \<Rightarrow>
   js_error + js_string" where
  "resolvePrimary P programId config reverse name currentSlot =
     bindR (validateConfig P programId config) (\<lambda>_.
     bindR (validateHeader (rv_header (at_state reverse)) REVERSE_ACCOUNT_DISCRIMINATOR) (\<lambda>_.
     bindR (deriveReverseAddress P programId (rc_namespace (at_state config)) (rv_owner (at_state reverse))) (\<lambda>expectedReverse.
     guardR (\<not> bytesEqual (at_address reverse) expectedReverse) (ansError InvalidAccountDerivation)
    (bindR (deriveNameAddress P programId (rc_namespace (at_state config)) (rv_primaryNameHash (at_state reverse))) (\<lambda>expectedName.
     guardR (\<not> bytesEqual (at_address name) expectedName) (ansError InvalidAccountDerivation)
    (bindR (validateHeader (na_header (at_state name)) NAME_ACCOUNT_DISCRIMINATOR) (\<lambda>_.
     guardR (\<not> isActive (at_state name) currentSlot \<or>
             \<not> bytesEqual (na_nameHash (at_state name)) (rv_primaryNameHash (at_state reverse)) \<or>
             \<not> bytesEqual (na_owner (at_state name)) (rv_owner (at_state reverse)) \<or>
             na_primaryBindingNonce (at_state name) \<noteq> rv_bindingNonce (at_state reverse))
       (ansError InvalidReverseBinding)
    (canonicalizeName P (na_canonicalLabel (at_state name) @ js ''.arch'')))))))))"

section \<open>What the checks mean\<close>

text \<open>The relations between accounts that the checks decide. \<open>configAt\<close>: an initialised registry
  configuration at the address its own contents derive.\<close>

definition configAt :: "prims \<Rightarrow> ArchAddress \<Rightarrow> RegistryConfig AccountAt \<Rightarrow> bool" where
  "configAt P pid c \<longleftrightarrow> rc_header (at_state c) = initializedHeader REGISTRY_CONFIG_DISCRIMINATOR \<and>
     deriveConfigAddress P pid (rc_networkId (at_state c)) (rc_namespace (at_state c)) = Inr (at_address c)"

text \<open>\<open>nameAt\<close>: an initialised name account for the label of \<open>canonical\<close>, at the address of that
  name's hash.\<close>

definition nameAt :: "prims \<Rightarrow> ArchAddress \<Rightarrow> js_string \<Rightarrow> js_string \<Rightarrow> NameAccount AccountAt \<Rightarrow> bool" where
  "nameAt P pid ns canonical n \<longleftrightarrow> na_header (at_state n) = initializedHeader NAME_ACCOUNT_DISCRIMINATOR \<and>
     na_nameHash (at_state n) = hashName P canonical \<and>
     na_canonicalLabel (at_state n) @ ARCH_SUFFIX = canonical \<and>
     deriveNameAddress P pid ns (hashName P canonical) = Inr (at_address n)"

text \<open>\<open>freshRecord\<close>: a record written for this name, by its present owner, in its present epoch.\<close>

definition freshRecord :: "NameAccount \<Rightarrow> RecordType \<Rightarrow> RecordAccount \<Rightarrow> bool" where
  "freshRecord n t r \<longleftrightarrow> ra_header r = initializedHeader RECORD_ACCOUNT_DISCRIMINATOR \<and>
     ra_nameHash r = na_nameHash n \<and> ra_recordType r = t \<and> ra_ownerSnapshot r = na_owner n \<and>
     ra_recordEpoch r = na_recordEpoch n"

definition recordKey :: "RecordType \<Rightarrow> js_string option \<Rightarrow> RecordValue \<Rightarrow> js_string option" where
  "recordKey t textKey v =
     (if t = TextT then
        (case textKey of Some k \<Rightarrow> Some k | None \<Rightarrow> (case v of Text k _ \<Rightarrow> Some k | _ \<Rightarrow> None))
      else None)"

lemma validateConfig_iff: "validateConfig P pid c = Inr u \<longleftrightarrow> configAt P pid c"
  by (auto simp: validateConfig_def configAt_def result_iffs validateHeader_ok)

lemma nameHash_canonical: "canonicalizeName P s = Inr n \<Longrightarrow> nameHash P n = Inr (hashName P n)"
  by (simp add: nameHash_def canonicalizeName_idem)

lemma validateName_iff:
  "validateName P pid cfg s n slot = Inr u \<longleftrightarrow>
   (\<exists>canonical. canonicalizeName P s = Inr canonical \<and> nameAt P pid (rc_namespace cfg) canonical n
      \<and> slot < na_expiresAtSlot (at_state n))"
  by (auto simp: validateName_def nameAt_def result_iffs validateHeader_ok nameHash_canonical isActive_def
      ARCH_SUFFIX_def)

lemma resolveOwner_iff:
  "resolveOwner P pid c s n slot = Inr owner \<longleftrightarrow>
   configAt P pid c \<and> owner = na_owner (at_state n) \<and> slot < na_expiresAtSlot (at_state n) \<and>
   (\<exists>canonical. canonicalizeName P s = Inr canonical \<and> nameAt P pid (rc_namespace (at_state c)) canonical n)"
  by (auto simp: resolveOwner_def result_iffs validateConfig_iff validateName_iff)

lemma resolveRecord_iff:
  "resolveRecord P pid c s n r t slot k = Inr v \<longleftrightarrow>
   configAt P pid c \<and> slot < na_expiresAtSlot (at_state n) \<and>
   (\<exists>canonical. canonicalizeName P s = Inr canonical \<and> nameAt P pid (rc_namespace (at_state c)) canonical n) \<and>
   freshRecord (at_state n) t (at_state r) \<and>
   deriveRecordAddressFor P pid (rc_namespace (at_state c)) (na_nameHash (at_state n)) t
     (recordKey t k (ra_value (at_state r))) = Inr (at_address r) \<and>
   v = ra_value (at_state r) \<and> kindOf v = t \<and> acceptableValue P (at_state c) (at_state n) v"
  by (auto simp: resolveRecord_def recordKey_def [symmetric] result_iffs validateConfig_iff validateName_iff
      validateHeader_ok validateRecordValue_iff freshRecord_def Let_def)

lemma resolvePrimary_iff:
  "resolvePrimary P pid c rv n slot = Inr s \<longleftrightarrow>
   configAt P pid c \<and>
   rv_header (at_state rv) = initializedHeader REVERSE_ACCOUNT_DISCRIMINATOR \<and>
   deriveReverseAddress P pid (rc_namespace (at_state c)) (rv_owner (at_state rv)) = Inr (at_address rv) \<and>
   na_header (at_state n) = initializedHeader NAME_ACCOUNT_DISCRIMINATOR \<and>
   deriveNameAddress P pid (rc_namespace (at_state c)) (rv_primaryNameHash (at_state rv)) = Inr (at_address n) \<and>
   slot < na_expiresAtSlot (at_state n) \<and>
   na_nameHash (at_state n) = rv_primaryNameHash (at_state rv) \<and>
   na_owner (at_state n) = rv_owner (at_state rv) \<and>
   na_primaryBindingNonce (at_state n) = rv_bindingNonce (at_state rv) \<and>
   canonicalizeName P (na_canonicalLabel (at_state n) @ ARCH_SUFFIX) = Inr s"
  by (auto simp: resolvePrimary_def result_iffs validateConfig_iff validateHeader_ok isActive_def ARCH_SUFFIX_def)

section \<open>Properties\<close>

text \<open>C2. \<open>resolveOwner\<close> is sound and complete: it returns an owner exactly when the configuration is the
  initialised one at its derived address, the requested text canonicalises to a name, the name
  account is the initialised account of that very name at its derived address, and the registration
  has not expired; what it returns is that account's owner.\<close>

theorem resolveOwner_exact:
  "resolveOwner P pid config requested name slot = Inr owner \<longleftrightarrow>
   configAt P pid config \<and> owner = na_owner (at_state name) \<and> slot < na_expiresAtSlot (at_state name) \<and>
   (\<exists>canonical. canonicalizeName P requested = Inr canonical \<and>
      nameAt P pid (rc_namespace (at_state config)) canonical name)"
  by (rule resolveOwner_iff)

text \<open>C1. \<open>resolveRecord\<close> is sound and complete: it returns a value exactly when the name resolves, the
  record account stands at the address derived for the name, the record type and the key, it was
  written for this name by its present owner in its present epoch, and its value is of the requested
  kind and acceptable; what it returns is the stored value.\<close>

theorem resolveRecord_exact:
  "resolveRecord P pid config requested name record rtype slot textKey = Inr val \<longleftrightarrow>
   isOk (resolveOwner P pid config requested name slot) \<and>
   freshRecord (at_state name) rtype (at_state record) \<and>
   deriveRecordAddressFor P pid (rc_namespace (at_state config)) (na_nameHash (at_state name)) rtype
     (recordKey rtype textKey (ra_value (at_state record))) = Inr (at_address record) \<and>
   val = ra_value (at_state record) \<and> kindOf val = rtype \<and> acceptableValue P (at_state config) (at_state name) val"
  by (auto simp: resolveRecord_iff isOk_iff resolveOwner_iff)

definition resolvedConfig :: "RegistryConfig AccountAt" where
  "resolvedConfig = \<lparr>at_address = fold32 (concat [CONFIG_SEED, encodeU32LE 2, namespaceHash samplePrims (js ''arch'')]),
     at_state = sampleConfig\<rparr>"

definition resolvedName :: "NameAccount AccountAt" where
  "resolvedName = \<lparr>
     at_address = fold32 (concat [NAME_SEED, namespaceHash samplePrims (js ''arch''), hashName samplePrims (js ''alice.arch'')]),
     at_state = sampleName\<lparr>na_nameHash := hashName samplePrims (js ''alice.arch'')\<rparr>\<rparr>"

definition resolvedRecord :: "RecordAccount AccountAt" where
  "resolvedRecord = \<lparr>
     at_address = fold32 (concat [RECORD_SEED, namespaceHash samplePrims (js ''arch''), hashName samplePrims (js ''alice.arch''), [0]]),
     at_state = sampleRecord\<lparr>ra_nameHash := hashName samplePrims (js ''alice.arch'')\<rparr>\<rparr>"

lemma sample_derive: "derive samplePrims pid seeds = Inr (fold32 (concat seeds))"
  by (simp add: derive_def samplePrims_def)

lemma sample_record_resolves:
  "resolveRecord samplePrims pid resolvedConfig (js ''alice.arch'') resolvedName resolvedRecord ArchOwnerT 500 None
   = Inr (ArchOwner (replicate 32 9))"
proof -
  have "configAt samplePrims pid resolvedConfig"
    by (simp add: configAt_def resolvedConfig_def sampleConfig_def deriveConfigAddress_def sample_derive)
  moreover have "nameAt samplePrims pid (js ''arch'') (js ''alice.arch'') resolvedName"
    by (simp add: nameAt_def resolvedName_def sampleName_def deriveNameAddress_def sample_derive)
      (simp add: ARCH_SUFFIX_def js_def)
  moreover have "rc_namespace (at_state resolvedConfig) = js ''arch''"
    by (simp add: resolvedConfig_def sampleConfig_def)
  moreover have "freshRecord (at_state resolvedName) ArchOwnerT (at_state resolvedRecord)"
    by (simp add: freshRecord_def resolvedName_def resolvedRecord_def sampleName_def sampleRecord_def)
  ultimately show ?thesis
    using canonicalizeName_canonical [OF alice_canonical, of samplePrims]
    by (simp add: resolveRecord_iff deriveRecordAddressFor_def deriveRecordAddress_def sample_derive recordKey_def)
      (simp add: resolvedName_def resolvedRecord_def sampleName_def sampleRecord_def)
qed

text \<open>C4. Records do not outlive a transfer: a record that resolves for a name account never resolves
  for an account with another owner or another record epoch, whatever the name, record type, key and
  slot it is requested with.\<close>

theorem records_do_not_outlive_transfer:
  assumes "resolveRecord P pid config requested name record rtype slot textKey = Inr val"
    and "na_owner (at_state name') \<noteq> na_owner (at_state name) \<or> na_recordEpoch (at_state name') \<noteq> na_recordEpoch (at_state name)"
  shows "\<not> isOk (resolveRecord P pid config requested' name' record rtype' slot' textKey')"
proof -
  have "ra_ownerSnapshot (at_state record) = na_owner (at_state name)"
    "ra_recordEpoch (at_state record) = na_recordEpoch (at_state name)"
    using assms(1) unfolding resolveRecord_iff freshRecord_def by simp_all
  with assms(2) show ?thesis
    unfolding isOk_iff resolveRecord_iff freshRecord_def by metis
qed

theorem records_do_not_outlive_transfer_witness:
  "\<not> isOk (resolveRecord samplePrims [] resolvedConfig (js ''alice.arch'')
     (resolvedName\<lparr>at_state := at_state resolvedName\<lparr>na_owner := replicate 32 1\<rparr>\<rparr>) resolvedRecord ArchOwnerT 500 None)"
  by (rule records_do_not_outlive_transfer [OF sample_record_resolves])
    (simp add: resolvedName_def sampleName_def)

text \<open>C3. \<open>resolvePrimary\<close> is sound and complete: it returns a name exactly when the reverse account
  stands at its owner's derived address, the name account stands at the address of the hash the
  reverse account points to and stores that hash, the two agree on owner and binding nonce, the
  registration is active, and the stored label canonicalises.\<close>

theorem resolvePrimary_exact:
  "resolvePrimary P pid config reverse name slot = Inr primary \<longleftrightarrow>
   configAt P pid config \<and>
   rv_header (at_state reverse) = initializedHeader REVERSE_ACCOUNT_DISCRIMINATOR \<and>
   deriveReverseAddress P pid (rc_namespace (at_state config)) (rv_owner (at_state reverse)) = Inr (at_address reverse) \<and>
   na_header (at_state name) = initializedHeader NAME_ACCOUNT_DISCRIMINATOR \<and>
   deriveNameAddress P pid (rc_namespace (at_state config)) (rv_primaryNameHash (at_state reverse)) = Inr (at_address name) \<and>
   slot < na_expiresAtSlot (at_state name) \<and>
   na_nameHash (at_state name) = rv_primaryNameHash (at_state reverse) \<and>
   na_owner (at_state name) = rv_owner (at_state reverse) \<and>
   na_primaryBindingNonce (at_state name) = rv_bindingNonce (at_state reverse) \<and>
   canonicalizeName P (na_canonicalLabel (at_state name) @ ARCH_SUFFIX) = Inr primary"
  by (rule resolvePrimary_iff)

end
