(* ===== verification/Instruction_Codec.thy ===== *)
theory Instruction_Codec
  imports State_Codec
begin

text \<open>
  The instruction codec: \<^verbatim>\<open>codec/instruction.ts\<close>. One constructor per variant of the discriminated
  union, the encoder's \<open>switch\<close> as a function by cases, the decoder's \<open>switch\<close> as a chain of
  conditionals on the tag byte. The pair interprets the interface \<open>message_codec\<close>.
\<close>

section \<open>Instructions\<close>

datatype NameInstruction =
    InitializeRegistry int ArchAddress
  | Register js_string int
  | Renew bytes int
  | Transfer bytes ArchAddress
  | SetRecord bytes RecordType RecordValue int
  | DeleteRecord bytes RecordType js_string int
  | SetPrimary bytes
  | ClearPrimary
  | ReclaimExpired js_string int
  | UpdateConfig "bool option" "int option"
  | ListName bytes QuoteCurrency int
  | CancelListing bytes
  | BuyName bytes
  | MakeOffer bytes QuoteCurrency int
  | CancelOffer bytes
  | AcceptOffer bytes ArchAddress

text \<open>The module declares its own copies of the two tag tables.\<close>

definition IX_RECORD_TYPES :: "RecordType list" where
  "IX_RECORD_TYPES = [ArchOwnerT, BitcoinTaprootT, TokenAtaT, TextT]"
definition IX_QUOTE_CURRENCIES :: "QuoteCurrency list" where
  "IX_QUOTE_CURRENCIES = [Arch, Btc]"

fun encodeOptionBool :: "bool option \<Rightarrow> writer" where
  "encodeOptionBool None = w_u8 0"
| "encodeOptionBool (Some b) = chain [w_u8 1, w_bool b]"

fun encodeOptionU64 :: "int option \<Rightarrow> writer" where
  "encodeOptionU64 None = w_u8 0"
| "encodeOptionU64 (Some v) = chain [w_u8 1, w_u64 v]"

definition decodeOptionBool :: "bool option reader" where
  "decodeOptionBool = bindP r_u8 (\<lambda>t. if t = 0 then retP None else bindP r_bool (\<lambda>b. retP (Some b)))"

definition decodeOptionU64 :: "int option reader" where
  "decodeOptionU64 = bindP r_u8 (\<lambda>t. if t = 0 then retP None else bindP r_u64 (\<lambda>v. retP (Some v)))"

definition encodeIxRecordType :: "RecordType \<Rightarrow> writer" where
  "encodeIxRecordType t = w_u8 (indexOf IX_RECORD_TYPES t)"

definition decodeIxRecordType :: "RecordType reader" where
  "decodeIxRecordType = r_tag IX_RECORD_TYPES (js ''invalid record type'')"

fun writeInstruction :: "NameInstruction \<Rightarrow> writer" where
  "writeInstruction (InitializeRegistry networkId authority) =
     chain [w_u8 0, w_u32 networkId, w_pubkey authority]"
| "writeInstruction (Register label duration) = chain [w_u8 1, w_string label, w_u64 duration]"
| "writeInstruction (Renew hash duration) = chain [w_u8 2, w_pubkey hash, w_u64 duration]"
| "writeInstruction (Transfer hash newOwner) = chain [w_u8 3, w_pubkey hash, w_pubkey newOwner]"
| "writeInstruction (SetRecord hash rtype val revision) =
     chain [w_u8 4, w_pubkey hash, encodeIxRecordType rtype, encodeRecordValue val, w_u64 revision]"
| "writeInstruction (DeleteRecord hash rtype textKey revision) =
     chain [w_u8 5, w_pubkey hash, encodeIxRecordType rtype, w_string textKey, w_u64 revision]"
| "writeInstruction (SetPrimary hash) = chain [w_u8 6, w_pubkey hash]"
| "writeInstruction ClearPrimary = chain [w_u8 7]"
| "writeInstruction (ReclaimExpired label duration) = chain [w_u8 8, w_string label, w_u64 duration]"
| "writeInstruction (UpdateConfig paused grace) = chain [w_u8 9, encodeOptionBool paused, encodeOptionU64 grace]"
| "writeInstruction (ListName hash currency price) =
     chain [w_u8 10, w_pubkey hash, w_u8 (indexOf IX_QUOTE_CURRENCIES currency), w_u64 price]"
| "writeInstruction (CancelListing hash) = chain [w_u8 11, w_pubkey hash]"
| "writeInstruction (BuyName hash) = chain [w_u8 12, w_pubkey hash]"
| "writeInstruction (MakeOffer hash currency price) =
     chain [w_u8 13, w_pubkey hash, w_u8 (indexOf IX_QUOTE_CURRENCIES currency), w_u64 price]"
| "writeInstruction (CancelOffer hash) = chain [w_u8 14, w_pubkey hash]"
| "writeInstruction (AcceptOffer hash buyer) = chain [w_u8 15, w_pubkey hash, w_pubkey buyer]"

definition encodeInstruction :: "NameInstruction \<Rightarrow> js_error + bytes" where
  "encodeInstruction ix = finishWriter (writeInstruction ix)"

text \<open>The template literal \<open>`${n}`\<close> of a byte.\<close>

definition decimalByte :: "int \<Rightarrow> js_string" where
  "decimalByte n = (let d = \<lambda>k. of_int (48 + k) :: u16 in
     if n < 10 then [d n] else if n < 100 then [d (n div 10), d (n mod 10)]
     else [d (n div 100), d (n div 10 mod 10), d (n mod 10)])"

definition readInstruction :: "NameInstruction reader" where
  "readInstruction = bindP r_u8 (\<lambda>kind.
     if kind = 0 then bindP r_u32 (\<lambda>n. bindP r_pubkey (\<lambda>a. retP (InitializeRegistry n a)))
     else if kind = 1 then bindP r_string (\<lambda>l. bindP r_u64 (\<lambda>d. retP (Register l d)))
     else if kind = 2 then bindP r_pubkey (\<lambda>h. bindP r_u64 (\<lambda>d. retP (Renew h d)))
     else if kind = 3 then bindP r_pubkey (\<lambda>h. bindP r_pubkey (\<lambda>n. retP (Transfer h n)))
     else if kind = 4 then bindP r_pubkey (\<lambda>h. bindP decodeIxRecordType (\<lambda>t.
       bindP decodeRecordValue (\<lambda>v. bindP r_u64 (\<lambda>e. retP (SetRecord h t v e)))))
     else if kind = 5 then bindP r_pubkey (\<lambda>h. bindP decodeIxRecordType (\<lambda>t.
       bindP r_string (\<lambda>k. bindP r_u64 (\<lambda>e. retP (DeleteRecord h t k e)))))
     else if kind = 6 then bindP r_pubkey (\<lambda>h. retP (SetPrimary h))
     else if kind = 7 then retP ClearPrimary
     else if kind = 8 then bindP r_string (\<lambda>l. bindP r_u64 (\<lambda>d. retP (ReclaimExpired l d)))
     else if kind = 9 then bindP decodeOptionBool (\<lambda>p. bindP decodeOptionU64 (\<lambda>g. retP (UpdateConfig p g)))
     else if kind = 10 then bindP r_pubkey (\<lambda>h.
       bindP (r_tag IX_QUOTE_CURRENCIES (js ''invalid quote currency'')) (\<lambda>c.
       bindP r_u64 (\<lambda>p. retP (ListName h c p))))
     else if kind = 11 then bindP r_pubkey (\<lambda>h. retP (CancelListing h))
     else if kind = 12 then bindP r_pubkey (\<lambda>h. retP (BuyName h))
     else if kind = 13 then bindP r_pubkey (\<lambda>h.
       bindP (r_tag IX_QUOTE_CURRENCIES (js ''invalid quote currency'')) (\<lambda>c.
       bindP r_u64 (\<lambda>p. retP (MakeOffer h c p))))
     else if kind = 14 then bindP r_pubkey (\<lambda>h. retP (CancelOffer h))
     else if kind = 15 then bindP r_pubkey (\<lambda>h. bindP r_pubkey (\<lambda>b. retP (AcceptOffer h b)))
     else throwP (AnsError CodecError (js ''unknown instruction variant '' @ decimalByte kind)))"

definition decodeInstruction :: "bytes \<Rightarrow> js_error + NameInstruction" where
  "decodeInstruction = decodeWith readInstruction"

section \<open>The instruction format\<close>

fun okInstruction :: "NameInstruction \<Rightarrow> bool" where
  "okInstruction (InitializeRegistry n a) = (fitsU32 n \<and> length a = 32)"
| "okInstruction (Register l d) = (encodableText l \<and> fitsU64 d)"
| "okInstruction (Renew h d) = (length h = 32 \<and> fitsU64 d)"
| "okInstruction (Transfer h a) = (length h = 32 \<and> length a = 32)"
| "okInstruction (SetRecord h t v e) = (length h = 32 \<and> okRecordValue v \<and> fitsU64 e)"
| "okInstruction (DeleteRecord h t k e) = (length h = 32 \<and> encodableText k \<and> fitsU64 e)"
| "okInstruction (SetPrimary h) = (length h = 32)"
| "okInstruction ClearPrimary = True"
| "okInstruction (ReclaimExpired l d) = (encodableText l \<and> fitsU64 d)"
| "okInstruction (UpdateConfig p g) = (case g of None \<Rightarrow> True | Some v \<Rightarrow> fitsU64 v)"
| "okInstruction (ListName h c p) = (length h = 32 \<and> fitsU64 p)"
| "okInstruction (CancelListing h) = (length h = 32)"
| "okInstruction (BuyName h) = (length h = 32)"
| "okInstruction (MakeOffer h c p) = (length h = 32 \<and> fitsU64 p)"
| "okInstruction (CancelOffer h) = (length h = 32)"
| "okInstruction (AcceptOffer h b) = (length h = 32 \<and> length b = 32)"

lemma codes_optionBool [codec_intros]: "codes (encodeOptionBool b) decodeOptionBool b"
proof (cases b)
  case None
  then show ?thesis
    by (simp add: decodeOptionBool_def) (rule codes_ret [OF codes_u8], simp_all)
next
  case (Some v)
  then show ?thesis
    unfolding decodeOptionBool_def by simp (rule codec_intros, (rule codec_intros | simp)+)
qed

lemma codes_optionU64 [codec_intros]:
  "(case v of None \<Rightarrow> True | Some n \<Rightarrow> fitsU64 n) \<Longrightarrow> codes (encodeOptionU64 v) decodeOptionU64 v"
proof (cases v)
  case None
  then show ?thesis
    by (simp add: decodeOptionU64_def) (rule codes_ret [OF codes_u8], simp_all)
next
  assume "case v of None \<Rightarrow> True | Some n \<Rightarrow> fitsU64 n"
  moreover case (Some n)
  ultimately show ?thesis
    unfolding decodeOptionU64_def by simp (rule codec_intros, (rule codec_intros | simp)+)
qed

lemma codes_ixRecordType [codec_intros]: "codes (encodeIxRecordType t) decodeIxRecordType t"
  unfolding encodeIxRecordType_def decodeIxRecordType_def
  by (rule codes_tag) (cases t; simp add: IX_RECORD_TYPES_def)+

lemma codes_ixQuoteCurrency [codec_intros]:
  "codes (w_u8 (indexOf IX_QUOTE_CURRENCIES c)) (r_tag IX_QUOTE_CURRENCIES msg) c"
  by (rule codes_tag) (cases c; simp add: IX_QUOTE_CURRENCIES_def)+

lemma codes_instruction: "okInstruction ix \<Longrightarrow> codes (writeInstruction ix) readInstruction ix"
  unfolding readInstruction_def
  by (cases ix) (simp, rule codec_intros, (rule codec_intros | simp)+)+

interpretation instruction_codec: message_codec encodeInstruction decodeInstruction okInstruction
  by unfold_locales (use codes_instruction in \<open>auto simp: encodeInstruction_def decodeInstruction_def\<close>)

section \<open>Integers at their widths\<close>

text \<open>What the wire can hold of an instruction: its integers reduced modulo the field width.\<close>

fun wrapInstruction :: "NameInstruction \<Rightarrow> NameInstruction" where
  "wrapInstruction (InitializeRegistry n a) = InitializeRegistry (n mod 2 ^ 32) a"
| "wrapInstruction (Register l d) = Register l (d mod 2 ^ 64)"
| "wrapInstruction (Renew h d) = Renew h (d mod 2 ^ 64)"
| "wrapInstruction (SetRecord h t v e) = SetRecord h t v (e mod 2 ^ 64)"
| "wrapInstruction (DeleteRecord h t k e) = DeleteRecord h t k (e mod 2 ^ 64)"
| "wrapInstruction (ReclaimExpired l d) = ReclaimExpired l (d mod 2 ^ 64)"
| "wrapInstruction (UpdateConfig p g) = UpdateConfig p (map_option (\<lambda>v. v mod 2 ^ 64) g)"
| "wrapInstruction (ListName h c p) = ListName h c (p mod 2 ^ 64)"
| "wrapInstruction (MakeOffer h c p) = MakeOffer h c (p mod 2 ^ 64)"
| "wrapInstruction ix = ix"

lemma w_mod: "w_u32 (v mod 2 ^ 32) = w_u32 v" "w_u64 (v mod 2 ^ 64) = w_u64 v"
  unfolding leBytes_unfold(3) w_u64_def using leBytes_mod [of 4 v] leBytes_mod [of 8 v] by simp_all

lemma writeInstruction_wrap: "writeInstruction (wrapInstruction ix) = writeInstruction ix"
proof (cases ix)
  case (UpdateConfig p g)
  then show ?thesis by (cases g) (simp_all only: wrapInstruction.simps writeInstruction.simps
      encodeOptionU64.simps option.map w_mod)
qed (simp_all only: wrapInstruction.simps writeInstruction.simps w_mod)

lemma encodeInstruction_wrap: "encodeInstruction (wrapInstruction ix) = encodeInstruction ix"
  by (simp add: encodeInstruction_def writeInstruction_wrap)

text \<open>The texts of an instruction; the other fields are integers, which wrap, and keys, whose length
  the writer checks.\<close>

fun okTexts :: "NameInstruction \<Rightarrow> bool" where
  "okTexts (Register l d) = encodableText l"
| "okTexts (ReclaimExpired l d) = encodableText l"
| "okTexts (SetRecord h t v e) = (case v of Text k w \<Rightarrow> encodableText k \<and> encodableText w | _ \<Rightarrow> True)"
| "okTexts (DeleteRecord h t k e) = encodableText k"
| "okTexts _ = True"

lemma chain_Inr: "chain (f # fs) w = Inr w' \<longleftrightarrow> (\<exists>v. f w = Inr v \<and> chain fs v = Inr w')"
  by (simp add: chain.simps result_iffs)

lemma pubkey_Inr: "w_pubkey k w = Inr v \<Longrightarrow> length k = 32"
  by (simp add: w_pubkey_def result_iffs)

lemma encodeRecordValue_ok:
  "encodeRecordValue v w = Inr w' \<Longrightarrow> (case v of Text k x \<Rightarrow> encodableText k \<and> encodableText x | _ \<Rightarrow> True) \<Longrightarrow> okRecordValue v"
  by (cases v) (auto simp: chain_Inr dest: pubkey_Inr)

lemma encoded_instruction_ok:
  assumes "encodeInstruction ix = Inr bs" "okTexts ix"
  shows "okInstruction (wrapInstruction ix)"
proof -
  obtain w where "writeInstruction ix newWriter = Inr w"
    using assms(1) by (auto simp: encodeInstruction_def finishWriter_def result_iffs)
  with assms(2) show ?thesis
    by (cases ix) (auto simp: chain_Inr dest!: pubkey_Inr dest: encodeRecordValue_ok split: option.splits)
qed

lemma encoded_instruction_decodes:
  assumes "encodeInstruction ix = Inr bs" "okTexts ix"
  shows "decodeInstruction bs = Inr (wrapInstruction ix)"
  using instruction_codec.roundtrip [OF encoded_instruction_ok [OF assms]] assms(1)
  by (simp add: encodeInstruction_wrap)

section \<open>Properties\<close>

text \<open>C16. The instruction codec is exact over all sixteen variants: every instruction whose fields fit
  the wire format encodes, decodes to itself, and is refused when bytes are missing or left over.\<close>

theorem instruction_codec_exact:
  assumes "okInstruction ix"
  shows "\<exists>bs. encodeInstruction ix = Inr bs \<and> decodeInstruction bs = Inr ix
    \<and> (\<forall>p. strict_prefix p bs \<longrightarrow> decodeInstruction p = Inl eofError)
    \<and> (\<forall>ys. ys \<noteq> [] \<longrightarrow> decodeInstruction (bs @ ys) = Inl trailingError)"
  using assms by (rule instruction_codec.exact)

theorem instruction_codec_exact_witness:
  "\<exists>bs. encodeInstruction (SetRecord (replicate 32 7) TextT (Text (js ''url'') (js ''https://arch.network'')) 4) = Inr bs
    \<and> decodeInstruction bs = Inr (SetRecord (replicate 32 7) TextT (Text (js ''url'') (js ''https://arch.network'')) 4)"
  using instruction_codec_exact [of "SetRecord (replicate 32 7) TextT (Text (js ''url'') (js ''https://arch.network'')) 4"]
  by (auto simp: encodableText_ascii js_def)

text \<open>The encoder checks no integer range: an instruction and the one with its integers reduced
  modulo the field width have the same bytes, and whenever encoding succeeds on texts that UTF-8
  carries, the program reads the reduced instruction.\<close>

theorem instruction_integers_wrap:
  "encodeInstruction ix = encodeInstruction (wrapInstruction ix)
   \<and> (\<forall>bs. encodeInstruction ix = Inr bs \<longrightarrow> okTexts ix \<longrightarrow> decodeInstruction bs = Inr (wrapInstruction ix))"
  by (simp add: encodeInstruction_wrap encoded_instruction_decodes)

theorem instruction_integers_wrap_witness:
  "\<exists>bs. encodeInstruction (ListName (replicate 32 7) Arch (2 ^ 64 + 5)) = Inr bs
     \<and> decodeInstruction bs = Inr (ListName (replicate 32 7) Arch 5)"
proof -
  obtain bs where bs: "encodeInstruction (ListName (replicate 32 7) Arch 5) = Inr bs"
    using instruction_codec.roundtrip [of "ListName (replicate 32 7) Arch 5"] by auto
  then show ?thesis
    using instruction_integers_wrap [of "ListName (replicate 32 7) Arch (2 ^ 64 + 5)"] by simp
qed

end
