(* ===== verification/Builders.thy ===== *)
theory Builders
  imports Resolve Instruction_Codec
begin

text \<open>
  Instruction builders: \<^verbatim>\<open>instructions/builders.ts\<close>. Each builder derives the accounts of its
  instruction, lists them with their signer and writable flags, and encodes the instruction. The
  interface \<open>instruction_builder\<close> states what a builder promises, once for all eleven.
\<close>

section \<open>The builders (instructions/builders.ts)\<close>

definition meta :: "ArchAddress \<Rightarrow> bool \<Rightarrow> bool \<Rightarrow> AccountMeta" where
  "meta pubkey isSigner isWritable = \<lparr>am_pubkey = pubkey, am_isSigner = isSigner, am_isWritable = isWritable\<rparr>"

text \<open>The object literal every builder returns; its last field throws what \<open>encodeInstruction\<close> does.\<close>

definition built :: "ArchAddress \<Rightarrow> AccountMeta list \<Rightarrow> NameInstruction \<Rightarrow> js_error + BuiltInstruction" where
  "built programId accounts ix =
     bindR (encodeInstruction ix) (\<lambda>data. Inr \<lparr>bi_programId = programId, bi_accounts = accounts, bi_data = data\<rparr>)"

definition buildRegisterInstruction ::
  "prims \<Rightarrow> ArchAddress \<Rightarrow> ArchAddress \<Rightarrow> ArchAddress \<Rightarrow> js_string \<Rightarrow> js_string \<Rightarrow> int option \<Rightarrow>
   js_error + BuiltInstruction" where
  "buildRegisterInstruction P programId owner registryConfig ns label durationSlots =
     bindR (canonicalizeLabel P label) (\<lambda>label.
     bindR (nameHash P (label @ js ''.arch'')) (\<lambda>hash.
     bindR (deriveNameAddress P programId ns hash) (\<lambda>nameAccount.
     built programId
       [meta owner True True, meta registryConfig False False, meta nameAccount False True,
        meta SYSTEM_PROGRAM_ID False False]
       (Register label (case durationSlots of Some d \<Rightarrow> d | None \<Rightarrow> 0)))))"

definition buildTransferInstruction ::
  "prims \<Rightarrow> ArchAddress \<Rightarrow> ArchAddress \<Rightarrow> ArchAddress \<Rightarrow> js_string \<Rightarrow> js_string \<Rightarrow> ArchAddress \<Rightarrow>
   js_error + BuiltInstruction" where
  "buildTransferInstruction P programId owner registryConfig ns name newOwner =
     bindR (nameHash P name) (\<lambda>hash.
     bindR (deriveNameAddress P programId ns hash) (\<lambda>nameAccount.
     bindR (deriveListingAddress P programId ns hash) (\<lambda>listingAccount.
     built programId
       [meta owner True True, meta registryConfig False False, meta nameAccount False True,
        meta listingAccount False False]
       (Transfer hash newOwner))))"

definition buildListNameInstruction ::
  "prims \<Rightarrow> ArchAddress \<Rightarrow> ArchAddress \<Rightarrow> ArchAddress \<Rightarrow> js_string \<Rightarrow> js_string \<Rightarrow> QuoteCurrency \<Rightarrow> int \<Rightarrow>
   js_error + BuiltInstruction" where
  "buildListNameInstruction P programId seller registryConfig ns name currency price =
     bindR (nameHash P name) (\<lambda>hash.
     bindR (deriveNameAddress P programId ns hash) (\<lambda>nameAccount.
     bindR (deriveListingAddress P programId ns hash) (\<lambda>listingAccount.
     built programId
       [meta seller True True, meta registryConfig False False, meta nameAccount False False,
        meta listingAccount False True, meta SYSTEM_PROGRAM_ID False False]
       (ListName hash currency price))))"

definition buildCancelListingInstruction ::
  "prims \<Rightarrow> ArchAddress \<Rightarrow> ArchAddress \<Rightarrow> ArchAddress \<Rightarrow> js_string \<Rightarrow> js_string \<Rightarrow> js_error + BuiltInstruction" where
  "buildCancelListingInstruction P programId seller registryConfig ns name =
     bindR (nameHash P name) (\<lambda>hash.
     bindR (deriveNameAddress P programId ns hash) (\<lambda>nameAccount.
     bindR (deriveListingAddress P programId ns hash) (\<lambda>listingAccount.
     built programId
       [meta seller True True, meta registryConfig False False, meta nameAccount False False,
        meta listingAccount False True]
       (CancelListing hash))))"

text \<open>The aBTC accounts that a purchase or an accepted offer in BTC appends.\<close>

definition btcAccounts ::
  "js_string \<Rightarrow> QuoteCurrency \<Rightarrow> ArchAddress option \<Rightarrow> ArchAddress option \<Rightarrow> js_error + AccountMeta list" where
  "btcAccounts msg currency buyerAta sellerAta =
     (if currency = Btc then
        (case (buyerAta, sellerAta) of
           (Some b, Some s) \<Rightarrow>
             Inr [meta b False True, meta s False True, meta TESTNET_ABTC_MINT False False,
                  meta TOKEN_PROGRAM_ID False False]
         | _ \<Rightarrow> Inl (PlainError msg))
      else Inr [])"

definition buildBuyNameInstruction ::
  "prims \<Rightarrow> ArchAddress \<Rightarrow> ArchAddress \<Rightarrow> ArchAddress \<Rightarrow> ArchAddress \<Rightarrow> js_string \<Rightarrow> js_string \<Rightarrow> QuoteCurrency \<Rightarrow>
   ArchAddress option \<Rightarrow> ArchAddress option \<Rightarrow> js_error + BuiltInstruction" where
  "buildBuyNameInstruction P programId buyer seller registryConfig ns name currency buyerAta sellerAta =
     bindR (nameHash P name) (\<lambda>hash.
     bindR (deriveNameAddress P programId ns hash) (\<lambda>nameAccount.
     bindR (deriveListingAddress P programId ns hash) (\<lambda>listingAccount.
     bindR (btcAccounts (js ''BTC purchases require buyer and seller aBTC ATAs'') currency buyerAta sellerAta) (\<lambda>extra.
     built programId
       ([meta buyer True True, meta seller False True, meta registryConfig False False,
         meta nameAccount False True, meta listingAccount False True] @ extra)
       (BuyName hash)))))"

definition buildMakeOfferInstruction ::
  "prims \<Rightarrow> ArchAddress \<Rightarrow> ArchAddress \<Rightarrow> ArchAddress \<Rightarrow> js_string \<Rightarrow> js_string \<Rightarrow> QuoteCurrency \<Rightarrow> int \<Rightarrow>
   js_error + BuiltInstruction" where
  "buildMakeOfferInstruction P programId buyer registryConfig ns name currency price =
     bindR (nameHash P name) (\<lambda>hash.
     bindR (deriveNameAddress P programId ns hash) (\<lambda>nameAccount.
     bindR (deriveOfferAddress P programId ns hash buyer) (\<lambda>offerAccount.
     built programId
       [meta buyer True True, meta registryConfig False False, meta nameAccount False False,
        meta offerAccount False True, meta SYSTEM_PROGRAM_ID False False]
       (MakeOffer hash currency price))))"

definition buildCancelOfferInstruction ::
  "prims \<Rightarrow> ArchAddress \<Rightarrow> ArchAddress \<Rightarrow> ArchAddress \<Rightarrow> js_string \<Rightarrow> js_string \<Rightarrow> js_error + BuiltInstruction" where
  "buildCancelOfferInstruction P programId buyer registryConfig ns name =
     bindR (nameHash P name) (\<lambda>hash.
     bindR (deriveOfferAddress P programId ns hash buyer) (\<lambda>offerAccount.
     built programId
       [meta buyer True True, meta registryConfig False False, meta offerAccount False True]
       (CancelOffer hash)))"

definition buildAcceptOfferInstruction ::
  "prims \<Rightarrow> ArchAddress \<Rightarrow> ArchAddress \<Rightarrow> ArchAddress \<Rightarrow> ArchAddress \<Rightarrow> js_string \<Rightarrow> js_string \<Rightarrow> QuoteCurrency \<Rightarrow>
   ArchAddress option \<Rightarrow> ArchAddress option \<Rightarrow> js_error + BuiltInstruction" where
  "buildAcceptOfferInstruction P programId seller buyer registryConfig ns name currency buyerAta sellerAta =
     bindR (nameHash P name) (\<lambda>hash.
     bindR (deriveNameAddress P programId ns hash) (\<lambda>nameAccount.
     bindR (deriveOfferAddress P programId ns hash buyer) (\<lambda>offerAccount.
     bindR (deriveListingAddress P programId ns hash) (\<lambda>listingAccount.
     bindR (btcAccounts (js ''BTC offer accepts require buyer and seller aBTC ATAs'') currency buyerAta sellerAta) (\<lambda>extra.
     built programId
       ([meta seller True True, meta buyer (currency = Btc) True, meta registryConfig False False,
         meta nameAccount False True, meta offerAccount False True, meta listingAccount False True] @ extra)
       (AcceptOffer hash buyer))))))"

definition buildSetRecordInstruction ::
  "prims \<Rightarrow> ArchAddress \<Rightarrow> ArchAddress \<Rightarrow> ArchAddress \<Rightarrow> js_string \<Rightarrow> js_string \<Rightarrow> RecordType \<Rightarrow> RecordValue \<Rightarrow> int \<Rightarrow>
   js_error + BuiltInstruction" where
  "buildSetRecordInstruction P programId owner registryConfig ns name rtype val expectedRevision =
     bindR (nameHash P name) (\<lambda>hash.
     bindR (deriveNameAddress P programId ns hash) (\<lambda>nameAccount.
     let textKey = (case val of Text key _ \<Rightarrow> Some key | _ \<Rightarrow> None) in
     bindR (deriveRecordAddressFor P programId ns hash rtype textKey) (\<lambda>recordAccount.
     built programId
       [meta owner True True, meta registryConfig False False, meta nameAccount False True,
        meta recordAccount False True, meta SYSTEM_PROGRAM_ID False False]
       (SetRecord hash rtype val expectedRevision))))"

definition buildDeleteRecordInstruction ::
  "prims \<Rightarrow> ArchAddress \<Rightarrow> ArchAddress \<Rightarrow> ArchAddress \<Rightarrow> js_string \<Rightarrow> js_string \<Rightarrow> RecordType \<Rightarrow> js_string option \<Rightarrow> int \<Rightarrow>
   js_error + BuiltInstruction" where
  "buildDeleteRecordInstruction P programId owner registryConfig ns name rtype textKey expectedRevision =
     bindR (nameHash P name) (\<lambda>hash.
     bindR (deriveNameAddress P programId ns hash) (\<lambda>nameAccount.
     bindR (deriveRecordAddressFor P programId ns hash rtype textKey) (\<lambda>recordAccount.
     built programId
       [meta owner True True, meta registryConfig False False, meta nameAccount False False,
        meta recordAccount False True]
       (DeleteRecord hash rtype (case textKey of Some k \<Rightarrow> k | None \<Rightarrow> []) expectedRevision))))"

definition buildSetPrimaryInstruction ::
  "prims \<Rightarrow> ArchAddress \<Rightarrow> ArchAddress \<Rightarrow> ArchAddress \<Rightarrow> js_string \<Rightarrow> js_string \<Rightarrow> js_error + BuiltInstruction" where
  "buildSetPrimaryInstruction P programId owner registryConfig ns name =
     bindR (nameHash P name) (\<lambda>hash.
     bindR (deriveNameAddress P programId ns hash) (\<lambda>nameAccount.
     bindR (deriveReverseAddress P programId ns owner) (\<lambda>reverseAccount.
     built programId
       [meta owner True True, meta registryConfig False False, meta nameAccount False True,
        meta reverseAccount False True, meta SYSTEM_PROGRAM_ID False False]
       (SetPrimary hash))))"

definition buildClearPrimaryInstruction ::
  "prims \<Rightarrow> ArchAddress \<Rightarrow> ArchAddress \<Rightarrow> js_string \<Rightarrow> js_error + BuiltInstruction" where
  "buildClearPrimaryInstruction P programId owner ns =
     bindR (deriveReverseAddress P programId ns owner) (\<lambda>reverseAccount.
     built programId [meta owner True True, meta reverseAccount False True] ClearPrimary)"

section \<open>What a builder promises\<close>

text \<open>The contract of a family of builders: a built instruction addresses the deployment's program,
  carries the encoding of the instruction the request means, and lists the requesting wallet first,
  as a writable signer. Signers other than it are those of \<open>cosigners\<close>.\<close>

locale instruction_builder =
  fixes build :: "'c \<Rightarrow> 'r \<Rightarrow> js_error + BuiltInstruction"
    and program :: "'c \<Rightarrow> ArchAddress"
    and wallet :: "'c \<Rightarrow> ArchAddress"
    and cosigners :: "'r \<Rightarrow> ArchAddress list"
    and intent :: "'r \<Rightarrow> js_error + NameInstruction"
  assumes encodes: "build c r = Inr b \<Longrightarrow> \<exists>ix. intent r = Inr ix \<and> encodeInstruction ix = Inr (bi_data b)"
    and addresses: "build c r = Inr b \<Longrightarrow> bi_programId b = program c"
    and signs: "build c r = Inr b \<Longrightarrow>
      filter am_isSigner (bi_accounts b) = meta (wallet c) True True # map (\<lambda>a. meta a True True) (cosigners r)"
begin

lemma carries_intent:
  assumes "build c r = Inr b"
  obtains ix where "intent r = Inr ix" "okTexts ix \<longrightarrow> decodeInstruction (bi_data b) = Inr (wrapInstruction ix)"
  using encodes [OF assms] encoded_instruction_decodes by blast

lemma same_data_same_intent:
  assumes "build c r = Inr b" "build c' r' = Inr b'" "bi_data b = bi_data b'"
    and "intent r = Inr ix" "intent r' = Inr ix'" "okInstruction ix" "okInstruction ix'"
  shows "ix = ix'"
  using encodes [OF assms(1)] encodes [OF assms(2)] assms(3-) instruction_codec.encode_inj by auto

end

text \<open>The requests that the eleven builders serve, with the deployment they are built for.\<close>

record build_ctx =
  bx_program :: ArchAddress
  bx_wallet :: ArchAddress
  bx_config :: ArchAddress
  bx_ns :: js_string

datatype request =
    RegisterR js_string "int option"
  | TransferR js_string ArchAddress
  | ListR js_string QuoteCurrency int
  | CancelListingR js_string
  | BuyR ArchAddress js_string QuoteCurrency "ArchAddress option" "ArchAddress option"
  | MakeOfferR js_string QuoteCurrency int
  | CancelOfferR js_string
  | AcceptOfferR ArchAddress js_string QuoteCurrency "ArchAddress option" "ArchAddress option"
  | SetRecordR js_string RecordType RecordValue int
  | DeleteRecordR js_string RecordType "js_string option" int
  | SetPrimaryR js_string
  | ClearPrimaryR

fun buildRequest :: "prims \<Rightarrow> build_ctx \<Rightarrow> request \<Rightarrow> js_error + BuiltInstruction" where
  "buildRequest P c (RegisterR label d) =
     buildRegisterInstruction P (bx_program c) (bx_wallet c) (bx_config c) (bx_ns c) label d"
| "buildRequest P c (TransferR name newOwner) =
     buildTransferInstruction P (bx_program c) (bx_wallet c) (bx_config c) (bx_ns c) name newOwner"
| "buildRequest P c (ListR name currency price) =
     buildListNameInstruction P (bx_program c) (bx_wallet c) (bx_config c) (bx_ns c) name currency price"
| "buildRequest P c (CancelListingR name) =
     buildCancelListingInstruction P (bx_program c) (bx_wallet c) (bx_config c) (bx_ns c) name"
| "buildRequest P c (BuyR seller name currency buyerAta sellerAta) =
     buildBuyNameInstruction P (bx_program c) (bx_wallet c) seller (bx_config c) (bx_ns c) name currency buyerAta sellerAta"
| "buildRequest P c (MakeOfferR name currency price) =
     buildMakeOfferInstruction P (bx_program c) (bx_wallet c) (bx_config c) (bx_ns c) name currency price"
| "buildRequest P c (CancelOfferR name) =
     buildCancelOfferInstruction P (bx_program c) (bx_wallet c) (bx_config c) (bx_ns c) name"
| "buildRequest P c (AcceptOfferR buyer name currency buyerAta sellerAta) =
     buildAcceptOfferInstruction P (bx_program c) (bx_wallet c) buyer (bx_config c) (bx_ns c) name currency buyerAta sellerAta"
| "buildRequest P c (SetRecordR name rtype val revision) =
     buildSetRecordInstruction P (bx_program c) (bx_wallet c) (bx_config c) (bx_ns c) name rtype val revision"
| "buildRequest P c (DeleteRecordR name rtype key revision) =
     buildDeleteRecordInstruction P (bx_program c) (bx_wallet c) (bx_config c) (bx_ns c) name rtype key revision"
| "buildRequest P c (SetPrimaryR name) =
     buildSetPrimaryInstruction P (bx_program c) (bx_wallet c) (bx_config c) (bx_ns c) name"
| "buildRequest P c ClearPrimaryR = buildClearPrimaryInstruction P (bx_program c) (bx_wallet c) (bx_ns c)"

definition named :: "prims \<Rightarrow> js_string \<Rightarrow> (bytes \<Rightarrow> NameInstruction) \<Rightarrow> js_error + NameInstruction" where
  "named P name k = bindR (nameHash P name) (\<lambda>h. Inr (k h))"

fun intentOf :: "prims \<Rightarrow> request \<Rightarrow> js_error + NameInstruction" where
  "intentOf P (RegisterR label d) =
     bindR (canonicalizeLabel P label) (\<lambda>l. Inr (Register l (case d of Some n \<Rightarrow> n | None \<Rightarrow> 0)))"
| "intentOf P (TransferR name newOwner) = named P name (\<lambda>h. Transfer h newOwner)"
| "intentOf P (ListR name currency price) = named P name (\<lambda>h. ListName h currency price)"
| "intentOf P (CancelListingR name) = named P name CancelListing"
| "intentOf P (BuyR seller name currency buyerAta sellerAta) = named P name BuyName"
| "intentOf P (MakeOfferR name currency price) = named P name (\<lambda>h. MakeOffer h currency price)"
| "intentOf P (CancelOfferR name) = named P name CancelOffer"
| "intentOf P (AcceptOfferR buyer name currency buyerAta sellerAta) = named P name (\<lambda>h. AcceptOffer h buyer)"
| "intentOf P (SetRecordR name rtype val revision) = named P name (\<lambda>h. SetRecord h rtype val revision)"
| "intentOf P (DeleteRecordR name rtype key revision) =
     named P name (\<lambda>h. DeleteRecord h rtype (case key of Some k \<Rightarrow> k | None \<Rightarrow> []) revision)"
| "intentOf P (SetPrimaryR name) = named P name SetPrimary"
| "intentOf P ClearPrimaryR = Inr ClearPrimary"

text \<open>Only an accepted BTC offer needs a second signature, the buyer's.\<close>

fun cosignersOf :: "request \<Rightarrow> ArchAddress list" where
  "cosignersOf (AcceptOfferR buyer name currency buyerAta sellerAta) = (if currency = Btc then [buyer] else [])"
| "cosignersOf _ = []"

lemmas builder_defs =
  buildRegisterInstruction_def buildTransferInstruction_def buildListNameInstruction_def
  buildCancelListingInstruction_def buildBuyNameInstruction_def buildMakeOfferInstruction_def
  buildCancelOfferInstruction_def buildAcceptOfferInstruction_def buildSetRecordInstruction_def
  buildDeleteRecordInstruction_def buildSetPrimaryInstruction_def buildClearPrimaryInstruction_def

lemma built_Inr: "built pid ms ix = Inr b \<longleftrightarrow>
  bi_programId b = pid \<and> bi_accounts b = ms \<and> encodeInstruction ix = Inr (bi_data b)"
  by (cases b) (auto simp: built_def result_iffs)

lemma btcAccounts_Inr:
  assumes "btcAccounts msg currency buyerAta sellerAta = Inr ms"
  shows "filter am_isSigner ms = []" "currency = Btc \<Longrightarrow> buyerAta \<noteq> None \<and> sellerAta \<noteq> None"
  using assms by (auto simp: btcAccounts_def meta_def split: if_splits option.splits)

lemma buildRequest_law:
  assumes "buildRequest P c r = Inr b"
  shows "(\<exists>ix. intentOf P r = Inr ix \<and> encodeInstruction ix = Inr (bi_data b))
    \<and> bi_programId b = bx_program c
    \<and> filter am_isSigner (bi_accounts b) = meta (bx_wallet c) True True # map (\<lambda>a. meta a True True) (cosignersOf r)"
  using assms
  by (cases r) (auto simp: builder_defs built_Inr result_iffs named_def meta_def Let_def dest: btcAccounts_Inr)

interpretation registry_builders: instruction_builder "buildRequest P" bx_program bx_wallet cosignersOf "intentOf P" for P
  by unfold_locales (use buildRequest_law in blast)+

section \<open>Properties\<close>

lemma canonicalLabel_texts:
  assumes "canonicalizeLabel P label = Inr l"
  shows "canonicalName (l @ ARCH_SUFFIX) \<and> encodableText l"
proof -
  have n: "canonicalName (l @ ARCH_SUFFIX)"
    using assms by (auto simp: canonicalizeLabel_iff canonicalizeName_iff)
  then have "isAscii l" "length l \<le> 63"
    using canonicalName_units [OF n] by (auto simp: canonicalName_def)
  with n show ?thesis by (simp add: encodableText_ascii)
qed

text \<open>C28. Every builder carries its request: what it builds addresses the deployment's program, decodes
  to the instruction the request means for the canonical name (integers at their widths), and is
  signed by the requesting wallet alone, which pays and is writable, except that an accepted BTC offer
  also needs the buyer's signature.\<close>

theorem builders_carry_intent:
  assumes "buildRequest P c r = Inr b"
  shows "(\<exists>ix. intentOf P r = Inr ix \<and> (okTexts ix \<longrightarrow> decodeInstruction (bi_data b) = Inr (wrapInstruction ix)))
    \<and> bi_programId b = bx_program c
    \<and> filter am_isSigner (bi_accounts b) = meta (bx_wallet c) True True # map (\<lambda>a. meta a True True) (cosignersOf r)"
proof -
  obtain ix where "intentOf P r = Inr ix" "okTexts ix \<longrightarrow> decodeInstruction (bi_data b) = Inr (wrapInstruction ix)"
    using registry_builders.carries_intent [OF assms] .
  then show ?thesis
    using registry_builders.addresses [OF assms] registry_builders.signs [OF assms] by blast
qed

definition sampleCtx :: build_ctx where
  "sampleCtx = \<lparr>bx_program = replicate 32 8, bx_wallet = replicate 32 9, bx_config = replicate 32 6, bx_ns = js ''.arch''\<rparr>"

lemma sample_hash: "nameHash samplePrims (js ''alice.arch'') = Inr (hashName samplePrims (js ''alice.arch''))"
  by (simp add: nameHash_def canonicalizeName_canonical alice_canonical)

lemma sample_hash_width [simp]: "length (hashName samplePrims s) = 32"
  by (simp add: length_hashes samplePrims_width)

lemma encodes_ok: "okInstruction ix \<Longrightarrow> \<exists>d. encodeInstruction ix = Inr d"
  using instruction_codec.roundtrip by blast

theorem builders_carry_intent_witness:
  "\<exists>b. buildRequest samplePrims sampleCtx (ListR (js ''alice.arch'') Btc 700) = Inr b
     \<and> decodeInstruction (bi_data b) = Inr (ListName (hashName samplePrims (js ''alice.arch'')) Btc 700)"
proof -
  let ?ix = "ListName (hashName samplePrims (js ''alice.arch'')) Btc 700"
  obtain d where "encodeInstruction ?ix = Inr d" using encodes_ok [of ?ix] by auto
  then obtain b where b: "buildRequest samplePrims sampleCtx (ListR (js ''alice.arch'') Btc 700) = Inr b"
    by (simp add: buildListNameInstruction_def sample_hash deriveNameAddress_def deriveListingAddress_def
        sample_derive built_def)
  show ?thesis
    using builders_carry_intent [OF b] b by (simp add: named_def sample_hash)
qed

text \<open>Registration is bound to one label: the account a registration creates is the account of the
  label it encodes. The program reads a label of the grammar, and the third account is the one
  derived from the hash of that label with the suffix, whatever the spelling of the input.\<close>

theorem register_binds_label:
  assumes "buildRegisterInstruction P pid owner config ns label d = Inr b"
  shows "\<exists>l. decodeInstruction (bi_data b) = Inr (Register l ((case d of Some n \<Rightarrow> n | None \<Rightarrow> 0) mod 2 ^ 64))
    \<and> labelText l \<and> length l \<le> 63
    \<and> map am_pubkey (bi_accounts b) ! 0 = owner
    \<and> deriveNameAddress P pid ns (hashName P (l @ ARCH_SUFFIX)) = Inr (map am_pubkey (bi_accounts b) ! 2)"
proof -
  obtain l a where l: "canonicalizeLabel P label = Inr l"
    and a: "bindR (nameHash P (l @ ARCH_SUFFIX)) (deriveNameAddress P pid ns) = Inr a"
    and acc: "bi_accounts b = [meta owner True True, meta config False False, meta a False True, meta SYSTEM_PROGRAM_ID False False]"
    and enc: "encodeInstruction (Register l (case d of Some n \<Rightarrow> n | None \<Rightarrow> 0)) = Inr (bi_data b)"
    using assms by (auto simp: buildRegisterInstruction_def result_iffs built_Inr ARCH_SUFFIX_def)
  note texts = canonicalLabel_texts [OF l]
  have "nameHash P (l @ ARCH_SUFFIX) = Inr (hashName P (l @ ARCH_SUFFIX))"
    using texts by (simp add: nameHash_def canonicalizeName_canonical)
  moreover have "decodeInstruction (bi_data b) = Inr (Register l ((case d of Some n \<Rightarrow> n | None \<Rightarrow> 0) mod 2 ^ 64))"
    using encoded_instruction_decodes [OF enc] texts by simp
  moreover have "labelText l \<and> length l \<le> 63" using texts by (auto simp: canonicalName_def)
  ultimately show ?thesis using a acc by (auto simp: meta_def)
qed

theorem register_binds_label_witness:
  "\<exists>b. buildRegisterInstruction samplePrims (replicate 32 8) (replicate 32 9) (replicate 32 6) (js ''.arch'') (js '' Alice '') None = Inr b
     \<and> deriveNameAddress samplePrims (replicate 32 8) (js ''.arch'') (hashName samplePrims (js ''alice.arch'')) =
         Inr (map am_pubkey (bi_accounts b) ! 2)"
proof -
  have suffix: "js ''alice.arch'' = js ''alice'' @ ARCH_SUFFIX" by (simp add: ARCH_SUFFIX_def js_def)
  have "canonicalizeName samplePrims ([] @ js ''Alice.arch'' @ []) = Inr (js ''alice.arch'')"
    by (rule canonicalizeName_spelling) (simp_all add: alice_canonical, simp_all add: js_def lowerUnit_def)
  then have l: "canonicalizeLabel samplePrims (js '' Alice '') = Inr (js ''alice'')"
    by (simp add: canonicalizeLabel_iff suffix [symmetric])
      (simp add: js_def trim_def isSpace_def ARCH_SUFFIX_def)
  obtain d where "encodeInstruction (Register (js ''alice'') 0) = Inr d"
    using encodes_ok [of "Register (js ''alice'') 0"] by (auto simp: encodableText_ascii js_def)
  then obtain b where b: "buildRegisterInstruction samplePrims (replicate 32 8) (replicate 32 9) (replicate 32 6) (js ''.arch'') (js '' Alice '') None = Inr b"
    using sample_hash
    by (simp add: buildRegisterInstruction_def l suffix ARCH_SUFFIX_def deriveNameAddress_def sample_derive built_def)
  obtain l' where l': "decodeInstruction (bi_data b) = Inr (Register l' 0)"
      "deriveNameAddress samplePrims (replicate 32 8) (js ''.arch'') (hashName samplePrims (l' @ ARCH_SUFFIX)) = Inr (map am_pubkey (bi_accounts b) ! 2)"
    using register_binds_label [OF b] by auto
  have "decodeInstruction (bi_data b) = Inr (Register (js ''alice'') 0)"
    using b encoded_instruction_decodes [of "Register (js ''alice'') 0" "bi_data b"] l
    by (auto simp: buildRegisterInstruction_def result_iffs built_Inr encodableText_ascii js_def)
  with l' b show ?thesis by (auto simp: suffix)
qed

text \<open>Writer and resolver agree on record addresses: the record account a set-record instruction
  writes is the account in which \<open>resolveRecord\<close> looks for that name, type and value.\<close>

theorem set_record_address_resolves:
  assumes "buildSetRecordInstruction P pid owner config ns requested rtype val revision = Inr b"
    and "kindOf val = rtype"
  shows "\<exists>h. nameHash P requested = Inr h
    \<and> deriveRecordAddressFor P pid ns h rtype (recordKey rtype None val) = Inr (map am_pubkey (bi_accounts b) ! 3)
    \<and> (\<forall>key v. val = Text key v \<longrightarrow> recordKey rtype None val = recordKey rtype (Some key) val)"
  using assms
  by (cases val) (auto simp: buildSetRecordInstruction_def result_iffs built_Inr meta_def recordKey_def Let_def
      deriveRecordAddressFor_def)

theorem set_record_address_resolves_witness:
  "\<exists>b h. buildSetRecordInstruction samplePrims [] (replicate 32 9) [] (js ''.arch'') (js ''alice.arch'') ArchOwnerT
       (ArchOwner (replicate 32 9)) 0 = Inr b
     \<and> deriveRecordAddressFor samplePrims [] (js ''.arch'') h ArchOwnerT None = Inr (map am_pubkey (bi_accounts b) ! 3)"
proof -
  let ?ix = "SetRecord (hashName samplePrims (js ''alice.arch'')) ArchOwnerT (ArchOwner (replicate 32 9)) 0"
  obtain d where "encodeInstruction ?ix = Inr d" using encodes_ok [of ?ix] by auto
  then obtain b where b: "buildSetRecordInstruction samplePrims [] (replicate 32 9) [] (js ''.arch'') (js ''alice.arch'')
      ArchOwnerT (ArchOwner (replicate 32 9)) 0 = Inr b"
    by (simp add: buildSetRecordInstruction_def sample_hash deriveNameAddress_def deriveRecordAddressFor_def
        deriveRecordAddress_def sample_derive built_def)
  show ?thesis
    using set_record_address_resolves [OF b] b by (auto simp: recordKey_def)
qed

end
