(* ===== verification/Explorer_Rows.thy ===== *)
theory Explorer_Rows
  imports Submit_Text Market Arch_Rpc Builders
begin

text \<open>
  Explorer links and rows: \<^verbatim>\<open>explorer.ts\<close>, \<^verbatim>\<open>explorer-tx.ts\<close> and \<^verbatim>\<open>activity-labels.ts\<close> of the manager. A row is a JSON
  value of any shape; reading a property of a row that is \<open>null\<close> throws. The payload of an instruction that a row
  carries is read back as that instruction, and every page of rows is asked for within the bounds of the service.
\<close>

section \<open>Links (explorer.ts)\<close>

datatype ExplorerNetwork = MainnetExplorer | TestnetExplorer

datatype ExplorerKind = TxPage | AccountPage

fun EXPLORER_SITE :: "ExplorerNetwork \<Rightarrow> js_string" where
  "EXPLORER_SITE MainnetExplorer = js ''https://explorer.arch.network''"
| "EXPLORER_SITE TestnetExplorer = js ''https://explorer.arch.network/testnet''"

definition DEFAULT_EXPLORER_NETWORK :: ExplorerNetwork where
  "DEFAULT_EXPLORER_NETWORK = TestnetExplorer"

definition explorerUrl :: "(js_string \<Rightarrow> js_string) \<Rightarrow> ExplorerKind \<Rightarrow> js_string \<Rightarrow> ExplorerNetwork option \<Rightarrow> js_string" where
  "explorerUrl encodeURIComponent kind val network =
     (let base = EXPLORER_SITE (case network of Some n \<Rightarrow> n | None \<Rightarrow> DEFAULT_EXPLORER_NETWORK);
          encoded = encodeURIComponent val in
      if kind = TxPage then base @ js ''/tx/'' @ encoded else base @ js ''/accounts/'' @ encoded)"

definition explorerTxUrl :: "(js_string \<Rightarrow> js_string) \<Rightarrow> js_string \<Rightarrow> ExplorerNetwork \<Rightarrow> js_string" where
  "explorerTxUrl encodeURIComponent txid network = explorerUrl encodeURIComponent TxPage txid (Some network)"

definition explorerAccountUrl :: "(js_string \<Rightarrow> js_string) \<Rightarrow> js_string \<Rightarrow> ExplorerNetwork \<Rightarrow> js_string" where
  "explorerAccountUrl encodeURIComponent address network = explorerUrl encodeURIComponent AccountPage address (Some network)"

text \<open>\<open>slice(-0)\<close> is the whole text.\<close>

definition truncateMiddle :: "js_string \<Rightarrow> nat \<Rightarrow> nat \<Rightarrow> js_string" where
  "truncateMiddle val head tail =
     (if length val \<le> head + tail + 1 then val
      else take head val @ [0x2026] @ (if tail = 0 then val else drop (length val - tail) val))"

section \<open>Rows (explorer-tx.ts)\<close>

definition MAX_PAGE_SIZE :: int where "MAX_PAGE_SIZE = 100"

definition isFailedStatus :: "prims \<Rightarrow> jsval \<Rightarrow> bool" where
  "isFailedStatus P status =
     (case status of
        Str s \<Rightarrow> toLowerCase (unicodeLower P) s = js ''failed''
      | _ \<Rightarrow> hasField status (js ''Failed''))"

definition explorerCreatedAt :: "jsval \<Rightarrow> js_error + js_string option" where
  "explorerCreatedAt row =
     bindR (field row (js ''created_at'')) (\<lambda>created_at.
     case created_at of
       Str s \<Rightarrow> Inr (Some s)
     | _ \<Rightarrow> (case optField row (js ''createdAt'') of Str s \<Rightarrow> Inr (Some s) | _ \<Rightarrow> Inr None))"

text \<open>The test \<open>/^-?\d+$/\<close>.\<close>

definition isIntegerText :: "js_string \<Rightarrow> bool" where
  "isIntegerText s \<longleftrightarrow> numericKey (if startsWith s (js ''-'') then drop 1 s else s)"

definition explorerBlockHeight :: "jsval \<Rightarrow> js_error + jsnum option" where
  "explorerBlockHeight row =
     bindR (field row (js ''block_height'')) (\<lambda>block_height.
     case orElse block_height (optField row (js ''blockHeight'')) of
       Number (Fin q) \<Rightarrow> Inr (Some (Fin q))
     | Str s \<Rightarrow> Inr (if isIntegerText s then Some (textToNumber s) else None)
     | _ \<Rightarrow> Inr None)"

text \<open>One instruction of a row: its payload if it is addressed to the program.\<close>

definition payloadOf :: "prims \<Rightarrow> js_string \<Rightarrow> jsval \<Rightarrow> js_error + js_string option" where
  "payloadOf P wanted ix =
     bindR (field ix (js ''program_id'')) (\<lambda>program_id.
     case program_id of
       Str s \<Rightarrow>
         if toLowerCase (unicodeLower P) s \<noteq> wanted then Inr None
         else (case optField ix (js ''data'') of Str d \<Rightarrow> Inr (Some d) | _ \<Rightarrow> Inr None)
     | _ \<Rightarrow> Inr None)"

definition ansInstructionPayloads :: "prims \<Rightarrow> jsval \<Rightarrow> js_string \<Rightarrow> js_error + js_string list" where
  "ansInstructionPayloads P row programIdHex =
     bindR (field row (js ''data'')) (\<lambda>data.
     let raw = optField (optField data (js ''message'')) (js ''instructions'');
         instructions = (case raw of Arr items \<Rightarrow> items | _ \<Rightarrow> []);
         wanted = toLowerCase (unicodeLower P) programIdHex in
     bindR (mapR (payloadOf P wanted) instructions) (\<lambda>payloads. Inr (List.map_filter (\<lambda>p. p) payloads)))"

definition decodePayload :: "js_string \<Rightarrow> NameInstruction option" where
  "decodePayload payload = (case bindR (hexToBytes payload) decodeInstruction of Inr ix \<Rightarrow> Some ix | Inl _ \<Rightarrow> None)"

definition decodeAnsInstructions :: "prims \<Rightarrow> jsval \<Rightarrow> js_string \<Rightarrow> js_error + NameInstruction list" where
  "decodeAnsInstructions P row programIdHex =
     bindR (ansInstructionPayloads P row programIdHex) (\<lambda>payloads. Inr (List.map_filter decodePayload payloads))"

text \<open>The outside of the feeds: the base address, a GET request, and the platform's \<open>encodeURIComponent\<close> and
  \<open>Date.parse\<close>.\<close>

record 'w feed_host =
  fh_base :: js_string
  fh_get :: "js_string \<Rightarrow> ('w, response) io"
  fh_encode :: "js_string \<Rightarrow> js_string"
  fh_parseDate :: "js_string \<Rightarrow> jsnum"

record fetch_options =
  fo_limit :: "rat option"
  fo_page :: "rat option"
  fo_context :: "js_string option"

definition pageLimit :: "rat option \<Rightarrow> int" where
  "pageLimit limit = min (max 1 \<lfloor>case limit of Some q \<Rightarrow> q | None \<Rightarrow> 50\<rfloor>) MAX_PAGE_SIZE"

definition rowsUrl :: "'w feed_host \<Rightarrow> js_string \<Rightarrow> fetch_options \<Rightarrow> js_string" where
  "rowsUrl H address opts =
     (let page = max 1 \<lfloor>case fo_page opts of Some q \<Rightarrow> q | None \<Rightarrow> 1\<rfloor>;
          query = js ''limit='' @ showInt (pageLimit (fo_limit opts)) @
            (if page > 1 then js ''&page='' @ showInt page else []) in
      rev (dropWhile (\<lambda>u. u = 47) (rev (fh_base H))) @ js ''/accounts/'' @ fh_encode H address @
        js ''/transactions/v2?'' @ query)"

definition rowsOf :: "fetch_options \<Rightarrow> response \<Rightarrow> js_error + jsval list" where
  "rowsOf opts response =
     (if rs_status response = 404 then Inr []
      else if \<not> responseOk response
      then Inl (PlainError (js ''Explorer '' @ (case fo_context opts of Some c \<Rightarrow> c | None \<Rightarrow> js ''transactions'') @
             js '' HTTP '' @ showInt (rs_status response)))
      else bindR (rs_json response) (\<lambda>body.
           bindR (field body (js ''transactions'')) (\<lambda>transactions.
           Inr (case transactions of Arr rows \<Rightarrow> rows | _ \<Rightarrow> []))))"

definition fetchTransactionRows :: "'w feed_host \<Rightarrow> js_string \<Rightarrow> fetch_options \<Rightarrow> ('w, jsval list) io" where
  "fetchTransactionRows H address opts =
     (if address = [] then retIO []
      else bindIO (fh_get H (rowsUrl H address opts)) (\<lambda>response. pureIO (rowsOf opts response)))"

section \<open>Labels (activity-labels.ts)\<close>

record ActivityAction =
  act_title :: js_string
  act_detail :: "js_string option"

fun RECORD_LABELS :: "RecordType \<Rightarrow> js_string" where
  "RECORD_LABELS ArchOwnerT = js ''Arch address''"
| "RECORD_LABELS BitcoinTaprootT = js ''Bitcoin address''"
| "RECORD_LABELS TokenAtaT = js ''Token account''"
| "RECORD_LABELS TextT = js ''text record''"

definition shortAddress :: "base58 \<Rightarrow> bytes \<Rightarrow> js_string" where
  "shortAddress B bs = truncateMiddle (b58_encode B bs) 6 6"

fun describeAnsInstruction :: "base58 \<Rightarrow> NameInstruction \<Rightarrow> ActivityAction" where
  "describeAnsInstruction B (Register l d) = \<lparr>act_title = js ''Registered'', act_detail = None\<rparr>"
| "describeAnsInstruction B (Renew h d) = \<lparr>act_title = js ''Renewed'', act_detail = None\<rparr>"
| "describeAnsInstruction B (Transfer h newOwner) =
     \<lparr>act_title = js ''Transferred'', act_detail = Some (js ''to '' @ shortAddress B newOwner)\<rparr>"
| "describeAnsInstruction B (SetRecord h recordType v r) =
     \<lparr>act_title = js ''Record set'', act_detail = Some (RECORD_LABELS recordType)\<rparr>"
| "describeAnsInstruction B (DeleteRecord h recordType k r) =
     \<lparr>act_title = js ''Record removed'', act_detail = Some (RECORD_LABELS recordType)\<rparr>"
| "describeAnsInstruction B (SetPrimary h) = \<lparr>act_title = js ''Set as primary'', act_detail = None\<rparr>"
| "describeAnsInstruction B ClearPrimary = \<lparr>act_title = js ''Primary cleared'', act_detail = None\<rparr>"
| "describeAnsInstruction B (ReclaimExpired l d) = \<lparr>act_title = js ''Reclaimed after expiry'', act_detail = None\<rparr>"
| "describeAnsInstruction B (ListName h currency price) =
     \<lparr>act_title = js ''Listed'', act_detail = Some (formatQuoteAmount price currency)\<rparr>"
| "describeAnsInstruction B (CancelListing h) = \<lparr>act_title = js ''Listing cancelled'', act_detail = None\<rparr>"
| "describeAnsInstruction B (BuyName h) = \<lparr>act_title = js ''Sold'', act_detail = None\<rparr>"
| "describeAnsInstruction B (MakeOffer h currency price) =
     \<lparr>act_title = js ''Offer made'', act_detail = Some (formatQuoteAmount price currency)\<rparr>"
| "describeAnsInstruction B (CancelOffer h) = \<lparr>act_title = js ''Offer cancelled'', act_detail = None\<rparr>"
| "describeAnsInstruction B (AcceptOffer h buyer) =
     \<lparr>act_title = js ''Offer accepted'', act_detail = Some (js ''buyer '' @ shortAddress B buyer)\<rparr>"
| "describeAnsInstruction B (InitializeRegistry n a) = \<lparr>act_title = js ''Registry initialized'', act_detail = None\<rparr>"
| "describeAnsInstruction B (UpdateConfig p g) = \<lparr>act_title = js ''Registry config updated'', act_detail = None\<rparr>"

definition describeInstructionData :: "base58 \<Rightarrow> js_string \<Rightarrow> ActivityAction option" where
  "describeInstructionData B hexData =
     (case bindR (bindR (hexToBytes hexData) decodeInstruction) (\<lambda>ix. Inr (describeAnsInstruction B ix)) of
        Inr action \<Rightarrow> Some action
      | Inl _ \<Rightarrow> None)"

end
