(* ===== verification/Manifest.thy ===== *)
theory Manifest
  imports Derive Hex
begin

text \<open>
  Deployment manifests: \<^verbatim>\<open>config/testnet.ts\<close> and \<^verbatim>\<open>config/manifest.ts\<close>.
\<close>

definition TESTNET_MANIFEST :: AnsDeploymentManifest where
  "TESTNET_MANIFEST = \<lparr>
     mf_network = TestnetDeployment,
     mf_rpcUrl = js ''https://id.arch.network/rpc'',
     mf_programId = js ''3d9fbaa282268d8453a924692f254ad6c610668f36512db9fb50325ac2e4e079'',
     mf_registryConfig = js ''29691c11fb04be3e25c5f236dc7971cbb3293fc0f7a3bed288dc4cd476320521'',
     mf_networkId = 2,
     mf_namespace = js ''.arch'',
     mf_programVersion = 1,
     mf_bitcoinNetwork = Testnet,
     mf_tokenPrograms = [],
     mf_mainnetEnabled = False,
     mf_smokePassed = Some True,
     mf_features = Some True\<rparr>"

definition loadTestnetManifest :: AnsDeploymentManifest where
  "loadTestnetManifest = TESTNET_MANIFEST"

definition programIdBytes :: "AnsDeploymentManifest \<Rightarrow> js_error + ArchAddress" where
  "programIdBytes m = hexToBytes (mf_programId m)"

definition registryConfigBytes :: "AnsDeploymentManifest \<Rightarrow> js_error + ArchAddress" where
  "registryConfigBytes m = hexToBytes (mf_registryConfig m)"

definition assertManifestConsistency :: "prims \<Rightarrow> AnsDeploymentManifest \<Rightarrow> js_error + unit" where
  "assertManifestConsistency P m =
     guardR (mf_network m = MainnetDeployment \<or> mf_mainnetEnabled m)
       (AnsError ManifestMismatch (js ''mainnet manifests are disabled until a separately approved mainnet freeze''))
    (bindR (programIdBytes m) (\<lambda>programId.
     bindR (deriveConfigAddress P programId (mf_networkId m) (mf_namespace m)) (\<lambda>expected.
     bindR (registryConfigBytes m) (\<lambda>config.
     guardR (\<not> bytesEqual expected config)
       (AnsError ManifestMismatch (js ''registryConfig does not match derived config PDA for programId/networkId/namespace''))
     (Inr ())))))"

section \<open>Properties\<close>

text \<open>A manifest passes the consistency check exactly when it is a testnet manifest with mainnet
  disabled, both identifiers are hexadecimal texts of even length, and the registry configuration is
  the address derived from program, network id and namespace.\<close>

theorem manifest_consistency_exact:
  "assertManifestConsistency P m = Inr () \<longleftrightarrow>
   mf_network m = TestnetDeployment \<and> \<not> mf_mainnetEnabled m \<and>
   (\<exists>programId config. hexToBytes (mf_programId m) = Inr programId \<and> hexToBytes (mf_registryConfig m) = Inr config \<and>
      deriveConfigAddress P programId (mf_networkId m) (mf_namespace m) = Inr config)"
  by (cases "mf_network m")
    (auto simp: assertManifestConsistency_def result_iffs programIdBytes_def registryConfigBytes_def)

end
