(* ===== verification/Catalog.thy ===== *)
theory Catalog
  imports Validate
begin

text \<open>
  The text-record catalog: \<^verbatim>\<open>records/catalog.ts\<close>. The rows of the table, the format checks of the
  known keys, and the check the profile editor runs on an entry. The URL parser of the platform is
  the parameter \<open>urlProtocol\<close>: the protocol of a text that parses, \<open>None\<close> where \<open>new URL\<close> throws.
\<close>

section \<open>The catalog (records/catalog.ts)\<close>

datatype TextRecordCategory = Crypto | Content | Social | Profile

record TextRecordSpec =
  tr_key :: js_string
  tr_label :: js_string
  tr_category :: TextRecordCategory
  tr_snsName :: js_string
  tr_description :: js_string
  tr_placeholder :: js_string
  tr_validate :: "(js_string \<Rightarrow> js_string option) option"

text \<open>The regular expression \<open>^0x[0-9a-fA-F]{40}$\<close>.\<close>

definition hexUnit :: "u16 \<Rightarrow> bool" where
  "hexUnit u \<longleftrightarrow> (48 \<le> u \<and> u \<le> 57) \<or> (97 \<le> u \<and> u \<le> 102) \<or> (65 \<le> u \<and> u \<le> 70)"

definition ethPattern :: "js_string \<Rightarrow> bool" where
  "ethPattern s \<longleftrightarrow> startsWith s (js ''0x'') \<and> length s = 42 \<and> list_all hexUnit (drop 2 s)"

definition ethAddressError :: "js_string \<Rightarrow> js_string option" where
  "ethAddressError s =
     (if \<not> ethPattern s then Some (js ''Enter a 0x-prefixed 40-hex ETH address.'') else None)"

text \<open>The regular expression \<open>^[^\s@]+@[^\s@]+\.[^\s@]+$\<close>: one \<open>@\<close>, no white space, a non-empty local
  part, and a dot strictly inside the domain.\<close>

definition mailUnit :: "u16 \<Rightarrow> bool" where
  "mailUnit u \<longleftrightarrow> \<not> isSpace u \<and> u \<noteq> 64"

definition emailPattern :: "js_string \<Rightarrow> bool" where
  "emailPattern s =
     (let local = takeWhile mailUnit s; rest = dropWhile mailUnit s in
      local \<noteq> [] \<and> rest \<noteq> [] \<and> hd rest = 64 \<and> list_all mailUnit (tl rest)
      \<and> list_ex (\<lambda>i. tl rest ! i = 46) [1 ..< length (tl rest) - 1])"

definition emailError :: "js_string \<Rightarrow> js_string option" where
  "emailError s =
     (if \<not> emailPattern s \<or> length s > 254 then Some (js ''Enter a valid email address.'') else None)"

definition urlError :: "(js_string \<Rightarrow> js_string option) \<Rightarrow> js_string \<Rightarrow> js_string option" where
  "urlError urlProtocol s =
     (case urlProtocol s of
        None \<Rightarrow> Some (js ''Enter a valid URL.'')
      | Some protocol \<Rightarrow>
          if protocol \<noteq> js ''https:'' \<and> protocol \<noteq> js ''http:''
          then Some (js ''URL must start with https:// or http://.'') else None)"

definition nonEmptyHandle :: "js_string \<Rightarrow> js_string \<Rightarrow> js_string option" where
  "nonEmptyHandle label s =
     (let trimmed = trim s in
      if trimmed = [] \<or> list_ex isSpace trimmed \<or> length trimmed > 64
      then Some (js ''Enter a valid '' @ label @ js ''.'') else None)"

definition textSpec ::
  "js_string \<Rightarrow> js_string \<Rightarrow> TextRecordCategory \<Rightarrow> js_string \<Rightarrow> js_string \<Rightarrow> js_string \<Rightarrow>
   (js_string \<Rightarrow> js_string option) option \<Rightarrow> TextRecordSpec" where
  "textSpec key label category snsName description placeholder validator =
     \<lparr>tr_key = key, tr_label = label, tr_category = category, tr_snsName = snsName,
      tr_description = description, tr_placeholder = placeholder, tr_validate = validator\<rparr>"

text \<open>U+2026 is the ellipsis of the placeholders.\<close>

definition TEXT_RECORD_CATALOG :: "(js_string \<Rightarrow> js_string option) \<Rightarrow> TextRecordSpec list" where
  "TEXT_RECORD_CATALOG urlProtocol = [
     textSpec (js ''eth'') (js ''Ethereum'') Crypto (js ''ETH'')
       (js ''EVM payment address'') (js ''0x'' @ [0x2026]) (Some ethAddressError),
     textSpec (js ''ltc'') (js ''Litecoin'') Crypto (js ''LTC'')
       (js ''Litecoin address'') (js ''ltc1'' @ [0x2026] @ js '' or L'' @ [0x2026]) (None),
     textSpec (js ''doge'') (js ''Dogecoin'') Crypto (js ''DOGE'')
       (js ''Dogecoin address'') (js ''D'' @ [0x2026]) (None),
     textSpec (js ''bsc'') (js ''BNB Smart Chain'') Crypto (js ''BSC'')
       (js ''BSC / EVM address'') (js ''0x'' @ [0x2026]) (Some ethAddressError),
     textSpec (js ''inj'') (js ''Injective'') Crypto (js ''INJ'')
       (js ''Injective / Cosmos bech32 address'') (js ''inj1'' @ [0x2026]) (None),
     textSpec (js ''ipfs'') (js ''IPFS'') Content (js ''IPFS'')
       (js ''IPFS content identifier'') (js ''ipfs://'' @ [0x2026] @ js '' or CID'') (None),
     textSpec (js ''arwv'') (js ''Arweave'') Content (js ''ARWV'')
       (js ''Arweave transaction / address'') (js ''ar://'' @ [0x2026]) (None),
     textSpec (js ''ipns'') (js ''IPNS'') Content (js ''IPNS'')
       (js ''IPNS name'') (js ''ipns://'' @ [0x2026]) (None),
     textSpec (js ''shdw'') (js ''Shadow Drive'') Content (js ''SHDW'')
       (js ''Shadow Drive address'') (js ''Shadow Drive URI'') (None),
     textSpec (js ''point'') (js ''Point Network'') Content (js ''POINT'')
       (js ''Point Network record'') (js ''Point record'') (None),
     textSpec (js ''url'') (js ''Website'') Profile (js ''url'')
       (js ''Website URL'') (js ''https://'' @ [0x2026]) (Some (urlError urlProtocol)),
     textSpec (js ''email'') (js ''Email'') Profile (js ''email'')
       (js ''Contact email'') (js ''you@example.com'') (Some emailError),
     textSpec (js ''pic'') (js ''Profile picture'') Profile (js ''pic'')
       (js ''Profile image URL or CID'') (js ''https://'' @ [0x2026] @ js '' or ipfs://'' @ [0x2026]) (None),
     textSpec (js ''discord'') (js ''Discord'') Social (js ''discord'')
       (js ''Discord username'') (js ''username'') (Some (nonEmptyHandle (js ''Discord username''))),
     textSpec (js ''twitter'') (js ''X / Twitter'') Social (js ''twitter'')
       (js ''X / Twitter handle'') (js ''@handle'') (Some (nonEmptyHandle (js ''Twitter handle''))),
     textSpec (js ''github'') (js ''GitHub'') Social (js ''github'')
       (js ''GitHub username'') (js ''username'') (Some (nonEmptyHandle (js ''GitHub username''))),
     textSpec (js ''reddit'') (js ''Reddit'') Social (js ''reddit'')
       (js ''Reddit username'') (js ''u/username'') (Some (nonEmptyHandle (js ''Reddit username''))),
     textSpec (js ''telegram'') (js ''Telegram'') Social (js ''telegram'')
       (js ''Telegram username'') (js ''@username'') (Some (nonEmptyHandle (js ''Telegram username'')))]"

definition textRecordSpec :: "(js_string \<Rightarrow> js_string option) \<Rightarrow> js_string \<Rightarrow> TextRecordSpec option" where
  "textRecordSpec urlProtocol key = find (\<lambda>row. tr_key row = key) (TEXT_RECORD_CATALOG urlProtocol)"

definition validateTextRecordInput ::
  "(js_string \<Rightarrow> js_string option) \<Rightarrow> js_string \<Rightarrow> js_string \<Rightarrow> js_string option" where
  "validateTextRecordInput urlProtocol key val =
     (case textRecordSpec urlProtocol key of
        None \<Rightarrow> Some (js ''Unknown record type.'')
      | Some spec \<Rightarrow>
          (let trimmed = trim val in
           if trimmed = [] then Some (js ''Enter a value.'')
           else (case tr_validate spec of
                   Some check \<Rightarrow> check trimmed
                 | None \<Rightarrow> if length trimmed > 256 then Some (js ''Value is too long.'') else None)))"

text \<open>\<open>features?.textRecords === true\<close>.\<close>

definition manifestSupportsTextRecords :: "bool option \<Rightarrow> bool" where
  "manifestSupportsTextRecords features \<longleftrightarrow> features = Some True"

section \<open>The catalog and the on-chain rules\<close>

lemma hexUnit_printable: "hexUnit u \<Longrightarrow> 0x20 \<le> u \<and> u \<le> 0x7e"
  by (auto simp: hexUnit_def word_le_nat_alt)

lemma ethPattern_printable:
  assumes "ethPattern s"
  shows "list_all (\<lambda>c. 0x20 \<le> c \<and> c \<le> 0x7e) s"
proof -
  have pre: "take (length (js ''0x'')) s = js ''0x''" and digits: "list_all hexUnit (drop 2 s)"
    using assms by (simp_all only: ethPattern_def startsWith_def)
  have "list_all (\<lambda>c. 0x20 \<le> c \<and> c \<le> 0x7e) (drop 2 s)"
    using digits by (rule list.pred_mono_strong) (rule hexUnit_printable)
  moreover have "list_all (\<lambda>c. 0x20 \<le> c \<and> c \<le> 0x7e) (take 2 s)"
  proof -
    have "length (js ''0x'') = 2" by (simp add: js_def)
    with pre have "take 2 s = js ''0x''" by simp
    then show ?thesis by (simp only:) (simp add: js_def)
  qed
  ultimately have "list_all (\<lambda>c. 0x20 \<le> c \<and> c \<le> 0x7e) (take 2 s @ drop 2 s)"
    unfolding list_all_append by (rule conjI [rotated])
  then show ?thesis unfolding append_take_drop_id .
qed

lemma catalog_keys_distinct: "distinct (map tr_key (TEXT_RECORD_CATALOG u))"
  by (simp add: TEXT_RECORD_CATALOG_def textSpec_def js_def)

lemma find_by_key: "distinct (map f xs) \<Longrightarrow> x \<in> set xs \<Longrightarrow> find (\<lambda>y. f y = f x) xs = Some x"
  by (induction xs) (auto simp: image_iff)

lemma textRecordSpec_row: "row \<in> set (TEXT_RECORD_CATALOG u) \<Longrightarrow> textRecordSpec u (tr_key row) = Some row"
  unfolding textRecordSpec_def by (rule find_by_key [OF catalog_keys_distinct])

lemma textRecordSpec_Some:
  "textRecordSpec u key = Some row \<Longrightarrow> row \<in> set (TEXT_RECORD_CATALOG u) \<and> tr_key row = key"
  by (auto simp: textRecordSpec_def find_Some_iff)

text \<open>The validators of the table, by row.\<close>

lemma catalog_validators:
  assumes "row \<in> set (TEXT_RECORD_CATALOG u)"
  shows "tr_validate row = None \<or> tr_validate row = Some ethAddressError \<or> tr_validate row = Some emailError
    \<or> (tr_validate row = Some (urlError u) \<and> tr_key row = js ''url'')
    \<or> (\<exists>label. tr_validate row = Some (nonEmptyHandle label))"
  using assms by (auto simp: TEXT_RECORD_CATALOG_def textSpec_def)

lemma catalog_eth_rows:
  assumes "row \<in> set (TEXT_RECORD_CATALOG u)" "tr_key row \<in> {js ''eth'', js ''bsc''}"
  shows "tr_validate row = Some ethAddressError"
  using assms by (auto simp: TEXT_RECORD_CATALOG_def textSpec_def js_def)

lemma validated_length:
  assumes "row \<in> set (TEXT_RECORD_CATALOG u)" "tr_key row \<noteq> js ''url''" "tr_validate row = Some check" "check t = None"
  shows "length t \<le> 256 \<or> trim t \<noteq> t"
  using catalog_validators [OF assms(1)] assms(2-)
  by (auto simp: ethAddressError_def emailError_def nonEmptyHandle_def ethPattern_def Let_def split: if_splits)

section \<open>Properties\<close>

text \<open>The catalog can be published: every key of the table satisfies the on-chain key rule, and
  looking a key up gives its own row.\<close>

theorem catalog_keys_publishable:
  "\<forall>row \<in> set (TEXT_RECORD_CATALOG urlProtocol).
     validateTextKey (tr_key row) = Inr () \<and> textRecordSpec urlProtocol (tr_key row) = Some row"
proof
  fix row assume row: "row \<in> set (TEXT_RECORD_CATALOG urlProtocol)"
  have "list_all (\<lambda>key. 1 \<le> length key \<and> length key \<le> 32 \<and> list_all keyUnit key)
      (map tr_key (TEXT_RECORD_CATALOG urlProtocol))"
    by (simp add: TEXT_RECORD_CATALOG_def textSpec_def js_def keyUnit_def)
  with row have "validateTextKey (tr_key row) = Inr ()"
    by (auto simp: validateTextKey_iff list_all_iff)
  with row show "validateTextKey (tr_key row) = Inr () \<and> textRecordSpec urlProtocol (tr_key row) = Some row"
    by (simp add: textRecordSpec_row)
qed

theorem catalog_keys_publishable_witness:
  "\<exists>row \<in> set (TEXT_RECORD_CATALOG (\<lambda>_. None)). tr_key row = js ''eth''
     \<and> textRecordSpec (\<lambda>_. None) (js ''eth'') = Some row"
  using catalog_keys_publishable [of "\<lambda>_. None"] by (auto simp: TEXT_RECORD_CATALOG_def textSpec_def)

text \<open>What the editor accepts: an accepted entry has a key of the table and a value that is not
  blank, and for every key but \<open>url\<close> at most 256 characters after trimming; an accepted EVM address is
  a value the registry accepts.\<close>

theorem accepted_entries:
  assumes "validateTextRecordInput urlProtocol key val = None"
  shows "textRecordSpec urlProtocol key \<noteq> None \<and> trim val \<noteq> []
    \<and> (key \<noteq> js ''url'' \<longrightarrow> length (trim val) \<le> MAX_TEXT_VALUE_LEN)
    \<and> (key \<in> {js ''eth'', js ''bsc''} \<longrightarrow> validateTextKey key = Inr () \<and> validateTextValue (trim val) = Inr ())"
proof -
  obtain row where row: "textRecordSpec urlProtocol key = Some row" "row \<in> set (TEXT_RECORD_CATALOG urlProtocol)"
      "tr_key row = key" "trim val \<noteq> []"
    using assms textRecordSpec_Some [of urlProtocol key]
    by (auto simp: validateTextRecordInput_def Let_def split: option.splits if_splits)
  have len: "length (trim val) \<le> 256" if "key \<noteq> js ''url''"
    using assms row that validated_length [OF row(2), of _ "trim val"]
    by (auto simp: validateTextRecordInput_def Let_def split: option.splits if_splits)
  have eth: "ethPattern (trim val)" if "key \<in> {js ''eth'', js ''bsc''}"
    using assms row catalog_eth_rows [OF row(2)] that
    by (auto simp: validateTextRecordInput_def Let_def ethAddressError_def split: if_splits)
  have "validateTextKey key = Inr ()" if "key \<in> {js ''eth'', js ''bsc''}"
    using that by (auto simp: validateTextKey_iff keyUnit_def js_def)
  moreover have "validateTextValue (trim val) = Inr ()" if "key \<in> {js ''eth'', js ''bsc''}"
    using eth [OF that] ethPattern_printable [OF eth [OF that]] by (simp add: validateTextValue_iff ethPattern_def)
  ultimately show ?thesis using row len by (simp add: MAX_TEXT_VALUE_LEN_def)
qed

theorem accepted_entries_witness:
  "validateTextRecordInput (\<lambda>_. None) (js ''eth'') (js '' 0x00112233445566778899aabbccddeeff00112233 '') = None
   \<and> validateTextValue (js ''0x00112233445566778899aabbccddeeff00112233'') = Inr ()"
proof -
  have t: "trim (js '' 0x00112233445566778899aabbccddeeff00112233 '') = js ''0x00112233445566778899aabbccddeeff00112233''"
    by (simp add: trim_def js_def isSpace_def)
  have "validateTextRecordInput (\<lambda>_. None) (js ''eth'') (js '' 0x00112233445566778899aabbccddeeff00112233 '') = None"
    by (simp add: validateTextRecordInput_def t textRecordSpec_def TEXT_RECORD_CATALOG_def textSpec_def)
      (simp add: ethAddressError_def ethPattern_def startsWith_def hexUnit_def js_def)
  then show ?thesis using accepted_entries [of "\<lambda>_. None" "js ''eth''" "js '' 0x00112233445566778899aabbccddeeff00112233 ''"]
    by (simp add: t)
qed

text \<open>A web address has no length limit in the editor: any trimmed address that the platform parses
  as https is accepted, and when it is longer than 256 characters the registry's own check refuses the
  same value.\<close>

theorem url_entries_unbounded:
  assumes "urlProtocol s = Some (js ''https:'')" "trim s = s" "256 < length s"
  shows "validateTextRecordInput urlProtocol (js ''url'') s = None
    \<and> validateTextValue s = Inl (ansError InvalidTextRecord)"
proof -
  have "textRecordSpec urlProtocol (js ''url'') =
    Some (textSpec (js ''url'') (js ''Website'') Profile (js ''url'') (js ''Website URL'') (js ''https://'' @ [0x2026])
      (Some (urlError urlProtocol)))"
    by (simp add: textRecordSpec_def TEXT_RECORD_CATALOG_def textSpec_def js_def)
  moreover have "s \<noteq> []" using assms(3) by auto
  ultimately show ?thesis
    using assms
    by (auto simp: validateTextRecordInput_def textSpec_def urlError_def validateTextValue_def
        MAX_TEXT_VALUE_LEN_def guardR_def)
qed

theorem url_entries_unbounded_witness:
  "validateTextRecordInput (\<lambda>_. Some (js ''https:'')) (js ''url'') (js ''https://arch.network/'' @ replicate 300 97) = None
   \<and> validateTextValue (js ''https://arch.network/'' @ replicate 300 97) = Inl (ansError InvalidTextRecord)"
  by (rule url_entries_unbounded) (auto simp: js_def isSpace_def intro!: trim_noop)

end
