(* ===== verification/Client.thy ===== *)
theory Client
  imports Complex_Main Transport Manifest Builders Availability Catalog Js_Sort
begin

text \<open>
  The client: \<^verbatim>\<open>client/ans-client.ts\<close>. The class's fields are the record \<open>AnsClient\<close>; each method is
  a function of the client, asynchronous ones into \<open>io\<close>. Reads made in parallel by \<open>Promise.all\<close> are
  \<open>allIO\<close>.
\<close>

section \<open>Construction\<close>

record ('w, 'tx) AnsClient =
  cl_manifest :: AnsDeploymentManifest
  cl_transport :: "('w, 'tx) AnsTransport"
  cl_programId :: ArchAddress
  cl_registryConfigAddress :: ArchAddress

definition newClient ::
  "prims \<Rightarrow> AnsDeploymentManifest \<Rightarrow> ('w, 'tx) AnsTransport \<Rightarrow> js_error + ('w, 'tx) AnsClient" where
  "newClient P manifest transport =
     bindR (assertManifestConsistency P manifest) (\<lambda>_.
     bindR (programIdBytes manifest) (\<lambda>programId.
     bindR (registryConfigBytes manifest) (\<lambda>config.
     Inr \<lparr>cl_manifest = manifest, cl_transport = transport, cl_programId = programId,
          cl_registryConfigAddress = config\<rparr>)))"

abbreviation cl_ns :: "('w, 'tx) AnsClient \<Rightarrow> js_string" where
  "cl_ns c \<equiv> mf_namespace (cl_manifest c)"

definition supportsTextRecords :: "('w, 'tx) AnsClient \<Rightarrow> bool" where
  "supportsTextRecords c = manifestSupportsTextRecords (mf_features (cl_manifest c))"

section \<open>Registry and names\<close>

definition fetchRegistryConfig :: "('w, 'tx) AnsClient \<Rightarrow> ('w, RegistryConfig) io" where
  "fetchRegistryConfig c =
     bindIO (readAccountInfo (cl_transport c) (cl_registryConfigAddress c)) (\<lambda>account.
     case account of
       None \<Rightarrow> throwIO (AnsError AccountNotFound (js ''registry config missing''))
     | Some info \<Rightarrow> pureIO (
         guardR (\<not> bytesEqual (ai_owner info) (cl_programId c)) (ansError IncorrectProgramId)
        (bindR (decodeRegistryConfig (ai_data info)) (\<lambda>config.
         bindR (validateHeader (rc_header config) REGISTRY_CONFIG_DISCRIMINATOR) (\<lambda>_.
         Inr config)))))"

record NameAvailabilityResult =
  nr_canonical :: js_string
  nr_availability :: NameAvailability
  nr_account :: "NameAccount option"

definition getNameAvailability ::
  "prims \<Rightarrow> ('w, 'tx) AnsClient \<Rightarrow> js_string \<Rightarrow> ('w, NameAvailabilityResult) io" where
  "getNameAvailability P c name =
     bindIO (pureIO (canonicalizeName P name)) (\<lambda>canonical.
     bindIO (pureIO (nameHash P canonical)) (\<lambda>hash.
     bindIO (pureIO (deriveNameAddress P (cl_programId c) (cl_ns c) hash)) (\<lambda>address.
     bindIO (readAccountInfo (cl_transport c) address) (\<lambda>account.
     let available = \<lparr>nr_canonical = canonical, nr_availability = Available, nr_account = None\<rparr> in
     case account of
       None \<Rightarrow> retIO available
     | Some info \<Rightarrow>
         if length (ai_data info) = 0 then retIO available
         else if \<not> bytesEqual (ai_owner info) (cl_programId c) then throwIO (ansError IncorrectProgramId)
         else (let classified = classifyNameAccountData (Some (ai_data info)) in
               retIO \<lparr>nr_canonical = canonical, nr_availability = cl_availability classified,
                      nr_account = cl_account classified\<rparr>)))))"

definition fetchNameAccount :: "prims \<Rightarrow> ('w, 'tx) AnsClient \<Rightarrow> js_string \<Rightarrow> ('w, NameAccount option) io" where
  "fetchNameAccount P c name =
     bindIO (getNameAvailability P c name) (\<lambda>status.
     case nr_availability status of
       Taken \<Rightarrow> retIO (nr_account status)
     | Available \<Rightarrow> retIO None
     | Unavailable \<Rightarrow> throwIO (AnsError UnsupportedAccountVersion
         (nr_canonical status @ js '' name account is present but not a valid registration'')))"

definition assertNameAvailable :: "prims \<Rightarrow> ('w, 'tx) AnsClient \<Rightarrow> js_string \<Rightarrow> ('w, js_string) io" where
  "assertNameAvailable P c name =
     bindIO (getNameAvailability P c name) (\<lambda>status.
     case nr_availability status of
       Taken \<Rightarrow> throwIO (duplicateRegistrationError (nr_canonical status))
     | Unavailable \<Rightarrow> throwIO (AnsError UnsupportedAccountVersion
         (nr_canonical status @ js '' cannot be registered (invalid on-chain name account)''))
     | Available \<Rightarrow> retIO (nr_canonical status))"

section \<open>Resolution\<close>

definition clientResolveOwner :: "prims \<Rightarrow> ('w, 'tx) AnsClient \<Rightarrow> js_string \<Rightarrow> ('w, ArchAddress) io" where
  "clientResolveOwner P c name =
     bindIO (fetchRegistryConfig c) (\<lambda>config.
     bindIO (pureIO (nameHash P name)) (\<lambda>hash.
     bindIO (pureIO (deriveNameAddress P (cl_programId c) (cl_ns c) hash)) (\<lambda>address.
     bindIO (readAccountInfo (cl_transport c) address) (\<lambda>account.
     case account of
       None \<Rightarrow> throwIO (AnsError AccountNotFound (js ''name account for '' @ name))
     | Some info \<Rightarrow>
         bindIO (getCurrentSlot (cl_transport c)) (\<lambda>slot.
         pureIO (bindR (decodeNameAccount (ai_data info)) (\<lambda>state.
           resolveOwner P (cl_programId c)
             \<lparr>at_address = cl_registryConfigAddress c, at_state = config\<rparr> name
             \<lparr>at_address = address, at_state = state\<rparr> slot)))))))"

definition clientResolveRecord ::
  "prims \<Rightarrow> ('w, 'tx) AnsClient \<Rightarrow> js_string \<Rightarrow> RecordType \<Rightarrow> js_string option \<Rightarrow> ('w, RecordValue) io" where
  "clientResolveRecord P c name rtype textKey =
     bindIO (fetchRegistryConfig c) (\<lambda>config.
     bindIO (pureIO (nameHash P name)) (\<lambda>hash.
     bindIO (pureIO (deriveNameAddress P (cl_programId c) (cl_ns c) hash)) (\<lambda>nameAddress.
     bindIO (pureIO (deriveRecordAddressFor P (cl_programId c) (cl_ns c) hash rtype textKey)) (\<lambda>recordAddress.
     bindIO (allIO [readAccountInfo (cl_transport c) nameAddress, readAccountInfo (cl_transport c) recordAddress])
       (\<lambda>accounts.
     case accounts ! 0 of
       None \<Rightarrow> throwIO (AnsError AccountNotFound (js ''name account for '' @ name))
     | Some nameInfo \<Rightarrow>
         (case accounts ! 1 of
            None \<Rightarrow> throwIO (AnsError AccountNotFound (js ''record account for '' @ name))
          | Some recordInfo \<Rightarrow>
              bindIO (getCurrentSlot (cl_transport c)) (\<lambda>slot.
              pureIO (bindR (decodeNameAccount (ai_data nameInfo)) (\<lambda>nameState.
                bindR (decodeRecordAccount (ai_data recordInfo)) (\<lambda>recordState.
                resolveRecord P (cl_programId c)
                  \<lparr>at_address = cl_registryConfigAddress c, at_state = config\<rparr> name
                  \<lparr>at_address = nameAddress, at_state = nameState\<rparr>
                  \<lparr>at_address = recordAddress, at_state = recordState\<rparr> rtype slot textKey)))))))))) "

text \<open>\<open>error instanceof AnsError && error.code === "InvalidReverseBinding"\<close>.\<close>

fun isReverseBindingError :: "js_error \<Rightarrow> bool" where
  "isReverseBindingError (AnsError code _) = (code = InvalidReverseBinding)"
| "isReverseBindingError _ = False"

definition unlessReverseBinding :: "js_error + 'a \<Rightarrow> js_error + 'a option" where
  "unlessReverseBinding r =
     (case r of Inr a \<Rightarrow> Inr (Some a) | Inl e \<Rightarrow> if isReverseBindingError e then Inr None else Inl e)"

definition clientResolvePrimary :: "prims \<Rightarrow> ('w, 'tx) AnsClient \<Rightarrow> ArchAddress \<Rightarrow> ('w, js_string option) io" where
  "clientResolvePrimary P c owner =
     bindIO (fetchRegistryConfig c) (\<lambda>config.
     bindIO (pureIO (deriveReverseAddress P (cl_programId c) (cl_ns c) owner)) (\<lambda>reverseAddress.
     bindIO (readAccountInfo (cl_transport c) reverseAddress) (\<lambda>reverseAccount.
     case reverseAccount of
       None \<Rightarrow> retIO None
     | Some reverseInfo \<Rightarrow>
         if length (ai_data reverseInfo) = 0 then retIO None
         else
           bindIO (pureIO (decodeReverseAccount (ai_data reverseInfo))) (\<lambda>reverse.
           bindIO (pureIO (validateHeader (rv_header reverse) REVERSE_ACCOUNT_DISCRIMINATOR)) (\<lambda>_.
           bindIO (pureIO (deriveNameAddress P (cl_programId c) (cl_ns c) (rv_primaryNameHash reverse))) (\<lambda>nameAddress.
           bindIO (readAccountInfo (cl_transport c) nameAddress) (\<lambda>nameAccount.
           case nameAccount of
             None \<Rightarrow> retIO None
           | Some nameInfo \<Rightarrow>
               bindIO (getCurrentSlot (cl_transport c)) (\<lambda>slot.
               pureIO (unlessReverseBinding (
                 bindR (decodeNameAccount (ai_data nameInfo)) (\<lambda>nameState.
                 resolvePrimary P (cl_programId c)
                   \<lparr>at_address = cl_registryConfigAddress c, at_state = config\<rparr>
                   \<lparr>at_address = reverseAddress, at_state = reverse\<rparr>
                   \<lparr>at_address = nameAddress, at_state = nameState\<rparr> slot)))))))))))"

section \<open>Single accounts\<close>

text \<open>\<open>!account || account.data.length === 0\<close>.\<close>

definition present :: "AccountInfo option \<Rightarrow> AccountInfo option" where
  "present account = (case account of None \<Rightarrow> None | Some i \<Rightarrow> if length (ai_data i) = 0 then None else Some i)"

definition fetchRecord ::
  "prims \<Rightarrow> ('w, 'tx) AnsClient \<Rightarrow> js_string \<Rightarrow> RecordType \<Rightarrow> js_string option \<Rightarrow> ('w, RecordAccount option) io" where
  "fetchRecord P c name rtype textKey =
     bindIO (pureIO (nameHash P name)) (\<lambda>hash.
     bindIO (pureIO (deriveRecordAddressFor P (cl_programId c) (cl_ns c) hash rtype textKey)) (\<lambda>address.
     bindIO (readAccountInfo (cl_transport c) address) (\<lambda>account.
     case present account of
       None \<Rightarrow> retIO None
     | Some info \<Rightarrow> pureIO (bindR (decodeRecordAccount (ai_data info)) (\<lambda>decoded.
         bindR (validateHeader (ra_header decoded) RECORD_ACCOUNT_DISCRIMINATOR) (\<lambda>_. Inr (Some decoded)))))))"

definition fetchReverse :: "prims \<Rightarrow> ('w, 'tx) AnsClient \<Rightarrow> ArchAddress \<Rightarrow> ('w, ReverseAccount option) io" where
  "fetchReverse P c owner =
     bindIO (pureIO (deriveReverseAddress P (cl_programId c) (cl_ns c) owner)) (\<lambda>address.
     bindIO (readAccountInfo (cl_transport c) address) (\<lambda>account.
     case present account of
       None \<Rightarrow> retIO None
     | Some info \<Rightarrow> pureIO (bindR (decodeReverseAccount (ai_data info)) (\<lambda>decoded.
         bindR (validateHeader (rv_header decoded) REVERSE_ACCOUNT_DISCRIMINATOR) (\<lambda>_. Inr (Some decoded))))))"

text \<open>\<open>try { decode; validateHeader; if (!active) return null; return it } catch { return null }\<close>.\<close>

definition activeListing :: "bytes \<Rightarrow> ListingAccount option" where
  "activeListing data =
     (case bindR (decodeListingAccount data) (\<lambda>l.
             bindR (validateHeader (la_header l) LISTING_ACCOUNT_DISCRIMINATOR) (\<lambda>_. Inr l)) of
        Inr l \<Rightarrow> if \<not> la_active l then None else Some l
      | Inl _ \<Rightarrow> None)"

definition activeOffer :: "bytes \<Rightarrow> OfferAccount option" where
  "activeOffer data =
     (case bindR (decodeOfferAccount data) (\<lambda>q.
             bindR (validateHeader (oa_header q) OFFER_ACCOUNT_DISCRIMINATOR) (\<lambda>_. Inr q)) of
        Inr q \<Rightarrow> if \<not> oa_active q then None else Some q
      | Inl _ \<Rightarrow> None)"

definition fetchListing :: "prims \<Rightarrow> ('w, 'tx) AnsClient \<Rightarrow> js_string \<Rightarrow> ('w, ListingAccount option) io" where
  "fetchListing P c name =
     bindIO (pureIO (bindR (canonicalizeName P name) (nameHash P))) (\<lambda>hash.
     bindIO (pureIO (deriveListingAddress P (cl_programId c) (cl_ns c) hash)) (\<lambda>address.
     bindIO (readAccountInfo (cl_transport c) address) (\<lambda>info.
     case present info of None \<Rightarrow> retIO None | Some i \<Rightarrow> retIO (activeListing (ai_data i)))))"

definition fetchOffer :: "prims \<Rightarrow> ('w, 'tx) AnsClient \<Rightarrow> js_string \<Rightarrow> ArchAddress \<Rightarrow> ('w, OfferAccount option) io" where
  "fetchOffer P c name buyer =
     bindIO (pureIO (bindR (canonicalizeName P name) (nameHash P))) (\<lambda>hash.
     bindIO (pureIO (deriveOfferAddress P (cl_programId c) (cl_ns c) hash buyer)) (\<lambda>address.
     bindIO (readAccountInfo (cl_transport c) address) (\<lambda>info.
     case present info of None \<Rightarrow> retIO None | Some i \<Rightarrow> retIO (activeOffer (ai_data i)))))"

section \<open>Scans\<close>

record NamedAccount =
  ne_name :: js_string
  ne_account :: NameAccount

definition noScanError :: js_error where
  "noScanError = AnsError CodecError (js ''transport does not support getProgramAccounts'')"

text \<open>The loop body of \<open>listNameAccounts\<close>: what it pushes for an entry, nothing on \<open>continue\<close> or on an
  exception.\<close>

definition nameEntry :: "prims \<Rightarrow> ('w, 'tx) AnsClient \<Rightarrow> ProgramAccountEntry \<Rightarrow> NamedAccount option" where
  "nameEntry P c entry =
     (if \<not> bytesEqual (ai_owner (pe_account entry)) (cl_programId c) then None
      else
        (case bindR (decodeNameAccount (ai_data (pe_account entry))) (\<lambda>account.
              bindR (validateHeader (na_header account) NAME_ACCOUNT_DISCRIMINATOR) (\<lambda>_.
              bindR (canonicalizeName P (na_canonicalLabel account @ js ''.arch'')) (\<lambda>name.
              bindR (deriveNameAddress P (cl_programId c) (cl_ns c) (na_nameHash account)) (\<lambda>expected.
              Inr (if \<not> bytesEqual expected (pe_pubkey entry) then None
                   else Some \<lparr>ne_name = name, ne_account = account\<rparr>))))) of
           Inr r \<Rightarrow> r
         | Inl _ \<Rightarrow> None))"

definition listNameAccounts :: "prims \<Rightarrow> ('w, 'tx) AnsClient \<Rightarrow> ('w, NamedAccount list) io" where
  "listNameAccounts P c =
     (case getProgramAccounts (cl_transport c) of
        None \<Rightarrow> throwIO noScanError
      | Some gpa \<Rightarrow>
          bindIO (gpa (cl_programId c) [DataContent 0 NAME_ACCOUNT_DISCRIMINATOR]) (\<lambda>entries.
          retIO (List.map_filter (nameEntry P c) entries)))"

definition listOwnedNames :: "prims \<Rightarrow> ('w, 'tx) AnsClient \<Rightarrow> ArchAddress \<Rightarrow> ('w, NamedAccount list) io" where
  "listOwnedNames P c owner =
     bindIO (listNameAccounts P c) (\<lambda>names.
     retIO (filter (\<lambda>entry. bytesEqual (na_owner (ne_account entry)) owner) names))"

definition offerEntry :: "prims \<Rightarrow> ('w, 'tx) AnsClient \<Rightarrow> bytes \<Rightarrow> ProgramAccountEntry \<Rightarrow> OfferAccount option" where
  "offerEntry P c hash entry =
     (if \<not> bytesEqual (ai_owner (pe_account entry)) (cl_programId c) then None
      else
        (case bindR (decodeOfferAccount (ai_data (pe_account entry))) (\<lambda>offer.
              bindR (validateHeader (oa_header offer) OFFER_ACCOUNT_DISCRIMINATOR) (\<lambda>_.
              if \<not> oa_active offer then Inr None
              else if \<not> bytesEqual (oa_nameHash offer) hash then Inr None
              else
                bindR (deriveOfferAddress P (cl_programId c) (cl_ns c) hash (oa_buyer offer)) (\<lambda>expected.
                Inr (if \<not> bytesEqual expected (pe_pubkey entry) then None else Some offer)))) of
           Inr r \<Rightarrow> r
         | Inl _ \<Rightarrow> None))"

definition listOffersForName :: "prims \<Rightarrow> ('w, 'tx) AnsClient \<Rightarrow> js_string \<Rightarrow> ('w, OfferAccount list) io" where
  "listOffersForName P c name =
     (case getProgramAccounts (cl_transport c) of
        None \<Rightarrow> throwIO noScanError
      | Some gpa \<Rightarrow>
          bindIO (pureIO (bindR (canonicalizeName P name) (nameHash P))) (\<lambda>hash.
          bindIO (gpa (cl_programId c) [DataContent 0 OFFER_ACCOUNT_DISCRIMINATOR, DataContent 11 hash]) (\<lambda>entries.
          retIO (List.map_filter (offerEntry P c hash) entries))))"

record NamedListing =
  nl_name :: js_string
  nl_listing :: ListingAccount

text \<open>\<open>new Map(pairs)\<close>: a later pair with the same key overwrites an earlier one.\<close>

definition jsMap :: "('k \<times> 'v) list \<Rightarrow> 'k \<rightharpoonup> 'v" where
  "jsMap kvs = foldl (\<lambda>m (k, v). m(k \<mapsto> v)) Map.empty kvs"

definition listingEntry ::
  "prims \<Rightarrow> ('w, 'tx) AnsClient \<Rightarrow> (js_string \<rightharpoonup> js_string) \<Rightarrow> ProgramAccountEntry \<Rightarrow> NamedListing option" where
  "listingEntry P c byHash entry =
     (if \<not> bytesEqual (ai_owner (pe_account entry)) (cl_programId c) then None
      else
        (case bindR (decodeListingAccount (ai_data (pe_account entry))) (\<lambda>listing.
              bindR (validateHeader (la_header listing) LISTING_ACCOUNT_DISCRIMINATOR) (\<lambda>_.
              if \<not> la_active listing then Inr None
              else
                bindR (deriveListingAddress P (cl_programId c) (cl_ns c) (la_nameHash listing)) (\<lambda>expected.
                if \<not> bytesEqual expected (pe_pubkey entry) then Inr None
                else (case byHash (bytesToHex (la_nameHash listing)) of
                        None \<Rightarrow> Inr None
                      | Some name \<Rightarrow>
                          if name = [] then Inr None
                          else Inr (Some \<lparr>nl_name = name, nl_listing = listing\<rparr>))))) of
           Inr r \<Rightarrow> r
         | Inl _ \<Rightarrow> None))"

definition listActiveListings :: "prims \<Rightarrow> ('w, 'tx) AnsClient \<Rightarrow> ('w, NamedListing list) io" where
  "listActiveListings P c =
     (case getProgramAccounts (cl_transport c) of
        None \<Rightarrow> throwIO noScanError
      | Some gpa \<Rightarrow>
          bindIO (gpa (cl_programId c) [DataContent 0 LISTING_ACCOUNT_DISCRIMINATOR]) (\<lambda>entries.
          bindIO (listNameAccounts P c) (\<lambda>names.
          let byHash = jsMap (map (\<lambda>e. (bytesToHex (na_nameHash (ne_account e)), ne_name e)) names) in
          retIO (List.map_filter (listingEntry P c byHash) entries))))"

section \<open>Recent names\<close>

text \<open>The comparator; \<open>-1\<close> puts the first argument first.\<close>

definition compareRecent :: "NamedAccount \<Rightarrow> NamedAccount \<Rightarrow> int" where
  "compareRecent a b =
     (if na_registeredAtSlot (ne_account a) = na_registeredAtSlot (ne_account b) then
        (if textLess (ne_name b) (ne_name a) then -1 else if textLess (ne_name a) (ne_name b) then 1 else 0)
      else if na_registeredAtSlot (ne_account a) > na_registeredAtSlot (ne_account b) then -1 else 1)"

text \<open>A JavaScript number: \<open>None\<close> when it is not finite.\<close>

definition selectRecentNames :: "NamedAccount list \<Rightarrow> rat option \<Rightarrow> NamedAccount list" where
  "selectRecentNames entries limit =
     (let capped = (case limit of Some l \<Rightarrow> max 0 \<lfloor>l\<rfloor> | None \<Rightarrow> 0) in
      take (nat capped) (sortBy compareRecent entries))"

definition listRecentNames :: "prims \<Rightarrow> ('w, 'tx) AnsClient \<Rightarrow> rat option \<Rightarrow> ('w, NamedAccount list) io" where
  "listRecentNames P c limit =
     bindIO (listNameAccounts P c) (\<lambda>names. retIO (selectRecentNames names limit))"

section \<open>Profiles\<close>

record NameProfile =
  np_nameAccount :: "NameAccount option"
  np_archOwner :: "RecordAccount option"
  np_taproot :: "RecordAccount option"
  np_textByKey :: "js_string \<rightharpoonup> RecordAccount option"
  np_primaryName :: "js_string option"

text \<open>\<open>accounts[i] ?? null\<close>.\<close>

definition accountAt :: "AccountInfo option list \<Rightarrow> nat \<Rightarrow> AccountInfo option" where
  "accountAt accounts i = (case js_at accounts i of Some a \<Rightarrow> a | None \<Rightarrow> None)"

definition decodeRecord :: "AccountInfo option \<Rightarrow> RecordAccount option" where
  "decodeRecord raw =
     (case present raw of
        None \<Rightarrow> None
      | Some i \<Rightarrow>
          (case bindR (decodeRecordAccount (ai_data i)) (\<lambda>decoded.
                  bindR (validateHeader (ra_header decoded) RECORD_ACCOUNT_DISCRIMINATOR) (\<lambda>_. Inr decoded)) of
             Inr decoded \<Rightarrow> Some decoded
           | Inl _ \<Rightarrow> None))"

text \<open>The addresses of one profile, in the order in which they are read.\<close>

record profile_addresses =
  pa_hash :: bytes
  pa_name :: ArchAddress
  pa_archOwner :: ArchAddress
  pa_taproot :: ArchAddress
  pa_texts :: "ArchAddress list"
  pa_reverse :: "ArchAddress option"

definition profileAddresses ::
  "prims \<Rightarrow> ('w, 'tx) AnsClient \<Rightarrow> js_string \<Rightarrow> js_string list \<Rightarrow> ArchAddress option \<Rightarrow> js_error + profile_addresses" where
  "profileAddresses P c name textKeys primaryOwner =
     bindR (canonicalizeName P name) (\<lambda>canonical.
     bindR (nameHash P canonical) (\<lambda>hash.
     bindR (deriveNameAddress P (cl_programId c) (cl_ns c) hash) (\<lambda>nameAddress.
     bindR (deriveRecordAddressFor P (cl_programId c) (cl_ns c) hash ArchOwnerT None) (\<lambda>archOwnerAddress.
     bindR (deriveRecordAddressFor P (cl_programId c) (cl_ns c) hash BitcoinTaprootT None) (\<lambda>taprootAddress.
     bindR (mapR (\<lambda>key. deriveRecordAddressFor P (cl_programId c) (cl_ns c) hash TextT (Some key)) textKeys) (\<lambda>textAddresses.
     bindR (case primaryOwner of
              None \<Rightarrow> Inr None
            | Some owner \<Rightarrow> bindR (deriveReverseAddress P (cl_programId c) (cl_ns c) owner) (\<lambda>a. Inr (Some a))) (\<lambda>reverseAddress.
     Inr \<lparr>pa_hash = hash, pa_name = nameAddress, pa_archOwner = archOwnerAddress, pa_taproot = taprootAddress,
          pa_texts = textAddresses, pa_reverse = reverseAddress\<rparr>)))))))"

definition addressList :: "profile_addresses \<Rightarrow> ArchAddress list" where
  "addressList a = [pa_name a, pa_archOwner a, pa_taproot a] @ pa_texts a @
     (case pa_reverse a of None \<Rightarrow> [] | Some r \<Rightarrow> [r])"

definition readAccounts :: "('w, 'tx) AnsClient \<Rightarrow> ArchAddress list \<Rightarrow> ('w, AccountInfo option list) io" where
  "readAccounts c addresses =
     (case getMultipleAccounts (cl_transport c) of
        Some batch \<Rightarrow> batch addresses
      | None \<Rightarrow> allIO (map (readAccountInfo (cl_transport c)) addresses))"

definition profileName :: "('w, 'tx) AnsClient \<Rightarrow> AccountInfo option \<Rightarrow> js_error + NameAccount option" where
  "profileName c nameRaw =
     (case present nameRaw of
        None \<Rightarrow> Inr None
      | Some i \<Rightarrow>
          guardR (\<not> bytesEqual (ai_owner i) (cl_programId c)) (ansError IncorrectProgramId)
         (bindR (decodeNameAccount (ai_data i)) (\<lambda>decoded.
          bindR (validateHeader (na_header decoded) NAME_ACCOUNT_DISCRIMINATOR) (\<lambda>_.
          Inr (Some decoded)))))"

text \<open>The body of the \<open>try\<close> that resolves the primary name from the reverse account.\<close>

definition profilePrimary ::
  "prims \<Rightarrow> ('w, 'tx) AnsClient \<Rightarrow> profile_addresses \<Rightarrow> AccountInfo option \<Rightarrow> ArchAddress \<Rightarrow> AccountInfo \<Rightarrow>
   ('w, js_string option) io" where
  "profilePrimary P c addrs nameRaw reverseAddress reverseRaw =
     bindIO (pureIO (decodeReverseAccount (ai_data reverseRaw))) (\<lambda>reverse.
     bindIO (pureIO (validateHeader (rv_header reverse) REVERSE_ACCOUNT_DISCRIMINATOR)) (\<lambda>_.
     bindIO (pureIO (deriveNameAddress P (cl_programId c) (cl_ns c) (rv_primaryNameHash reverse))) (\<lambda>primaryNameAddress.
     bindIO (case (if bytesEqual primaryNameAddress (pa_name addrs) then nameRaw else None) of
               Some i \<Rightarrow> retIO (Some i)
             | None \<Rightarrow> readAccountInfo (cl_transport c) primaryNameAddress) (\<lambda>primaryNameRaw.
     case present primaryNameRaw of
       None \<Rightarrow> retIO None
     | Some i \<Rightarrow>
         bindIO (fetchRegistryConfig c) (\<lambda>config.
         bindIO (getCurrentSlot (cl_transport c)) (\<lambda>slot.
         pureIO (bindR (decodeNameAccount (ai_data i)) (\<lambda>nameState.
           bindR (resolvePrimary P (cl_programId c)
             \<lparr>at_address = cl_registryConfigAddress c, at_state = config\<rparr>
             \<lparr>at_address = reverseAddress, at_state = reverse\<rparr>
             \<lparr>at_address = primaryNameAddress, at_state = nameState\<rparr> slot) (\<lambda>n. Inr (Some n)))))))))) "

definition fetchNameProfile ::
  "prims \<Rightarrow> ('w, 'tx) AnsClient \<Rightarrow> js_string \<Rightarrow> js_string list option \<Rightarrow> ArchAddress option \<Rightarrow> ('w, NameProfile) io" where
  "fetchNameProfile P c name textKeysOption primaryOwner =
     (let textKeys = (case textKeysOption of Some ks \<Rightarrow> ks | None \<Rightarrow> []) in
     bindIO (pureIO (profileAddresses P c name textKeys primaryOwner)) (\<lambda>addrs.
     bindIO (readAccounts c (addressList addrs)) (\<lambda>accounts.
     let nameRaw = accountAt accounts 0 in
     bindIO (pureIO (profileName c nameRaw)) (\<lambda>nameAccount.
     let archOwner = decodeRecord (accountAt accounts 1);
         taproot = decodeRecord (accountAt accounts 2);
         textByKey = jsMap (map (\<lambda>(i, key). (key, decodeRecord (accountAt accounts (3 + i)))) (enumerate 0 textKeys)) in
     bindIO (case pa_reverse addrs of
               None \<Rightarrow> retIO None
             | Some reverseAddress \<Rightarrow>
                 (case present (accountAt accounts (3 + length textKeys)) of
                    None \<Rightarrow> retIO None
                  | Some reverseRaw \<Rightarrow>
                      catchIO (profilePrimary P c addrs nameRaw reverseAddress reverseRaw)
                        (\<lambda>e. if isReverseBindingError e then retIO None else throwIO e))) (\<lambda>primaryName.
     retIO \<lparr>np_nameAccount = nameAccount, np_archOwner = archOwner, np_taproot = taproot,
            np_textByKey = textByKey, np_primaryName = primaryName\<rparr>)))))"

section \<open>Builders of the client\<close>

definition clientCtx :: "('w, 'tx) AnsClient \<Rightarrow> ArchAddress \<Rightarrow> build_ctx" where
  "clientCtx c wallet = \<lparr>bx_program = cl_programId c, bx_wallet = wallet,
     bx_config = cl_registryConfigAddress c, bx_ns = cl_ns c\<rparr>"

definition buildRegister :: "prims \<Rightarrow> ('w, 'tx) AnsClient \<Rightarrow> ArchAddress \<Rightarrow> js_string \<Rightarrow> js_error + BuiltInstruction" where
  "buildRegister P c owner label =
     buildRegisterInstruction P (cl_programId c) owner (cl_registryConfigAddress c) (cl_ns c) label None"

definition buildTransfer ::
  "prims \<Rightarrow> ('w, 'tx) AnsClient \<Rightarrow> ArchAddress \<Rightarrow> js_string \<Rightarrow> ArchAddress \<Rightarrow> js_error + BuiltInstruction" where
  "buildTransfer P c owner name newOwner =
     buildTransferInstruction P (cl_programId c) owner (cl_registryConfigAddress c) (cl_ns c) name newOwner"

definition buildListName ::
  "prims \<Rightarrow> ('w, 'tx) AnsClient \<Rightarrow> ArchAddress \<Rightarrow> js_string \<Rightarrow> QuoteCurrency \<Rightarrow> int \<Rightarrow> js_error + BuiltInstruction" where
  "buildListName P c seller name currency price =
     buildListNameInstruction P (cl_programId c) seller (cl_registryConfigAddress c) (cl_ns c) name currency price"

definition buildCancelListing ::
  "prims \<Rightarrow> ('w, 'tx) AnsClient \<Rightarrow> ArchAddress \<Rightarrow> js_string \<Rightarrow> js_error + BuiltInstruction" where
  "buildCancelListing P c seller name =
     buildCancelListingInstruction P (cl_programId c) seller (cl_registryConfigAddress c) (cl_ns c) name"

definition buildBuyName ::
  "prims \<Rightarrow> ('w, 'tx) AnsClient \<Rightarrow> ArchAddress \<Rightarrow> ArchAddress \<Rightarrow> js_string \<Rightarrow> QuoteCurrency \<Rightarrow>
   (ArchAddress \<times> ArchAddress) option \<Rightarrow> js_error + BuiltInstruction" where
  "buildBuyName P c buyer seller name currency tokenAccounts =
     buildBuyNameInstruction P (cl_programId c) buyer seller (cl_registryConfigAddress c) (cl_ns c) name currency
       (map_option fst tokenAccounts) (map_option snd tokenAccounts)"

definition buildMakeOffer ::
  "prims \<Rightarrow> ('w, 'tx) AnsClient \<Rightarrow> ArchAddress \<Rightarrow> js_string \<Rightarrow> QuoteCurrency \<Rightarrow> int \<Rightarrow> js_error + BuiltInstruction" where
  "buildMakeOffer P c buyer name currency price =
     buildMakeOfferInstruction P (cl_programId c) buyer (cl_registryConfigAddress c) (cl_ns c) name currency price"

definition buildCancelOffer ::
  "prims \<Rightarrow> ('w, 'tx) AnsClient \<Rightarrow> ArchAddress \<Rightarrow> js_string \<Rightarrow> js_error + BuiltInstruction" where
  "buildCancelOffer P c buyer name =
     buildCancelOfferInstruction P (cl_programId c) buyer (cl_registryConfigAddress c) (cl_ns c) name"

definition buildAcceptOffer ::
  "prims \<Rightarrow> ('w, 'tx) AnsClient \<Rightarrow> ArchAddress \<Rightarrow> ArchAddress \<Rightarrow> js_string \<Rightarrow> QuoteCurrency \<Rightarrow>
   (ArchAddress \<times> ArchAddress) option \<Rightarrow> js_error + BuiltInstruction" where
  "buildAcceptOffer P c seller buyer name currency tokenAccounts =
     buildAcceptOfferInstruction P (cl_programId c) seller buyer (cl_registryConfigAddress c) (cl_ns c) name currency
       (map_option fst tokenAccounts) (map_option snd tokenAccounts)"

definition buildSetRecord ::
  "prims \<Rightarrow> ('w, 'tx) AnsClient \<Rightarrow> ArchAddress \<Rightarrow> js_string \<Rightarrow> RecordType \<Rightarrow> RecordValue \<Rightarrow> int \<Rightarrow>
   js_error + BuiltInstruction" where
  "buildSetRecord P c owner name rtype val expectedRevision =
     buildSetRecordInstruction P (cl_programId c) owner (cl_registryConfigAddress c) (cl_ns c) name rtype val expectedRevision"

definition buildDeleteRecord ::
  "prims \<Rightarrow> ('w, 'tx) AnsClient \<Rightarrow> ArchAddress \<Rightarrow> js_string \<Rightarrow> RecordType \<Rightarrow> int \<Rightarrow> js_string option \<Rightarrow>
   js_error + BuiltInstruction" where
  "buildDeleteRecord P c owner name rtype expectedRevision textKey =
     buildDeleteRecordInstruction P (cl_programId c) owner (cl_registryConfigAddress c) (cl_ns c) name rtype textKey expectedRevision"

definition buildSetPrimary ::
  "prims \<Rightarrow> ('w, 'tx) AnsClient \<Rightarrow> ArchAddress \<Rightarrow> js_string \<Rightarrow> js_error + BuiltInstruction" where
  "buildSetPrimary P c owner name =
     buildSetPrimaryInstruction P (cl_programId c) owner (cl_registryConfigAddress c) (cl_ns c) name"

definition buildClearPrimary :: "prims \<Rightarrow> ('w, 'tx) AnsClient \<Rightarrow> ArchAddress \<Rightarrow> js_error + BuiltInstruction" where
  "buildClearPrimary P c owner = buildClearPrimaryInstruction P (cl_programId c) owner (cl_ns c)"

definition ownerHex :: "ArchAddress \<Rightarrow> js_string" where
  "ownerHex owner = bytesToHex owner"

end
