(* ===== verification/Registry_Activity.thy ===== *)
theory Registry_Activity
  imports Explorer_Rows Client
begin

text \<open>
  The activity feeds: \<^verbatim>\<open>name-activity.ts\<close> and \<^verbatim>\<open>registry-activity.ts\<close> of the manager. The timeline that the page loop
  accumulates is compared with its definition over the list of all events that were read: one registration per name,
  its newest; and the order of names by registration puts every dated name before every undated one.
\<close>

section \<open>Activity of one name (name-activity.ts)\<close>

record NameActivityItem =
  ni_txid :: js_string
  ni_createdAt :: "js_string option"
  ni_blockHeight :: "jsnum option"
  ni_action :: "ActivityAction option"
  ni_failed :: bool

definition actionFromExplorerRow :: "prims \<Rightarrow> base58 \<Rightarrow> jsval \<Rightarrow> js_string \<Rightarrow> js_error + ActivityAction option" where
  "actionFromExplorerRow P B row programIdHex =
     bindR (ansInstructionPayloads P row programIdHex) (\<lambda>payloads.
     Inr (Option.bind (find (\<lambda>payload. describeInstructionData B payload \<noteq> None) payloads) (describeInstructionData B)))"

definition asActivityItem :: "prims \<Rightarrow> base58 \<Rightarrow> js_string \<Rightarrow> jsval \<Rightarrow> js_error + NameActivityItem option" where
  "asActivityItem P B programIdHex row =
     bindR (field row (js ''txid'')) (\<lambda>txid.
     case txid of
       Str s \<Rightarrow>
         if s = [] then Inr None
         else bindR (explorerCreatedAt row) (\<lambda>createdAt.
              bindR (explorerBlockHeight row) (\<lambda>blockHeight.
              bindR (actionFromExplorerRow P B row programIdHex) (\<lambda>action.
              Inr (Some \<lparr>ni_txid = s, ni_createdAt = createdAt, ni_blockHeight = blockHeight, ni_action = action,
                ni_failed = isFailedStatus P (optField row (js ''status''))\<rparr>))))
     | _ \<Rightarrow> Inr None)"

definition normalizeNameAccountAddress :: "base58 \<Rightarrow> js_string \<Rightarrow> js_error + js_string" where
  "normalizeNameAccountAddress B nameAccountBase58OrHex =
     bindR (decodeArchAddress B (trim nameAccountBase58OrHex)) (\<lambda>key. Inr (b58_encode B key))"

definition nameAccountAddressFor :: "prims \<Rightarrow> base58 \<Rightarrow> ('w, 'tx) AnsClient \<Rightarrow> js_string \<Rightarrow> js_error + js_string" where
  "nameAccountAddressFor P B client name =
     bindR (canonicalizeName P name) (\<lambda>canonical.
     bindR (nameHash P canonical) (\<lambda>hash.
     bindR (deriveNameAddress P (cl_programId client) (mf_namespace (cl_manifest client)) hash) (\<lambda>address.
     Inr (b58_encode B address))))"

definition fetchNameActivity ::
  "prims \<Rightarrow> base58 \<Rightarrow> 'w feed_host \<Rightarrow> js_string \<Rightarrow> rat \<Rightarrow> ('w, NameActivityItem list) io" where
  "fetchNameActivity P B H nameAccountBase58OrHex limit =
     bindIO (pureIO (normalizeNameAccountAddress B nameAccountBase58OrHex)) (\<lambda>address.
     if address = [] then retIO []
     else bindIO (fetchTransactionRows H address
            \<lparr>fo_limit = Some limit, fo_page = None, fo_context = Some (js ''name activity'')\<rparr>) (\<lambda>rows.
          let programIdHex = toLowerCase (unicodeLower P) (mf_programId loadTestnetManifest) in
          pureIO (bindR (mapR (asActivityItem P B programIdHex) rows) (\<lambda>items. Inr (List.map_filter (\<lambda>item. item) items)))))"

definition fetchActivityForName ::
  "prims \<Rightarrow> base58 \<Rightarrow> 'w feed_host \<Rightarrow> ('v, 'tx) AnsClient \<Rightarrow> js_string \<Rightarrow> rat \<Rightarrow> ('w, NameActivityItem list) io" where
  "fetchActivityForName P B H client canonical limit =
     bindIO (pureIO (nameAccountAddressFor P B client canonical)) (\<lambda>address. fetchNameActivity P B H address limit)"

section \<open>The registry's timeline (registry-activity.ts)\<close>

record RegistrationEvent =
  re_name :: js_string
  re_txid :: js_string
  re_createdAt :: "js_string option"
  re_at :: "rat option"

record RegistryTimeline =
  tl_registrations :: "RegistrationEvent list"
  tl_registeredAtByName :: "js_string \<rightharpoonup> rat"
  tl_listedAtByNameHash :: "js_string \<rightharpoonup> rat"

definition DEFAULT_PAGES :: rat where "DEFAULT_PAGES = 2"

definition PAGE_SIZE :: nat where "PAGE_SIZE = 100"

definition toEpochMs :: "'w feed_host \<Rightarrow> js_string option \<Rightarrow> rat option" where
  "toEpochMs H createdAt =
     (case truthyText createdAt of
        None \<Rightarrow> None
      | Some s \<Rightarrow> (case fh_parseDate H s of Fin parsed \<Rightarrow> Some parsed | _ \<Rightarrow> None))"

definition programAccountAddress :: "base58 \<Rightarrow> js_error + js_string" where
  "programAccountAddress B =
     bindR (decodeArchAddress B (mf_programId loadTestnetManifest)) (\<lambda>key. Inr (b58_encode B key))"

definition EMPTY_REGISTRY_TIMELINE :: RegistryTimeline where
  "EMPTY_REGISTRY_TIMELINE = \<lparr>tl_registrations = [], tl_registeredAtByName = Map.empty, tl_listedAtByNameHash = Map.empty\<rparr>"

text \<open>The variables of the loop: the timeline and the names seen.\<close>

record timeline_vars =
  tv_timeline :: RegistryTimeline
  tv_seenNames :: "js_string set"

text \<open>A loop body that may throw, over a list.\<close>

fun foldR :: "('a \<Rightarrow> 's \<Rightarrow> 'e + 's) \<Rightarrow> 'a list \<Rightarrow> 's \<Rightarrow> 'e + 's" where
  "foldR f [] s = Inr s"
| "foldR f (x # xs) s = bindR (f x s) (foldR f xs)"

definition addRegistration ::
  "prims \<Rightarrow> js_string \<Rightarrow> js_string option \<Rightarrow> rat option \<Rightarrow> js_string \<Rightarrow> timeline_vars \<Rightarrow> js_error + timeline_vars" where
  "addRegistration P txid createdAt epoch label v =
     bindR (canonicalizeName P (label @ js ''.arch'')) (\<lambda>name.
     if name \<in> tv_seenNames v then Inr v
     else
       (let t = tv_timeline v;
            t' = t\<lparr>tl_registrations := tl_registrations t @
              [\<lparr>re_name = name, re_txid = txid, re_createdAt = createdAt, re_at = epoch\<rparr>]\<rparr> in
        Inr \<lparr>tv_timeline = (case epoch of None \<Rightarrow> t'
             | Some ms \<Rightarrow> t'\<lparr>tl_registeredAtByName := (tl_registeredAtByName t')(name \<mapsto> ms)\<rparr>),
           tv_seenNames = insert name (tv_seenNames v)\<rparr>))"

definition addListing :: "rat option \<Rightarrow> bytes \<Rightarrow> timeline_vars \<Rightarrow> timeline_vars" where
  "addListing epoch hash v =
     (let key = bytesToHex hash; t = tv_timeline v in
      case epoch of
        None \<Rightarrow> v
      | Some ms \<Rightarrow>
          if tl_listedAtByNameHash t key = None
          then v\<lparr>tv_timeline := t\<lparr>tl_listedAtByNameHash := (tl_listedAtByNameHash t)(key \<mapsto> ms)\<rparr>\<rparr> else v)"

definition addInstruction ::
  "prims \<Rightarrow> js_string \<Rightarrow> js_string option \<Rightarrow> rat option \<Rightarrow> NameInstruction \<Rightarrow> timeline_vars \<Rightarrow> js_error + timeline_vars" where
  "addInstruction P txid createdAt epoch ix v =
     (case ix of
        Register label _ \<Rightarrow> addRegistration P txid createdAt epoch label v
      | ReclaimExpired label _ \<Rightarrow> addRegistration P txid createdAt epoch label v
      | ListName hash _ _ \<Rightarrow> Inr (addListing epoch hash v)
      | _ \<Rightarrow> Inr v)"

definition addRow :: "prims \<Rightarrow> 'w feed_host \<Rightarrow> js_string \<Rightarrow> jsval \<Rightarrow> timeline_vars \<Rightarrow> js_error + timeline_vars" where
  "addRow P H programIdHex row v =
     bindR (field row (js ''status'')) (\<lambda>status.
     if isFailedStatus P status then Inr v
     else
       (let txid = (case optField row (js ''txid'') of Str s \<Rightarrow> s | _ \<Rightarrow> []) in
        if txid = [] then Inr v
        else bindR (explorerCreatedAt row) (\<lambda>createdAt.
             bindR (decodeAnsInstructions P row programIdHex) (\<lambda>ixs.
             foldR (addInstruction P txid createdAt (toEpochMs H createdAt)) ixs v))))"

definition feedPage :: "int \<Rightarrow> fetch_options" where
  "feedPage page = \<lparr>fo_limit = Some (of_nat PAGE_SIZE), fo_page = Some (of_int page), fo_context = Some (js ''registry activity'')\<rparr>"

fun readPages ::
  "prims \<Rightarrow> 'w feed_host \<Rightarrow> js_string \<Rightarrow> js_string \<Rightarrow> nat \<Rightarrow> int \<Rightarrow> timeline_vars \<Rightarrow> ('w, timeline_vars) io" where
  "readPages P H address programIdHex 0 page v = retIO v"
| "readPages P H address programIdHex (Suc n) page v =
     bindIO (fetchTransactionRows H address (feedPage page)) (\<lambda>rows.
     bindIO (pureIO (foldR (addRow P H programIdHex) rows v)) (\<lambda>v'.
     if length rows < PAGE_SIZE then retIO v' else readPages P H address programIdHex n (page + 1) v'))"

definition pageCount :: "rat option \<Rightarrow> int" where
  "pageCount pages = max 1 \<lfloor>case pages of Some q \<Rightarrow> q | None \<Rightarrow> DEFAULT_PAGES\<rfloor>"

definition fetchRegistryTimeline :: "prims \<Rightarrow> base58 \<Rightarrow> 'w feed_host \<Rightarrow> rat option \<Rightarrow> ('w, RegistryTimeline) io" where
  "fetchRegistryTimeline P B H pages =
     bindIO (pureIO (programAccountAddress B)) (\<lambda>address.
     let programIdHex = toLowerCase (unicodeLower P) (mf_programId loadTestnetManifest) in
     bindIO (readPages P H address programIdHex (nat (pageCount pages)) 1
       \<lparr>tv_timeline = EMPTY_REGISTRY_TIMELINE, tv_seenNames = {}\<rparr>) (\<lambda>v. retIO (tv_timeline v)))"

text \<open>The comparator; of the difference \<open>bAt - aAt\<close> only the sign matters.\<close>

definition compareByRegistration ::
  "(js_string \<Rightarrow> js_string \<Rightarrow> int) \<Rightarrow> (js_string \<rightharpoonup> rat) \<Rightarrow> js_string \<Rightarrow> js_string \<Rightarrow> int" where
  "compareByRegistration localeCompare registeredAtByName a b =
     (case (registeredAtByName a, registeredAtByName b) of
        (Some aAt, Some bAt) \<Rightarrow>
          if bAt \<noteq> aAt then (if bAt - aAt > 0 then 1 else -1) else localeCompare a b
      | (Some _, None) \<Rightarrow> -1
      | (None, Some _) \<Rightarrow> 1
      | (None, None) \<Rightarrow> if textLess b a then -1 else if textLess a b then 1 else 0)"

definition orderNamesByRegistration ::
  "(js_string \<Rightarrow> js_string \<Rightarrow> int) \<Rightarrow> ('a \<Rightarrow> js_string) \<Rightarrow> 'a list \<Rightarrow> (js_string \<rightharpoonup> rat) \<Rightarrow> rat \<Rightarrow> 'a list" where
  "orderNamesByRegistration localeCompare nameOf onChain registeredAtByName limit =
     (let capped = max 0 \<lfloor>limit\<rfloor> in
      take (nat capped)
        (sortBy (\<lambda>a b. compareByRegistration localeCompare registeredAtByName (nameOf a) (nameOf b)) onChain))"

definition fetchRecentRegistrations ::
  "prims \<Rightarrow> base58 \<Rightarrow> 'w feed_host \<Rightarrow> rat \<Rightarrow> rat option \<Rightarrow> ('w, RegistrationEvent list) io" where
  "fetchRecentRegistrations P B H limit pages =
     (let capped = max 0 \<lfloor>limit\<rfloor> in
      if capped = 0 then retIO []
      else bindIO (fetchRegistryTimeline P B H pages) (\<lambda>timeline. retIO (take (nat capped) (tl_registrations timeline))))"

section \<open>The timeline by its events\<close>

text \<open>What the feed reports, read without the loop: the registrations and listings of all rows in the order of the rows.\<close>

datatype feed_event = Registered RegistrationEvent | Listed js_string "rat option"

definition registeredEvent ::
  "prims \<Rightarrow> js_string \<Rightarrow> js_string option \<Rightarrow> rat option \<Rightarrow> js_string \<Rightarrow> js_error + feed_event list" where
  "registeredEvent P txid createdAt epoch label =
     bindR (canonicalizeName P (label @ js ''.arch'')) (\<lambda>name.
     Inr [Registered \<lparr>re_name = name, re_txid = txid, re_createdAt = createdAt, re_at = epoch\<rparr>])"

fun eventsOf :: "prims \<Rightarrow> js_string \<Rightarrow> js_string option \<Rightarrow> rat option \<Rightarrow> NameInstruction \<Rightarrow> js_error + feed_event list" where
  "eventsOf P txid createdAt epoch (Register label _) = registeredEvent P txid createdAt epoch label"
| "eventsOf P txid createdAt epoch (ReclaimExpired label _) = registeredEvent P txid createdAt epoch label"
| "eventsOf P txid createdAt epoch (ListName hash _ _) = Inr [Listed (bytesToHex hash) epoch]"
| "eventsOf P txid createdAt epoch _ = Inr []"

definition rowEvents :: "prims \<Rightarrow> 'w feed_host \<Rightarrow> js_string \<Rightarrow> jsval \<Rightarrow> js_error + feed_event list" where
  "rowEvents P H programIdHex row =
     bindR (field row (js ''status'')) (\<lambda>status.
     case optField row (js ''txid'') of
       Str txid \<Rightarrow>
         if isFailedStatus P status \<or> txid = [] then Inr []
         else bindR (explorerCreatedAt row) (\<lambda>createdAt.
              bindR (decodeAnsInstructions P row programIdHex) (\<lambda>ixs.
              bindR (mapR (eventsOf P txid createdAt (toEpochMs H createdAt)) ixs) (\<lambda>events. Inr (concat events))))
     | _ \<Rightarrow> Inr [])"

text \<open>The first element for every value of \<open>f\<close>.\<close>

fun firsts :: "('a \<Rightarrow> 'b) \<Rightarrow> 'a list \<Rightarrow> 'a list" where
  "firsts f [] = []"
| "firsts f (x # xs) = x # filter (\<lambda>y. f y \<noteq> f x) (firsts f xs)"

fun registrationsIn :: "feed_event list \<Rightarrow> RegistrationEvent list" where
  "registrationsIn [] = []"
| "registrationsIn (Registered e # es) = e # registrationsIn es"
| "registrationsIn (Listed _ _ # es) = registrationsIn es"

fun firstListing :: "js_string \<Rightarrow> feed_event list \<Rightarrow> rat option" where
  "firstListing key [] = None"
| "firstListing key (Registered _ # es) = firstListing key es"
| "firstListing key (Listed k epoch # es) = (if k = key \<and> epoch \<noteq> None then epoch else firstListing key es)"

definition timelineOf :: "feed_event list \<Rightarrow> RegistryTimeline" where
  "timelineOf events =
     (let newest = firsts re_name (registrationsIn events) in
      \<lparr>tl_registrations = newest,
       tl_registeredAtByName = (\<lambda>name. Option.bind (find (\<lambda>e. re_name e = name) newest) re_at),
       tl_listedAtByNameHash = (\<lambda>key. firstListing key events)\<rparr>)"

subsection \<open>The loop adds the events one by one\<close>

fun addEvent :: "feed_event \<Rightarrow> timeline_vars \<Rightarrow> timeline_vars" where
  "addEvent (Registered e) v =
     (if re_name e \<in> tv_seenNames v then v
      else \<lparr>tv_timeline = (tv_timeline v)\<lparr>tl_registrations := tl_registrations (tv_timeline v) @ [e],
              tl_registeredAtByName := (case re_at e of None \<Rightarrow> tl_registeredAtByName (tv_timeline v)
                | Some ms \<Rightarrow> (tl_registeredAtByName (tv_timeline v))(re_name e \<mapsto> ms))\<rparr>,
            tv_seenNames = insert (re_name e) (tv_seenNames v)\<rparr>)"
| "addEvent (Listed key epoch) v =
     (case epoch of None \<Rightarrow> v
      | Some ms \<Rightarrow> if tl_listedAtByNameHash (tv_timeline v) key = None
          then v\<lparr>tv_timeline := (tv_timeline v)\<lparr>tl_listedAtByNameHash := (tl_listedAtByNameHash (tv_timeline v))(key \<mapsto> ms)\<rparr>\<rparr>
          else v)"

lemma foldR_as_fold:
  assumes "\<And>x v. f x v = bindR (g x) (\<lambda>es. Inr (fold h es v))"
  shows "foldR f xs v = bindR (mapR g xs) (\<lambda>ess. Inr (fold h (concat ess) v))"
proof (induction xs arbitrary: v)
  case (Cons x xs)
  then show ?case by (cases "g x"; cases "mapR g xs") (simp_all add: assms)
qed simp

lemma registered_step:
  "addRegistration P txid createdAt epoch label v =
   bindR (registeredEvent P txid createdAt epoch label) (\<lambda>es. Inr (fold addEvent es v))"
  by (cases "canonicalizeName P (label @ js ''.arch'')")
    (auto simp: addRegistration_def registeredEvent_def Let_def split: option.splits)

lemma instruction_step:
  "addInstruction P txid createdAt epoch ix v = bindR (eventsOf P txid createdAt epoch ix) (\<lambda>es. Inr (fold addEvent es v))"
  by (cases ix) (auto simp: addInstruction_def registered_step addListing_def Let_def split: option.splits)

lemma row_step: "addRow P H pid row v = bindR (rowEvents P H pid row) (\<lambda>es. Inr (fold addEvent es v))"
proof (cases "field row (js ''status'')")
  case (Inl e)
  then show ?thesis by (simp add: addRow_def rowEvents_def)
next
  case (Inr status)
  then show ?thesis
    by (cases "optField row (js ''txid'')"; cases "explorerCreatedAt row"; cases "decodeAnsInstructions P row pid")
      (auto simp: addRow_def rowEvents_def foldR_as_fold [OF instruction_step] bindR_def split: sum.splits)
qed

lemmas rows_step = foldR_as_fold [OF row_step]

subsection \<open>What the events add up to\<close>

lemma find_firsts: "find (\<lambda>x. f x = a) (firsts f xs) = find (\<lambda>x. f x = a) xs"
proof (induction xs)
  case (Cons x xs)
  have "find (\<lambda>y. f y = a) (filter (\<lambda>y. f y \<noteq> b) ys) = find (\<lambda>y. f y = a) ys" if "b \<noteq> a" for b ys
    using that by (induction ys) auto
  with Cons show ?case by auto
qed simp

lemma distinct_firsts: "distinct (map f (firsts f xs))"
  by (induction xs) (auto intro: distinct_map_filter)

definition accumulated :: "feed_event list \<Rightarrow> timeline_vars \<Rightarrow> timeline_vars" where
  "accumulated es v =
     (let t = tv_timeline v; rs = registrationsIn es in
      \<lparr>tv_timeline = \<lparr>
         tl_registrations = tl_registrations t @ filter (\<lambda>e. re_name e \<notin> tv_seenNames v) (firsts re_name rs),
         tl_registeredAtByName = (\<lambda>name. if name \<in> tv_seenNames v then tl_registeredAtByName t name
           else case Option.bind (find (\<lambda>e. re_name e = name) rs) re_at of
             None \<Rightarrow> tl_registeredAtByName t name | Some ms \<Rightarrow> Some ms),
         tl_listedAtByNameHash = (\<lambda>key. case tl_listedAtByNameHash t key of None \<Rightarrow> firstListing key es | Some ms \<Rightarrow> Some ms)\<rparr>,
       tv_seenNames = tv_seenNames v \<union> re_name ` set rs\<rparr>)"

lemma fold_addEvent: "fold addEvent es v = accumulated es v"
proof (induction es arbitrary: v)
  case Nil
  show ?case by (auto simp: accumulated_def Let_def fun_eq_iff split: option.splits)
next
  case (Cons e es)
  have "accumulated es (addEvent e v) = accumulated (e # es) v"
  proof (cases e)
    case (Registered r)
    then show ?thesis
      by (cases "re_name r \<in> tv_seenNames v")
        (auto simp: accumulated_def Let_def fun_eq_iff intro!: filter_cong split: option.splits)
  next
    case (Listed key epoch)
    then show ?thesis
      by (auto simp: accumulated_def Let_def fun_eq_iff split: option.splits)
  qed
  with Cons show ?case by simp
qed

lemma timeline_of_fold:
  "tv_timeline (fold addEvent es \<lparr>tv_timeline = EMPTY_REGISTRY_TIMELINE, tv_seenNames = {}\<rparr>) = timelineOf es"
  by (auto simp: fold_addEvent accumulated_def timelineOf_def EMPTY_REGISTRY_TIMELINE_def Let_def find_firsts fun_eq_iff
      split: option.splits)

subsection \<open>The pages of the feed\<close>

text \<open>The rows that are read: pages of the feed up to the first that is not full, at most \<open>n\<close> of them.\<close>

fun rowsRead :: "(int \<Rightarrow> jsval list) \<Rightarrow> nat \<Rightarrow> int \<Rightarrow> jsval list" where
  "rowsRead R 0 page = []"
| "rowsRead R (Suc n) page = R page @ (if length (R page) < PAGE_SIZE then [] else rowsRead R n (page + 1))"

lemma mapR_append: "mapR f (xs @ ys) = bindR (mapR f xs) (\<lambda>as. bindR (mapR f ys) (\<lambda>bs. Inr (as @ bs)))"
  by (induction xs) (auto simp: bindR_def split: sum.splits)

lemma settles_readPages:
  assumes "\<And>p. page \<le> p \<Longrightarrow> p < page + int n \<Longrightarrow> settles W (fetchTransactionRows H a (feedPage p)) (Inr (R p))"
  shows "settles W (readPages P H a pid n page v)
    (bindR (mapR (rowEvents P H pid) (rowsRead R n page)) (\<lambda>ess. Inr (fold addEvent (concat ess) v)))"
  using assms
proof (induction n arbitrary: page v)
  case 0
  show ?case by (simp add: settles_def)
next
  case (Suc n)
  have here: "settles W (fetchTransactionRows H a (feedPage page)) (Inr (R page))" using Suc.prems [of page] by simp
  have next_pages: "settles W (readPages P H a pid n (page + 1) u)
      (bindR (mapR (rowEvents P H pid) (rowsRead R n (page + 1))) (\<lambda>ess. Inr (fold addEvent (concat ess) u)))" for u
    using Suc.prems by (intro Suc.IH) simp
  have "settles W (readPages P H a pid (Suc n) page v)
      (bindR (Inr (R page)) (\<lambda>rows. bindR (foldR (addRow P H pid) rows v) (\<lambda>u.
         if length rows < PAGE_SIZE then Inr u
         else bindR (mapR (rowEvents P H pid) (rowsRead R n (page + 1))) (\<lambda>ess. Inr (fold addEvent (concat ess) u)))))"
    unfolding readPages.simps
    by (rule settles_bind [OF here], rule settles_bind [OF settles_pure(3)], rule settles_if)
      (rule settles_pure(1) next_pages)+
  then show ?case
    by (rule settles_eq) (auto simp: rows_step mapR_append bindR_def split: sum.splits)
qed

section \<open>The order of names\<close>

text \<open>\<open>notAfter\<close>: a name may stand before another in the list.\<close>

definition notAfter :: "(js_string \<Rightarrow> js_string \<Rightarrow> int) \<Rightarrow> (js_string \<rightharpoonup> rat) \<Rightarrow> js_string \<Rightarrow> js_string \<Rightarrow> bool" where
  "notAfter lc m a b \<longleftrightarrow>
     (case m a of
        Some s \<Rightarrow> (case m b of Some t \<Rightarrow> t < s \<or> (t = s \<and> lc a b \<le> 0) | None \<Rightarrow> True)
      | None \<Rightarrow> m b = None \<and> \<not> textLess a b)"

lemma compare_notAfter: "compareByRegistration lc m a b \<le> 0 \<longleftrightarrow> notAfter lc m a b"
  using textLess_asym [of a b]
  by (cases "m a"; cases "m b") (auto simp: compareByRegistration_def notAfter_def)

lemma comparator_by_registration:
  assumes "comparator lc"
  shows "comparator (\<lambda>a b. compareByRegistration lc m (f a) (f b))"
proof
  fix x y z
  show "0 < compareByRegistration lc m (f x) (f y) \<Longrightarrow> compareByRegistration lc m (f y) (f x) < 0"
    using comparator.opposite [OF assms, of "f x" "f y"]
    by (cases "m (f x)"; cases "m (f y)") (auto simp: compareByRegistration_def split: if_splits)
  show "compareByRegistration lc m (f x) (f y) \<le> 0 \<Longrightarrow> compareByRegistration lc m (f y) (f z) \<le> 0 \<Longrightarrow>
      compareByRegistration lc m (f x) (f z) \<le> 0"
    using comparator.transitive [OF assms, of "f x" "f y" "f z"] textLess_not_trans [of "f x" "f y" "f z"]
    unfolding compare_notAfter
    by (cases "m (f x)"; cases "m (f y)"; cases "m (f z)") (auto simp: notAfter_def)
qed

section \<open>Instructions in rows\<close>

text \<open>\<open>carries\<close>: an instruction entry of a row holds an instruction of the program, or is addressed to another program.\<close>

definition carries :: "prims \<Rightarrow> js_string \<Rightarrow> jsval \<Rightarrow> NameInstruction option \<Rightarrow> bool" where
  "carries P pid item x \<longleftrightarrow>
     (case x of
        Some ix \<Rightarrow> \<exists>s bs. optField item (js ''program_id'') = Str s \<and>
          toLowerCase (unicodeLower P) s = toLowerCase (unicodeLower P) pid \<and>
          okInstruction ix \<and> encodeInstruction ix = Inr bs \<and> optField item (js ''data'') = Str (bytesToHex bs)
      | None \<Rightarrow> \<not> isNullish item \<and> (\<forall>s. optField item (js ''program_id'') = Str s \<longrightarrow>
          toLowerCase (unicodeLower P) s \<noteq> toLowerCase (unicodeLower P) pid))"

definition payloadHex :: "NameInstruction \<Rightarrow> js_string" where
  "payloadHex ix = bytesToHex (projr (encodeInstruction ix))"

lemma decode_payload:
  assumes "okInstruction ix"
  shows "bindR (hexToBytes (payloadHex ix)) decodeInstruction = Inr ix"
  using instruction_codec.roundtrip [OF assms] by (auto simp: payloadHex_def hexToBytes_bytesToHex)

lemma carried_payload:
  assumes "carries P pid item x"
  shows "payloadOf P (toLowerCase (unicodeLower P) pid) item = Inr (map_option payloadHex x)"
proof (cases x)
  case None
  with assms show ?thesis
    by (cases "optField item (js ''program_id'')") (auto simp: carries_def payloadOf_def field_def)
next
  case (Some ix)
  moreover from this assms have "\<not> isNullish item"
    by (auto simp: carries_def isNullish_def optField_def)
  ultimately show ?thesis using assms by (auto simp: carries_def payloadOf_def field_def payloadHex_def)
qed

lemma carried_payloads:
  assumes "list_all2 (carries P pid) items xs"
  shows "mapR (payloadOf P (toLowerCase (unicodeLower P) pid)) items = Inr (map (map_option payloadHex) xs)"
  using assms by (induction rule: list_all2_induct) (simp_all add: carried_payload)

lemma carried_ok: "list_all2 (carries P pid) items xs \<Longrightarrow> list_all okInstruction (List.map_filter (\<lambda>x. x) xs)"
  by (induction rule: list_all2_induct) (auto simp: carries_def split: option.splits)

lemma map_filter_options: "List.map_filter (\<lambda>x. x) (map (map_option f) xs) = map f (List.map_filter (\<lambda>x. x) xs)"
  by (induction xs) (auto split: option.splits)

lemma map_filter_inverse: "list_all p xs \<Longrightarrow> (\<And>x. p x \<Longrightarrow> g (f x) = Some x) \<Longrightarrow> List.map_filter g (map f xs) = xs"
  by (induction xs) auto

lemma carried_row:
  assumes "list_all2 (carries P pid) items xs" "\<not> isNullish row"
    and "optField (optField (optField row (js ''data'')) (js ''message'')) (js ''instructions'') = Arr items"
  shows "ansInstructionPayloads P row pid = Inr (map payloadHex (List.map_filter (\<lambda>x. x) xs))"
    "decodeAnsInstructions P row pid = Inr (List.map_filter (\<lambda>x. x) xs)"
proof -
  let ?ixs = "List.map_filter (\<lambda>x. x) xs"
  show payloads: "ansInstructionPayloads P row pid = Inr (map payloadHex ?ixs)"
    using assms by (simp add: ansInstructionPayloads_def field_def carried_payloads map_filter_options Let_def)
  have "List.map_filter decodePayload (map payloadHex ?ixs) = ?ixs"
    using carried_ok [OF assms(1)] by (rule map_filter_inverse) (simp add: decodePayload_def decode_payload)
  then show "decodeAnsInstructions P row pid = Inr ?ixs" by (simp add: decodeAnsInstructions_def payloads)
qed

section \<open>Properties\<close>

text \<open>C15. The feed reads back what the program was sent: from a row whose entries carry instructions of the program, in
  any spelling of its id, and instructions of other programs, exactly the program's instructions are decoded, in order,
  and the row is labelled by the first of them.\<close>

theorem activity_reads_instructions:
  assumes "list_all2 (carries P pid) items xs" "\<not> isNullish row"
    and "optField (optField (optField row (js ''data'')) (js ''message'')) (js ''instructions'') = Arr items"
  shows "decodeAnsInstructions P row pid = Inr (List.map_filter (\<lambda>x. x) xs) \<and>
    actionFromExplorerRow P B row pid =
      Inr (case List.map_filter (\<lambda>x. x) xs of [] \<Rightarrow> None | ix # _ \<Rightarrow> Some (describeAnsInstruction B ix))"
proof -
  have "describeInstructionData B (payloadHex ix) = Some (describeAnsInstruction B ix)" if "okInstruction ix" for ix
    by (simp add: describeInstructionData_def decode_payload [OF that])
  then show ?thesis
    using carried_row [OF assms] carried_ok [OF assms(1)]
    by (cases "List.map_filter (\<lambda>x. x) xs") (simp_all add: actionFromExplorerRow_def)
qed

definition programItem :: "js_string \<Rightarrow> NameInstruction \<Rightarrow> jsval" where
  "programItem pid ix = Obj [(js ''program_id'', Str pid), (js ''data'', Str (payloadHex ix))]"

definition sampleRow :: "jsval list \<Rightarrow> jsval" where
  "sampleRow items = Obj [(js ''txid'', Str (js ''t1'')), (js ''created_at'', Str (js ''now'')),
     (js ''data'', Obj [(js ''message'', Obj [(js ''instructions'', Arr items)])])]"

lemma sample_row [simp]:
  "\<not> isNullish (sampleRow items)"
  "optField (optField (optField (sampleRow items) (js ''data'')) (js ''message'')) (js ''instructions'') = Arr items"
  by (simp_all add: sampleRow_def isNullish_def optField_def js_def)

lemma sample_instruction:
  "okInstruction ix \<Longrightarrow> toLowerCase (unicodeLower P) s = toLowerCase (unicodeLower P) pid \<Longrightarrow> carries P pid (programItem s ix) (Some ix)"
  "toLowerCase (unicodeLower P) s \<noteq> toLowerCase (unicodeLower P) pid \<Longrightarrow> carries P pid (programItem s ix) None"
  using instruction_codec.roundtrip [of ix]
  by (auto simp: carries_def programItem_def optField_def payloadHex_def isNullish_def js_def)

theorem activity_reads_instructions_witness:
  "\<exists>items. length items = 3 \<and> decodeAnsInstructions samplePrims (sampleRow items) (js ''3D9F'') =
      Inr [ListName (replicate 32 7) Btc 150000000, ClearPrimary] \<and>
    actionFromExplorerRow samplePrims noBase58 (sampleRow items) (js ''3D9F'') =
      Inr (Some \<lparr>act_title = js ''Listed'', act_detail = Some (formatQuoteAmount 150000000 Btc)\<rparr>)"
proof -
  let ?l = "ListName (replicate 32 7) Btc 150000000"
  let ?items = "[programItem (js ''00'') ClearPrimary, programItem (js ''3d9F'') ?l, programItem (js ''3d9f'') ClearPrimary]"
  have "list_all2 (carries samplePrims (js ''3D9F'')) ?items [None, Some ?l, Some ClearPrimary]"
    by (intro list.rel_intros sample_instruction) (simp_all add: js_def toLowerCase_def isAscii_def lowerUnit_def)
  from activity_reads_instructions [OF this sample_row(1,2), of noBase58] show ?thesis
    by (intro exI [of _ ?items]) simp
qed

text \<open>C19. The timeline is the newest event of every name. Over a feed that gives the pages \<open>R\<close>, the loop returns, or
  rejects with, what the events of the rows it reads amount to: one registration per name, the first in the feed; its
  time for the name; and the first known time of a listing for each name hash.\<close>

theorem registry_timeline_exact:
  assumes "\<And>p. 1 \<le> p \<Longrightarrow> p \<le> pageCount pages \<Longrightarrow> settles W (fetchTransactionRows H address (feedPage p)) (Inr (R p))"
    and "programAccountAddress B = Inr address" "w \<in> W"
  shows "fst (fetchRegistryTimeline P B H pages w) =
    bindR (mapR (rowEvents P H (toLowerCase (unicodeLower P) (mf_programId loadTestnetManifest)))
        (rowsRead R (nat (pageCount pages)) 1)) (\<lambda>ess. Inr (timelineOf (concat ess)))"
proof -
  let ?pid = "toLowerCase (unicodeLower P) (mf_programId loadTestnetManifest)"
  have "int (nat (pageCount pages)) = pageCount pages" by (simp add: pageCount_def)
  then have count: "p < 1 + int (nat (pageCount pages)) \<longleftrightarrow> p \<le> pageCount pages" for p by arith
  have "settles W (readPages P H address ?pid (nat (pageCount pages)) 1 v)
      (bindR (mapR (rowEvents P H ?pid) (rowsRead R (nat (pageCount pages)) 1)) (\<lambda>ess. Inr (fold addEvent (concat ess) v)))" for v
    by (rule settles_readPages, rule assms(1)) (simp_all only: count)
  from settles_bind [OF this settles_pure(1)]
  have "settles W (fetchRegistryTimeline P B H pages)
      (bindR (mapR (rowEvents P H ?pid) (rowsRead R (nat (pageCount pages)) 1)) (\<lambda>ess. Inr (timelineOf (concat ess))))"
    unfolding fetchRegistryTimeline_def assms(2) bindIO_pure Let_def timeline_of_fold [symmetric]
    by (rule settles_eq) (auto simp: bindR_def split: sum.splits)
  then show ?thesis using assms(3) by (rule settles_fst)
qed

definition sampleFeed :: "unit feed_host" where
  "sampleFeed = \<lparr>fh_base = js ''/explorer'',
     fh_get = (\<lambda>url w. (Inr \<lparr>rs_status = 200, rs_retryAfter = None,
       rs_json = Inr (Obj [(js ''transactions'', Arr [sampleRow
         [programItem (mf_programId loadTestnetManifest) (Register (js ''alice'') 1)]])])\<rparr>, w)),
     fh_encode = (\<lambda>s. s), fh_parseDate = (\<lambda>s. Fin 5)\<rparr>"

lemma sample_row_fields:
  "field (sampleRow items) (js ''status'') = Inr Undefined" "optField (sampleRow items) (js ''txid'') = Str (js ''t1'')"
  "explorerCreatedAt (sampleRow items) = Inr (Some (js ''now''))" "isFailedStatus P Undefined = False"
  "toEpochMs sampleFeed (Some (js ''now'')) = Some 5" "js ''t1'' \<noteq> []"
  by (simp_all add: explorerCreatedAt_def field_def isFailedStatus_def hasField_def toEpochMs_def truthyText_def sampleFeed_def)
    (simp_all add: sampleRow_def optField_def isNullish_def js_def)

lemma sample_program_address:
  obtains address where "programAccountAddress noBase58 = Inr address" "address \<noteq> []"
proof -
  let ?pid = "mf_programId loadTestnetManifest"
  have hex: "length ?pid = 64" "list_all isHexDigit ?pid" "trim ?pid = ?pid"
    by (simp_all add: loadTestnetManifest_def TESTNET_MANIFEST_def js_def isHexDigit_def hexValue_def trim_def isSpace_def)
  then have "programAccountAddress noBase58 = Inr (bytesToHex (hexPairs ?pid))"
    by (simp add: programAccountAddress_def decodeArchAddress_def noBase58_def Let_def)
  moreover have "bytesToHex (hexPairs ?pid) \<noteq> []"
    using length_bytesToHex [of "hexPairs ?pid"] hex(1) by (auto simp: hexPairs_def)
  ultimately show ?thesis by (rule that)
qed

theorem registry_timeline_exact_witness:
  "\<exists>timeline. fst (fetchRegistryTimeline samplePrims noBase58 sampleFeed None ()) = Inr timeline \<and>
     tl_registrations timeline = [\<lparr>re_name = js ''alice.arch'', re_txid = js ''t1'', re_createdAt = Some (js ''now''), re_at = Some 5\<rparr>] \<and>
     tl_registeredAtByName timeline (js ''alice.arch'') = Some 5"
proof -
  let ?pid = "mf_programId loadTestnetManifest"
  let ?row = "sampleRow [programItem ?pid (Register (js ''alice'') 1)]"
  have lower: "toLowerCase (unicodeLower samplePrims) ?pid = ?pid"
    by (simp add: loadTestnetManifest_def TESTNET_MANIFEST_def js_def toLowerCase_def isAscii_def lowerUnit_def)
  have "list_all2 (carries samplePrims ?pid) [programItem ?pid (Register (js ''alice'') 1)] [Some (Register (js ''alice'') 1)]"
    by (intro list.rel_intros sample_instruction) (simp_all add: encodableText_ascii js_def)
  note ixs = carried_row(2) [OF this sample_row]
  have "canonicalizeName samplePrims (js ''alice'' @ js ''.arch'') = Inr (js ''alice.arch'')"
    using canonicalizeName_canonical [OF alice_canonical, of samplePrims] by (simp add: js_def)
  with ixs have events: "rowEvents samplePrims sampleFeed ?pid ?row =
      Inr [Registered \<lparr>re_name = js ''alice.arch'', re_txid = js ''t1'', re_createdAt = Some (js ''now''), re_at = Some 5\<rparr>]"
    by (simp add: rowEvents_def registeredEvent_def sample_row_fields)
  obtain address where address: "programAccountAddress noBase58 = Inr address" "address \<noteq> []" by (rule sample_program_address)
  have "settles UNIV (fetchTransactionRows sampleFeed address (feedPage p)) (Inr [?row])" for p
    by (simp add: fetchTransactionRows_def address(2) settles_def bindIO_def sampleFeed_def rowsOf_def responseOk_def
        field_def isNullish_def optField_def)
  then have "fst (fetchRegistryTimeline samplePrims noBase58 sampleFeed None ()) =
      bindR (mapR (rowEvents samplePrims sampleFeed (toLowerCase (unicodeLower samplePrims) ?pid))
        (rowsRead (\<lambda>p. [?row]) (nat (pageCount None)) 1)) (\<lambda>ess. Inr (timelineOf (concat ess)))"
    by (rule registry_timeline_exact [OF _ address(1) UNIV_I])
  moreover have "rowsRead (\<lambda>p. [?row]) (nat (pageCount None)) 1 = [?row]"
    by (simp add: pageCount_def DEFAULT_PAGES_def numeral_2_eq_2 PAGE_SIZE_def)
  ultimately show ?thesis using events by (simp add: lower timelineOf_def)
qed

text \<open>The list of recent names is a prefix of the names in order: dated before undated, the newest first, equal times
  by locale order, undated ones from the end of the alphabet; no name that was cut off belongs before one that is shown.\<close>

theorem names_ordered_by_registration:
  assumes "comparator localeCompare"
  shows "let shown = orderNamesByRegistration localeCompare nameOf names dates limit in
    length shown = min (nat \<lfloor>limit\<rfloor>) (length names) \<and> mset shown \<subseteq># mset names \<and>
    sorted_wrt (\<lambda>a b. notAfter localeCompare dates (nameOf a) (nameOf b)) shown \<and>
    (\<forall>a b. a \<in> set shown \<longrightarrow> b \<in># mset names - mset shown \<longrightarrow> notAfter localeCompare dates (nameOf a) (nameOf b))"
proof -
  let ?c = "\<lambda>a b. compareByRegistration localeCompare dates (nameOf a) (nameOf b)"
  let ?n = "nat (max 0 \<lfloor>limit\<rfloor>)"
  note c = comparator_by_registration [OF assms, of dates nameOf]
  have n: "?n = nat \<lfloor>limit\<rfloor>" by simp
  have "mset (take ?n (sortBy ?c names)) \<subseteq># mset names"
    by (metis mset_sortBy append_take_drop_id mset_append mset_subset_eq_add_left)
  moreover have "sorted_wrt (\<lambda>a b. ?c a b \<le> 0) (take ?n (sortBy ?c names))"
    using comparator.sorted_sortBy [OF c] by (rule sorted_wrt_take)
  moreover have "?c a b \<le> 0" if "a \<in> set (take ?n (sortBy ?c names))" "b \<in># mset names - mset (take ?n (sortBy ?c names))" for a b
    using comparator.take_precedes [OF c that] .
  ultimately show ?thesis
    unfolding orderNamesByRegistration_def Let_def compare_notAfter by (simp add: min.commute)
qed

definition unitOrder :: "js_string \<Rightarrow> js_string \<Rightarrow> int" where
  "unitOrder a b = (if textLess b a then 1 else if textLess a b then -1 else 0)"

interpretation unit_order: comparator unitOrder
proof
  fix a b c
  have le: "unitOrder x y \<le> 0 \<longleftrightarrow> \<not> textLess y x" for x y by (simp add: unitOrder_def)
  show "0 < unitOrder a b \<Longrightarrow> unitOrder b a < 0"
    using textLess_asym [of b a] by (simp add: unitOrder_def split: if_splits)
  show "unitOrder a b \<le> 0 \<Longrightarrow> unitOrder b c \<le> 0 \<Longrightarrow> unitOrder a c \<le> 0"
    unfolding le by (rule textLess_not_trans)
qed

theorem names_ordered_by_registration_witness:
  "let shown = orderNamesByRegistration unitOrder (\<lambda>n. n) [js ''a'', js ''b'', js ''c''] [js ''b'' \<mapsto> 5] 2 in
    hd shown = js ''b'' \<and> length shown = 2 \<and> mset shown \<subseteq># mset [js ''a'', js ''b'', js ''c'']"
proof -
  let ?shown = "orderNamesByRegistration unitOrder (\<lambda>n. n) [js ''a'', js ''b'', js ''c''] [js ''b'' \<mapsto> 5] 2"
  have "hd ?shown = js ''b''"
    by (simp add: orderNamesByRegistration_def sortBy_def compareByRegistration_def js_def numeral_2_eq_2)
  then show ?thesis
    using names_ordered_by_registration [OF unit_order.comparator_axioms, of "\<lambda>n. n" "[js ''a'', js ''b'', js ''c'']" "[js ''b'' \<mapsto> 5]" 2]
    unfolding Let_def by (intro conjI) (assumption, (elim conjE, simp), (elim conjE, assumption))
qed

end
