(* ===== verification/Name_Profile.thy ===== *)
theory Name_Profile
  imports Registry_Activity Confirm Arch_Rpc
begin

text \<open>
  The profile cache: \<^verbatim>\<open>name-profile.ts\<close> of the manager. A load is answered from memory, joins the request that is in
  flight for its key, or opens one; requests end in two further steps, the \<open>then\<close> that stores the entry and the
  \<open>finally\<close> that takes the request off. The step relation interleaves these with invalidations and the passing of
  time; an answer may be older than its request, by what the account cache of the transport holds back.
  The invariant says how old an entry can be, and the last theorem what an invalidation leaves behind.
\<close>

section \<open>Profiles\<close>

record text_entry =
  te_revision :: int
  te_value :: js_string

record LoadedProfile =
  lp_ownerDisplay :: "js_string option"
  lp_primaryName :: "js_string option"
  lp_archOwnerRevision :: int
  lp_taprootRevision :: int
  lp_taprootDisplay :: "js_string option"
  lp_textByKey :: "js_string \<rightharpoonup> text_entry option"

record CacheEntry =
  ce_expiresAt :: int
  ce_profile :: "LoadedProfile option"
  ce_error :: "js_string option"

definition PROFILE_TTL_MS :: int where "PROFILE_TTL_MS = 15000"

definition cacheKey :: "js_string \<Rightarrow> js_string option \<Rightarrow> js_string" where
  "cacheKey canonical ownerArchAddress =
     canonical @ js ''|'' @ (case ownerArchAddress of Some owner \<Rightarrow> owner | None \<Rightarrow> [])"

definition textFromRecord :: "RecordAccount option \<Rightarrow> text_entry option" where
  "textFromRecord record =
     (case record of
        None \<Rightarrow> None
      | Some r \<Rightarrow> (case ra_value r of Text _ v \<Rightarrow> Some \<lparr>te_revision = ra_revision r, te_value = v\<rparr> | _ \<Rightarrow> None))"

definition taprootDisplayFrom :: "prims \<Rightarrow> RecordAccount option \<Rightarrow> js_string option" where
  "taprootDisplayFrom P record =
     (case record of
        None \<Rightarrow> None
      | Some r \<Rightarrow>
          (case ra_value r of
             BitcoinTaproot witnessProgram \<Rightarrow>
               (case encodeTaprootAddress P witnessProgram Testnet of Inr address \<Rightarrow> Some address | Inl _ \<Rightarrow> None)
           | _ \<Rightarrow> None))"

definition revisionOrZero :: "RecordAccount option \<Rightarrow> int" where
  "revisionOrZero record = (case record of Some r \<Rightarrow> ra_revision r | None \<Rightarrow> 0)"

definition profileEntry :: "prims \<Rightarrow> base58 \<Rightarrow> js_string list \<Rightarrow> js_string \<Rightarrow> NameProfile \<Rightarrow> int \<Rightarrow> CacheEntry" where
  "profileEntry P B keys canonical result nowMs =
     (case np_nameAccount result of
        None \<Rightarrow> \<lparr>ce_expiresAt = nowMs + PROFILE_TTL_MS, ce_profile = None, ce_error = Some (canonical @ js '' is not registered.'')\<rparr>
      | Some account \<Rightarrow>
          \<lparr>ce_expiresAt = nowMs + PROFILE_TTL_MS,
           ce_profile = Some \<lparr>
             lp_ownerDisplay = Some (b58_encode B (na_owner account)),
             lp_primaryName = np_primaryName result,
             lp_archOwnerRevision = revisionOrZero (np_archOwner result),
             lp_taprootRevision = revisionOrZero (np_taproot result),
             lp_taprootDisplay = taprootDisplayFrom P (np_taproot result),
             lp_textByKey = jsMap (map (\<lambda>key. (key, textFromRecord (Option.bind (np_textByKey result key) (\<lambda>r. r)))) keys)\<rparr>,
           ce_error = None\<rparr>)"

definition catalogKeys :: "(js_string \<Rightarrow> js_string option) \<Rightarrow> js_string list" where
  "catalogKeys urlProtocol = map tr_key (TEXT_RECORD_CATALOG urlProtocol)"

definition loadProfileUncached ::
  "prims \<Rightarrow> base58 \<Rightarrow> (js_string \<Rightarrow> js_string option) \<Rightarrow> 'w timer \<Rightarrow> ('w, 'tx) AnsClient \<Rightarrow> js_string \<Rightarrow> js_string option \<Rightarrow>
   ('w, CacheEntry) io" where
  "loadProfileUncached P B urlProtocol C client canonical ownerArchAddress =
     bindIO (case truthyText ownerArchAddress of
               None \<Rightarrow> retIO None
             | Some owner \<Rightarrow> bindIO (pureIO (decodeArchAddress B owner)) (\<lambda>key. retIO (Some key))) (\<lambda>primaryOwner.
     bindIO (fetchNameProfile P client canonical (Some (catalogKeys urlProtocol)) primaryOwner) (\<lambda>result w.
     (Inr (profileEntry P B (catalogKeys urlProtocol) canonical result (now C w)), w)))"

section \<open>The cache\<close>

record profile_cache =
  pc_cache :: "js_string \<rightharpoonup> CacheEntry"
  pc_inflight :: "js_string set"

datatype load_decision = Hit CacheEntry | Join | Load

text \<open>\<open>loadNameProfile\<close> up to its first \<open>await\<close>; then what its request does when it is answered, and at its end.\<close>

definition loadDecision :: "int \<Rightarrow> js_string \<Rightarrow> profile_cache \<Rightarrow> load_decision" where
  "loadDecision t key c =
     (case pc_cache c key of
        Some hit \<Rightarrow> if ce_expiresAt hit > t then Hit hit else if key \<in> pc_inflight c then Join else Load
      | None \<Rightarrow> if key \<in> pc_inflight c then Join else Load)"

definition loadStarted :: "js_string \<Rightarrow> profile_cache \<Rightarrow> profile_cache" where
  "loadStarted key c = c\<lparr>pc_inflight := insert key (pc_inflight c)\<rparr>"

definition entryStored :: "js_string \<Rightarrow> CacheEntry \<Rightarrow> profile_cache \<Rightarrow> profile_cache" where
  "entryStored key entry c = c\<lparr>pc_cache := (pc_cache c)(key \<mapsto> entry)\<rparr>"

definition loadFinished :: "js_string \<Rightarrow> profile_cache \<Rightarrow> profile_cache" where
  "loadFinished key c = c\<lparr>pc_inflight := pc_inflight c - {key}\<rparr>"

definition invalidateNameProfile :: "js_string option \<Rightarrow> profile_cache \<Rightarrow> profile_cache" where
  "invalidateNameProfile canonical c =
     (case truthyText canonical of
        None \<Rightarrow> c\<lparr>pc_cache := Map.empty\<rparr>
      | Some name \<Rightarrow> c\<lparr>pc_cache := (\<lambda>key. if startsWith key (name @ js ''|'') then None else pc_cache c key)\<rparr>)"

text \<open>The whole load, with the world of the network beside the cache; \<open>pending\<close> gives what the request in flight for a
  key settles with.\<close>

record 'w profile_world =
  pw_net :: 'w
  pw_profiles :: profile_cache

definition shownProfile :: "CacheEntry \<Rightarrow> LoadedProfile option \<times> js_string option" where
  "shownProfile entry = (ce_profile entry, ce_error entry)"

definition loadNameProfile ::
  "('w timer) \<Rightarrow> (js_string \<Rightarrow> ('w, CacheEntry) io) \<Rightarrow> (js_string \<Rightarrow> js_string option \<Rightarrow> ('w, CacheEntry) io) \<Rightarrow>
   js_string \<Rightarrow> js_string option \<Rightarrow> ('w profile_world, LoadedProfile option \<times> js_string option) io" where
  "loadNameProfile C pending uncached canonical ownerArchAddress w =
     (let key = cacheKey canonical ownerArchAddress in
      case loadDecision (now C (pw_net w)) key (pw_profiles w) of
        Hit hit \<Rightarrow> (Inr (shownProfile hit), w)
      | Join \<Rightarrow>
          (case pending key (pw_net w) of
             (Inl e, n) \<Rightarrow> (Inl e, w\<lparr>pw_net := n\<rparr>)
           | (Inr entry, n) \<Rightarrow> (Inr (shownProfile entry), w\<lparr>pw_net := n\<rparr>))
      | Load \<Rightarrow>
          (let started = loadStarted key (pw_profiles w) in
           case uncached canonical ownerArchAddress (pw_net w) of
             (Inl e, n) \<Rightarrow> (Inl e, \<lparr>pw_net = n, pw_profiles = loadFinished key started\<rparr>)
           | (Inr entry, n) \<Rightarrow>
               (Inr (shownProfile entry),
                \<lparr>pw_net = n, pw_profiles = loadFinished key (entryStored key entry started)\<rparr>)))"

section \<open>Loads and invalidations, interleaved\<close>

text \<open>A request remembers when it was sent. Its answer is put together from several reads of accounts, and an account is
  read through the cache of \<^verbatim>\<open>arch-rpc.ts\<close>, which serves a value for five seconds after the read that fetched it has
  settled; \<open>readTime\<close> is the longest such read. So an answer can show the registry of moments before its request:
  \<open>lag\<close> earlier at most. The log keeps every answer with its time and with the oldest moment that any part of it
  shows.\<close>

definition lag :: "int \<Rightarrow> int" where
  "lag readTime = ACCOUNT_CACHE_TTL_MS + readTime"

datatype phase = Reading | Answered CacheEntry | Stored

record profile_state =
  ps_time :: int
  ps_profiles :: profile_cache
  ps_open :: "(js_string \<times> int \<times> phase) list"
  ps_log :: "(int \<times> int \<times> js_string \<times> CacheEntry) list"

definition noProfiles :: "int \<Rightarrow> profile_state" where
  "noProfiles t = \<lparr>ps_time = t, ps_profiles = \<lparr>pc_cache = Map.empty, pc_inflight = {}\<rparr>, ps_open = [], ps_log = []\<rparr>"

definition setPhase :: "js_string \<Rightarrow> phase \<Rightarrow> (js_string \<times> int \<times> phase) list \<Rightarrow> (js_string \<times> int \<times> phase) list" where
  "setPhase key ph reqs = map (\<lambda>(k, t, q). if k = key then (k, t, ph) else (k, t, q)) reqs"

definition dropRequest :: "js_string \<Rightarrow> (js_string \<times> int \<times> phase) list \<Rightarrow> (js_string \<times> int \<times> phase) list" where
  "dropRequest key reqs = filter (\<lambda>r. fst r \<noteq> key) reqs"

definition invalidated :: "js_string option \<Rightarrow> profile_state \<Rightarrow> profile_state" where
  "invalidated canonical s = s\<lparr>ps_profiles := invalidateNameProfile canonical (ps_profiles s)\<rparr>"

text \<open>The answer of a request: the entry and what it shows are not the cache's to choose, its expiry is.\<close>

definition answered :: "js_string \<Rightarrow> int \<Rightarrow> CacheEntry \<Rightarrow> profile_state \<Rightarrow> profile_state" where
  "answered key m entry s =
     s\<lparr>ps_open := setPhase key (Answered entry) (ps_open s), ps_log := (ps_time s, m, key, entry) # ps_log s\<rparr>"

inductive profileStep :: "int \<Rightarrow> profile_state \<Rightarrow> profile_state \<Rightarrow> bool" for readTime where
  tick: "0 \<le> d \<Longrightarrow> profileStep readTime s (s\<lparr>ps_time := ps_time s + d\<rparr>)"
| call: "loadDecision (ps_time s) key (ps_profiles s) = Load \<Longrightarrow>
    profileStep readTime s
      (s\<lparr>ps_profiles := loadStarted key (ps_profiles s), ps_open := (key, ps_time s, Reading) # ps_open s\<rparr>)"
| answer: "(key, t0, Reading) \<in> set (ps_open s) \<Longrightarrow> t0 - lag readTime \<le> m \<Longrightarrow> m \<le> ps_time s \<Longrightarrow>
    ce_expiresAt entry = ps_time s + PROFILE_TTL_MS \<Longrightarrow>
    profileStep readTime s (answered key m entry s)"
| store: "(key, t0, Answered entry) \<in> set (ps_open s) \<Longrightarrow>
    profileStep readTime s (s\<lparr>ps_profiles := entryStored key entry (ps_profiles s), ps_open := setPhase key Stored (ps_open s)\<rparr>)"
| finish: "(key, t0, Stored) \<in> set (ps_open s) \<Longrightarrow>
    profileStep readTime s (s\<lparr>ps_profiles := loadFinished key (ps_profiles s), ps_open := dropRequest key (ps_open s)\<rparr>)"
| reject: "(key, t0, Reading) \<in> set (ps_open s) \<Longrightarrow>
    profileStep readTime s (s\<lparr>ps_profiles := loadFinished key (ps_profiles s), ps_open := dropRequest key (ps_open s)\<rparr>)"
| invalidate: "profileStep readTime s (invalidated canonical s)"

inductive reachableProfiles :: "int \<Rightarrow> profile_state \<Rightarrow> bool" for readTime where
  start: "reachableProfiles readTime (noProfiles t)"
| step: "reachableProfiles readTime s \<Longrightarrow> profileStep readTime s s' \<Longrightarrow> reachableProfiles readTime s'"

lemma reachable_further: "(profileStep D)\<^sup>*\<^sup>* s s' \<Longrightarrow> reachableProfiles D s \<Longrightarrow> reachableProfiles D s'"
  by (induction rule: rtranclp_induct) (auto intro: reachableProfiles.step)

subsection \<open>The invariant\<close>

text \<open>\<open>logged\<close>: an answer for the key with this entry has been seen, no part of it older than \<open>M\<close>.\<close>

definition logged :: "int \<Rightarrow> profile_state \<Rightarrow> js_string \<Rightarrow> CacheEntry \<Rightarrow> bool" where
  "logged M s key entry \<longleftrightarrow> (\<exists>m. M \<le> m \<and> (ce_expiresAt entry - PROFILE_TTL_MS, m, key, entry) \<in> set (ps_log s))"

text \<open>The requests in flight are those that are open, one per key.\<close>

definition requestsInvariant :: "profile_state \<Rightarrow> bool" where
  "requestsInvariant s \<longleftrightarrow> distinct (map fst (ps_open s)) \<and> fst ` set (ps_open s) = pc_inflight (ps_profiles s) \<and>
     (\<forall>(t, m, key, entry) \<in> set (ps_log s). t \<le> ps_time s)"

text \<open>What is known of the key \<open>key\<close> was asked for at \<open>M\<close> or later.\<close>

definition knownFrom :: "int \<Rightarrow> js_string \<Rightarrow> int \<Rightarrow> profile_state \<Rightarrow> bool" where
  "knownFrom D key M s \<longleftrightarrow> M \<le> ps_time s \<and>
     (\<forall>entry. pc_cache (ps_profiles s) key = Some entry \<longrightarrow> logged (M - lag D) s key entry) \<and>
     (\<forall>t0 ph. (key, t0, ph) \<in> set (ps_open s) \<longrightarrow> M \<le> t0 \<and> (\<forall>entry. ph = Answered entry \<longrightarrow> logged (t0 - lag D) s key entry))"

lemma keys_setPhase [simp]: "map fst (setPhase key ph reqs) = map fst reqs" "fst ` set (setPhase key ph reqs) = fst ` set reqs"
proof -
  show "map fst (setPhase key ph reqs) = map fst reqs" by (induction reqs) (auto simp: setPhase_def)
  from arg_cong [OF this, of set] show "fst ` set (setPhase key ph reqs) = fst ` set reqs" by simp
qed

lemma in_setPhase: "(k, v, q) \<in> set (setPhase key ph reqs) \<longleftrightarrow>
    (if k = key then q = ph \<and> (\<exists>p. (k, v, p) \<in> set reqs) else (k, v, q) \<in> set reqs)"
  by (force simp: setPhase_def split: if_splits)

lemma in_dropRequest: "r \<in> set (dropRequest key reqs) \<longleftrightarrow> r \<in> set reqs \<and> fst r \<noteq> key"
  by (auto simp: dropRequest_def)

lemma distinct_dropRequest: "distinct (map fst reqs) \<Longrightarrow> distinct (map fst (dropRequest key reqs))"
  by (simp add: dropRequest_def distinct_map_filter)

lemma fst_dropRequest: "fst ` set (dropRequest key reqs) = fst ` set reqs - {key}"
  by (auto simp: dropRequest_def)

lemma invalidate_inflight [simp]: "pc_inflight (invalidateNameProfile canonical c) = pc_inflight c"
  by (simp add: invalidateNameProfile_def split: option.splits)

lemma requests_step:
  assumes "requestsInvariant s" "profileStep D s s'"
  shows "requestsInvariant s'"
  using assms(2)
proof (cases rule: profileStep.cases)
  case (tick d)
  then show ?thesis using assms(1) by (fastforce simp: requestsInvariant_def)
next
  case (call key)
  then have "key \<notin> pc_inflight (ps_profiles s)"
    by (auto simp: loadDecision_def split: option.splits if_splits)
  then show ?thesis using assms(1) call by (auto simp: requestsInvariant_def loadStarted_def)
qed (use assms(1) in \<open>auto simp: requestsInvariant_def answered_def entryStored_def loadFinished_def invalidated_def
      distinct_dropRequest fst_dropRequest\<close>)

lemma reachable_requests: "reachableProfiles D s \<Longrightarrow> requestsInvariant s"
proof (induction rule: reachableProfiles.induct)
  case (start t)
  show ?case by (simp add: requestsInvariant_def noProfiles_def)
qed (rule requests_step)

lemma invalidated_cache:
  "pc_cache (invalidateNameProfile canonical c) key = Some entry \<Longrightarrow> pc_cache c key = Some entry"
  by (auto simp: invalidateNameProfile_def split: option.splits if_splits)

lemma same_request: "distinct (map fst reqs) \<Longrightarrow> (k, v, p) \<in> set reqs \<Longrightarrow> (k, v', p') \<in> set reqs \<Longrightarrow> v = v' \<and> p = p'"
  by (metis eq_key_imp_eq_value Pair_inject)

lemma logged_grows: "logged M s key entry \<Longrightarrow> set (ps_log s) \<subseteq> set (ps_log s') \<Longrightarrow> logged M s' key entry"
  by (auto simp: logged_def)

lemma logged_less: "logged V s key entry \<Longrightarrow> W \<le> V \<Longrightarrow> logged W s key entry"
  unfolding logged_def by (elim exE conjE) (intro exI conjI, rule order_trans [of W V], assumption+)

lemma knownFromI:
  assumes "M \<le> ps_time s" "\<And>entry. pc_cache (ps_profiles s) key = Some entry \<Longrightarrow> logged (M - lag D) s key entry"
    and "\<And>v0 ph. (key, v0, ph) \<in> set (ps_open s) \<Longrightarrow> M \<le> v0"
    and "\<And>v0 entry. (key, v0, Answered entry) \<in> set (ps_open s) \<Longrightarrow> logged (v0 - lag D) s key entry"
  shows "knownFrom D key M s"
  using assms unfolding knownFrom_def by blast

lemma knownFromD:
  assumes "knownFrom D key M s"
  shows "M \<le> ps_time s" "pc_cache (ps_profiles s) key = Some entry \<Longrightarrow> logged (M - lag D) s key entry"
    "(key, v0, ph) \<in> set (ps_open s) \<Longrightarrow> M \<le> v0"
    "(key, v0, Answered entry) \<in> set (ps_open s) \<Longrightarrow> logged (v0 - lag D) s key entry"
  using assms unfolding knownFrom_def by blast+

text \<open>A step that adds nothing to the cache and no answer, and opens requests only at the present version.\<close>

lemma knownFrom_mono:
  assumes "knownFrom D key M s" "ps_time s \<le> ps_time s'" "set (ps_log s) \<subseteq> set (ps_log s')"
    and "\<And>entry. pc_cache (ps_profiles s') key = Some entry \<Longrightarrow> pc_cache (ps_profiles s) key = Some entry"
    and "\<And>v0 ph. (key, v0, ph) \<in> set (ps_open s') \<Longrightarrow> (key, v0, ph) \<in> set (ps_open s) \<or> (v0 = ps_time s \<and> ph = Reading)"
  shows "knownFrom D key M s'"
proof (rule knownFromI)
  note known = knownFromD [OF assms(1)]
  show "M \<le> ps_time s'" using known(1) assms(2) by simp
  show "logged (M - lag D) s' key entry" if "pc_cache (ps_profiles s') key = Some entry" for entry
    using logged_grows [OF known(2) [OF assms(4) [OF that]] assms(3)] .
  show "M \<le> v0" if "(key, v0, ph) \<in> set (ps_open s')" for v0 ph
    using assms(5) [OF that] known(1) known(3) [of v0 ph] by blast
  show "logged (v0 - lag D) s' key entry" if "(key, v0, Answered entry) \<in> set (ps_open s')" for v0 entry
    using assms(5) [OF that] logged_grows [OF known(4) assms(3)] by blast
qed

lemma knownFrom_answer:
  assumes "knownFrom D key M s" "requestsInvariant s" "(k, v0, Reading) \<in> set (ps_open s)" "v0 - lag D \<le> v"
    and "ce_expiresAt entry = ps_time s + PROFILE_TTL_MS"
    and s'': "s' = answered k v entry s"
  shows "knownFrom D key M s'"
proof (rule knownFromI)
  note known = knownFromD [OF assms(1)] and s' = s'' [unfolded answered_def]
  have log: "set (ps_log s) \<subseteq> set (ps_log s')" by (auto simp: s')
  have same: "v1 = v0" if "(k, v1, p) \<in> set (ps_open s)" for v1 p
    using same_request [OF _ that assms(3)] assms(2) by (simp add: requestsInvariant_def)
  show "M \<le> ps_time s'" using known(1) by (simp add: s')
  show "logged (M - lag D) s' key e" if "pc_cache (ps_profiles s') key = Some e" for e
    using that by (intro logged_grows [OF known(2) log]) (simp add: s')
  show "M \<le> v1" if r: "(key, v1, ph) \<in> set (ps_open s')" for v1 ph
  proof -
    from r obtain p where "(key, v1, p) \<in> set (ps_open s)" by (auto simp: s' in_setPhase split: if_splits)
    then show ?thesis by (rule known(3))
  qed
  show "logged (v1 - lag D) s' key e" if r: "(key, v1, Answered e) \<in> set (ps_open s')" for v1 e
  proof (cases "k = key")
    case True
    with r obtain p where "(k, v1, p) \<in> set (ps_open s)" "e = entry" by (auto simp: s' in_setPhase)
    then show ?thesis using True assms(4,5) same by (auto simp: logged_def s')
  next
    case False
    with r have "(key, v1, Answered e) \<in> set (ps_open s)" by (simp add: s' in_setPhase)
    then show ?thesis by (rule logged_grows [OF known(4) log])
  qed
qed

lemma knownFrom_store:
  assumes "knownFrom D key M s" "(k, v0, Answered entry) \<in> set (ps_open s)"
    and s': "s' = s\<lparr>ps_profiles := entryStored k entry (ps_profiles s), ps_open := setPhase k Stored (ps_open s)\<rparr>"
  shows "knownFrom D key M s'"
proof (rule knownFromI)
  note known = knownFromD [OF assms(1)]
  have log: "set (ps_log s) \<subseteq> set (ps_log s')" by (simp add: s')
  show "M \<le> ps_time s'" using known(1) by (simp add: s')
  show "logged (M - lag D) s' key e" if c: "pc_cache (ps_profiles s') key = Some e" for e
  proof (cases "k = key")
    case True
    with c have "e = entry" by (simp add: s' entryStored_def)
    with True known(4) assms(2) have "logged (v0 - lag D) s key e" by simp
    then have "logged (M - lag D) s key e" by (rule logged_less) (use True known(3) assms(2) in auto)
    then show ?thesis using log by (rule logged_grows)
  next
    case False
    with c have "pc_cache (ps_profiles s) key = Some e" by (simp add: s' entryStored_def)
    then show ?thesis by (rule logged_grows [OF known(2) log])
  qed
  show "M \<le> v1" if r: "(key, v1, ph) \<in> set (ps_open s')" for v1 ph
  proof -
    from r obtain p where "(key, v1, p) \<in> set (ps_open s)" by (auto simp: s' in_setPhase split: if_splits)
    then show ?thesis by (rule known(3))
  qed
  show "logged (v1 - lag D) s' key e" if r: "(key, v1, Answered e) \<in> set (ps_open s')" for v1 e
  proof -
    from r have "(key, v1, Answered e) \<in> set (ps_open s)" by (auto simp: s' in_setPhase split: if_splits)
    then show ?thesis by (rule logged_grows [OF known(4) log])
  qed
qed

lemma knownFrom_step:
  assumes "knownFrom D key M s" "requestsInvariant s" "profileStep D s s'"
  shows "knownFrom D key M s'"
  using assms(3)
proof (cases rule: profileStep.cases)
  case (answer k v0 v entry)
  show ?thesis by (rule knownFrom_answer [OF assms(1,2) answer(2,3,5,1)])
next
  case (store k v0 entry)
  show ?thesis by (rule knownFrom_store [OF assms(1) store(2,1)])
next
  case (tick d)
  show ?thesis unfolding tick(1) by (rule knownFrom_mono [OF assms(1)]) (simp_all add: tick(2))
next
  case (call k)
  show ?thesis unfolding call(1) by (rule knownFrom_mono [OF assms(1)]) (auto simp: loadStarted_def)
next
  case (finish k v0)
  show ?thesis unfolding finish(1) by (rule knownFrom_mono [OF assms(1)]) (simp_all add: loadFinished_def in_dropRequest)
next
  case (reject k v0)
  show ?thesis unfolding reject(1) by (rule knownFrom_mono [OF assms(1)]) (simp_all add: loadFinished_def in_dropRequest)
next
  case (invalidate canonical)
  show ?thesis unfolding invalidate(1)
    by (rule knownFrom_mono [OF assms(1)]) (auto simp: invalidated_def dest: invalidated_cache)
qed

lemma knownFrom_steps:
  assumes "(profileStep D)\<^sup>*\<^sup>* s s'" "reachableProfiles D s" "knownFrom D key M s"
  shows "knownFrom D key M s'"
  using assms(1)
proof (induction rule: rtranclp_induct)
  case (step t u)
  then have "requestsInvariant t" using reachable_requests reachable_further assms(2) by blast
  with step show ?case by (blast intro: knownFrom_step)
qed (rule assms(3))

lemma reachable_known: "reachableProfiles D s \<Longrightarrow> \<exists>M. knownFrom D key M s"
proof (induction rule: reachableProfiles.induct)
  case (start t)
  have "knownFrom D key t (noProfiles t)" by (simp add: knownFrom_def noProfiles_def)
  then show ?case ..
qed (blast intro: knownFrom_step reachable_requests)

lemma hit_known:
  assumes "knownFrom D key M s" "requestsInvariant s" "loadDecision (ps_time s) key (ps_profiles s) = Hit entry"
  obtains t m where "(t, m, key, entry) \<in> set (ps_log s)" "M - lag D \<le> m" "t \<le> ps_time s" "ps_time s < t + 15000"
proof -
  have entry: "pc_cache (ps_profiles s) key = Some entry" "ps_time s < ce_expiresAt entry"
    using assms(3) by (auto simp: loadDecision_def split: option.splits if_splits)
  then obtain m where "M - lag D \<le> m" "(ce_expiresAt entry - PROFILE_TTL_MS, m, key, entry) \<in> set (ps_log s)"
    using assms(1) by (auto simp: knownFrom_def logged_def)
  moreover from this have "ce_expiresAt entry - PROFILE_TTL_MS \<le> ps_time s"
    using assms(2) by (fastforce simp: requestsInvariant_def)
  ultimately show ?thesis using entry(2) by (intro that) (auto simp: PROFILE_TTL_MS_def)
qed

subsection \<open>Keys of a name\<close>

lemma takeWhile_bar: "124 \<notin> set a \<Longrightarrow> takeWhile (\<lambda>u. u \<noteq> 124) (a @ 124 # b) = a"
  by (induction a) auto

lemma canonical_no_bar: "canonicalName n \<Longrightarrow> (124 :: u16) \<notin> set n"
  using labelText_units
  by (fastforce simp: canonicalName_def ARCH_SUFFIX_def js_def list_all_iff labelUnit_def alnum_def)

lemma key_of_name:
  assumes "canonicalName m" "canonicalName n"
  shows "startsWith (cacheKey n owner) (m @ js ''|'') \<longleftrightarrow> n = m"
proof
  assume "startsWith (cacheKey n owner) (m @ js ''|'')"
  then obtain rest where "cacheKey n owner = m @ 124 # rest"
    by (auto simp: startsWith_iff_prefix js_def prefix_def)
  moreover have "takeWhile (\<lambda>u. u \<noteq> 124) (cacheKey n owner) = n"
    using takeWhile_bar [OF canonical_no_bar [OF assms(2)]] by (simp add: cacheKey_def js_def)
  ultimately show "n = m" using takeWhile_bar [OF canonical_no_bar [OF assms(1)]] by simp
qed (simp add: startsWith_def cacheKey_def js_def)

text \<open>An invalidation forgets exactly the entries of its name.\<close>

lemma invalidate_name:
  assumes "canonicalName m" "canonicalName n"
  shows "pc_cache (invalidateNameProfile (Some m) c) (cacheKey n owner) = (if n = m then None else pc_cache c (cacheKey n owner))"
proof -
  have "truthyText (Some m) = Some m"
    using assms(1) by (cases m) (auto simp: truthyText_def canonicalName_def ARCH_SUFFIX_def js_def)
  then show ?thesis using key_of_name [OF assms] by (simp add: invalidateNameProfile_def)
qed

section \<open>Properties\<close>

text \<open>C13. What a load is given from memory. In every interleaving of loads, answers and invalidations there is one
  request per key at most; and after an invalidation of a name every entry served for it is an answer less than fifteen
  seconds old no part of which shows the registry of a moment before \<open>M\<close> by more than the five seconds of the account
  cache and the time of one account read, where \<open>M\<close> is the invalidation, or the start of the request for the key that
  was in flight then.\<close>

theorem profile_cache_freshness:
  assumes "reachableProfiles readTime s" "canonicalName name"
    and "(profileStep readTime)\<^sup>*\<^sup>* (invalidated (Some name) s) s'"
    and "loadDecision (ps_time s') (cacheKey name owner) (ps_profiles s') = Hit entry"
    and "M \<le> ps_time s" "\<And>t0 ph. (cacheKey name owner, t0, ph) \<in> set (ps_open s) \<Longrightarrow> M \<le> t0"
  shows "distinct (map fst (ps_open s')) \<and>
    (\<exists>t m. (t, m, cacheKey name owner, entry) \<in> set (ps_log s') \<and> M - (5000 + readTime) \<le> m \<and>
       t \<le> ps_time s' \<and> ps_time s' < t + 15000)"
proof -
  let ?key = "cacheKey name owner" and ?s = "invalidated (Some name) s"
  have s: "reachableProfiles readTime ?s" using reachableProfiles.step [OF assms(1) invalidate] .
  have inv: "requestsInvariant s'" using reachable_requests [OF reachable_further [OF assms(3) s]] .
  obtain M0 where "knownFrom readTime ?key M0 s" using reachable_known [OF assms(1)] by blast
  then have "knownFrom readTime ?key M ?s"
    using assms(5,6) by (auto simp: knownFrom_def logged_def invalidated_def invalidate_name [OF assms(2,2)])
  from knownFrom_steps [OF assms(3) s this] inv assms(4) obtain t m where
    "(t, m, ?key, entry) \<in> set (ps_log s')" "M - lag readTime \<le> m" "t \<le> ps_time s'" "ps_time s' < t + 15000" by (rule hit_known)
  with inv show ?thesis by (auto simp: requestsInvariant_def lag_def ACCOUNT_CACHE_TTL_MS_def)
qed

definition sampleKey :: js_string where
  "sampleKey = cacheKey (js ''alice.arch'') None"

definition staleEntry :: CacheEntry where
  "staleEntry = \<lparr>ce_expiresAt = PROFILE_TTL_MS, ce_profile = None, ce_error = Some (js ''alice.arch is not registered.'')\<rparr>"

text \<open>The run that stores an answer.\<close>

definition answerStored :: "js_string \<Rightarrow> int \<Rightarrow> CacheEntry \<Rightarrow> profile_state \<Rightarrow> profile_state" where
  "answerStored key m entry s =
     (let s' = answered key m entry s in
      s'\<lparr>ps_profiles := entryStored key entry (ps_profiles s'), ps_open := setPhase key Stored (ps_open s')\<rparr>)"

lemma answerStored_steps:
  assumes "(key, t0, Reading) \<in> set (ps_open s)" "t0 - lag D \<le> m" "m \<le> ps_time s" "ce_expiresAt entry = ps_time s + PROFILE_TTL_MS"
  shows "(profileStep D)\<^sup>*\<^sup>* s (answerStored key m entry s)"
proof -
  have "profileStep D s (answered key m entry s)" by (rule answer [OF assms])
  moreover have "(key, t0, Answered entry) \<in> set (ps_open (answered key m entry s))"
    using assms(1) by (force simp: answered_def setPhase_def)
  from store [OF this, of D] have "profileStep D (answered key m entry s) (answerStored key m entry s)"
    unfolding answerStored_def Let_def .
  ultimately show ?thesis by (meson r_into_rtranclp rtranclp.rtrancl_into_rtrancl)
qed

lemma answerStored_hit:
  assumes "ce_expiresAt entry = ps_time s + PROFILE_TTL_MS"
  shows "loadDecision (ps_time s) key (ps_profiles (answerStored key m entry s)) = Hit entry"
  using assms by (simp add: loadDecision_def answerStored_def answered_def entryStored_def PROFILE_TTL_MS_def Let_def)

text \<open>C33. An invalidation does not make the next load fresh. While a read of the name is in flight, a load right after the
  invalidation joins it and is given whatever that read settles with; and every answer that the read may have at that
  time, parts of it showing the registry of any moment since its start or, through the account cache, before it, fills
  the cache again: there is a run in which no other answer arrives, after which the name is answered from memory with
  it.\<close>

theorem invalidation_misses_reads_in_flight:
  assumes "reachableProfiles readTime s" "canonicalName name" "(cacheKey name owner, t0, Reading) \<in> set (ps_open s)"
    and "t0 - (5000 + readTime) \<le> m" "m \<le> ps_time s" "ce_expiresAt entry = ps_time s + 15000"
  shows "(\<forall>C pending uncached w. pw_profiles w = ps_profiles (invalidated (Some name) s) \<longrightarrow>
      loadNameProfile C pending uncached name owner w =
        (case pending (cacheKey name owner) (pw_net w) of
           (Inl e, n) \<Rightarrow> (Inl e, w\<lparr>pw_net := n\<rparr>)
         | (Inr answer, n) \<Rightarrow> (Inr (shownProfile answer), w\<lparr>pw_net := n\<rparr>))) \<and>
    (\<exists>s'. (profileStep readTime)\<^sup>*\<^sup>* (invalidated (Some name) s) s' \<and> ps_time s' = ps_time s \<and>
       loadDecision (ps_time s') (cacheKey name owner) (ps_profiles s') = Hit entry \<and>
       ps_log s' = (ps_time s, m, cacheKey name owner, entry) # ps_log s)"
proof -
  let ?key = "cacheKey name owner" and ?i = "invalidated (Some name) s"
  have "requestsInvariant s" by (rule reachable_requests [OF assms(1)])
  with assms(3) have "?key \<in> pc_inflight (ps_profiles s)" unfolding requestsInvariant_def by force
  then have join: "loadDecision t ?key (ps_profiles ?i) = Join" for t
    by (simp add: loadDecision_def invalidated_def invalidate_name [OF assms(2,2)])
  have e: "ce_expiresAt entry = ps_time ?i + PROFILE_TTL_MS" using assms(6) by (simp add: invalidated_def PROFILE_TTL_MS_def)
  have "(profileStep readTime)\<^sup>*\<^sup>* ?i (answerStored ?key m entry ?i)"
    using assms(3-5) e by (intro answerStored_steps) (simp_all add: invalidated_def lag_def ACCOUNT_CACHE_TTL_MS_def)
  moreover have "ps_time (answerStored ?key m entry ?i) = ps_time s"
    "ps_log (answerStored ?key m entry ?i) = (ps_time s, m, ?key, entry) # ps_log s"
    by (simp_all add: answerStored_def answered_def invalidated_def Let_def)
  moreover have "ps_time ?i = ps_time s" by (simp add: invalidated_def)
  ultimately show ?thesis using answerStored_hit [OF e, of ?key m] join
    by (intro conjI exI [of _ "answerStored ?key m entry ?i"]) (simp_all add: loadNameProfile_def Let_def)
qed

text \<open>A request that is open for \<^verbatim>\<open>alice.arch\<close> since the start.\<close>

definition sampleReading :: profile_state where
  "sampleReading = (noProfiles 0)\<lparr>ps_profiles := loadStarted sampleKey (ps_profiles (noProfiles 0)),
     ps_open := [(sampleKey, 0, Reading)]\<rparr>"

lemma sampleReading_reachable: "reachableProfiles 1000 sampleReading" "(sampleKey, 0, Reading) \<in> set (ps_open sampleReading)"
proof -
  have "profileStep 1000 (noProfiles 0) sampleReading"
    using call [of "noProfiles 0" sampleKey 1000] by (simp add: loadDecision_def noProfiles_def sampleReading_def)
  then show "reachableProfiles 1000 sampleReading" by (rule reachableProfiles.step [OF reachableProfiles.start])
qed (simp add: sampleReading_def)

theorem invalidation_misses_reads_in_flight_witness:
  "\<exists>s'. (profileStep 1000)\<^sup>*\<^sup>* (invalidated (Some (js ''alice.arch'')) sampleReading) s' \<and> ps_time s' = 0 \<and>
     loadDecision 0 (cacheKey (js ''alice.arch'') None) (ps_profiles s') = Hit staleEntry \<and>
     ps_log s' = [(0, - 6000, cacheKey (js ''alice.arch'') None, staleEntry)]"
proof -
  have "ce_expiresAt staleEntry = ps_time sampleReading + 15000" "(- 6000 :: int) \<le> ps_time sampleReading"
    by (simp_all add: sampleReading_def noProfiles_def staleEntry_def PROFILE_TTL_MS_def)
  from invalidation_misses_reads_in_flight [OF sampleReading_reachable(1) alice_canonical
      sampleReading_reachable(2) [unfolded sampleKey_def] _ this(2,1)]
  have "\<exists>s'. (profileStep 1000)\<^sup>*\<^sup>* (invalidated (Some (js ''alice.arch'')) sampleReading) s' \<and> ps_time s' = ps_time sampleReading \<and>
     loadDecision (ps_time s') (cacheKey (js ''alice.arch'') None) (ps_profiles s') = Hit staleEntry \<and>
     ps_log s' = (ps_time sampleReading, - 6000, cacheKey (js ''alice.arch'') None, staleEntry) # ps_log sampleReading"
    by simp blast
  then show ?thesis by (auto simp: sampleReading_def noProfiles_def)
qed

theorem profile_cache_freshness_witness:
  "\<exists>s s' entry t m. reachableProfiles 1000 s \<and> (profileStep 1000)\<^sup>*\<^sup>* (invalidated (Some (js ''alice.arch'')) s) s' \<and>
     ps_time s' = 9000 \<and> loadDecision 9000 (cacheKey (js ''alice.arch'') None) (ps_profiles s') = Hit entry \<and>
     (t, m, cacheKey (js ''alice.arch'') None, entry) \<in> set (ps_log s') \<and> - 6000 \<le> m \<and> 9000 < t + 15000"
proof -
  let ?i = "invalidated (Some (js ''alice.arch'')) sampleReading" and ?k = sampleKey
  let ?a = "answerStored ?k 0 staleEntry ?i"
  let ?s = "?a\<lparr>ps_time := ps_time ?a + 9000\<rparr>"
  have i: "(?k, 0, Reading) \<in> set (ps_open ?i)" "ps_time ?i = 0" by (simp_all add: invalidated_def sampleReading_def noProfiles_def)
  have "(profileStep 1000)\<^sup>*\<^sup>* ?i ?a"
    using i by (intro answerStored_steps [of _ 0]) (simp_all add: staleEntry_def lag_def ACCOUNT_CACHE_TTL_MS_def)
  moreover have "profileStep 1000 ?a ?s" by (rule tick) simp
  ultimately have steps: "(profileStep 1000)\<^sup>*\<^sup>* ?i ?s" by (rule rtranclp.rtrancl_into_rtrancl)
  have time: "ps_time ?s = 9000" using i(2) by (simp add: answerStored_def answered_def Let_def)
  have hit: "loadDecision (ps_time ?s) ?k (ps_profiles ?s) = Hit staleEntry"
    unfolding time by (simp add: loadDecision_def answerStored_def entryStored_def staleEntry_def PROFILE_TTL_MS_def Let_def)
  have open': "0 \<le> t0" if "(?k, t0, ph) \<in> set (ps_open sampleReading)" for t0 ph
    using that by (simp add: sampleReading_def)
  have start: "(0::int) \<le> ps_time sampleReading" by (simp add: sampleReading_def noProfiles_def)
  have "\<exists>t m. (t, m, ?k, staleEntry) \<in> set (ps_log ?s) \<and> 0 - (5000 + 1000) \<le> m \<and> t \<le> ps_time ?s \<and> ps_time ?s < t + 15000"
    by (rule conjunct2 [OF profile_cache_freshness [where name = "js ''alice.arch''" and owner = None, folded sampleKey_def,
          OF sampleReading_reachable(1) alice_canonical steps hit start]]) (erule open')
  then obtain t m where "(t, m, ?k, staleEntry) \<in> set (ps_log ?s)" "- 6000 \<le> m" "9000 < t + 15000"
    unfolding time by auto
  then show ?thesis unfolding sampleKey_def [symmetric]
    using sampleReading_reachable(1) steps time hit [unfolded time] by blast
qed

end
