(* ===== verification/Record_Rows.thy ===== *)
theory Record_Rows
  imports Name_Profile Manifest
begin

text \<open>
  The rows of the profile editor: \<^verbatim>\<open>records.ts\<close> of the manager. One row for every record a name can have, in groups.
  The grouping loses no row and shows none twice, and every text key of the catalog has exactly one row.
\<close>

datatype RecordRowKind = ArchOwnerRow | PrimaryRow | TaprootRow | TokenAtaRow | TextRow

datatype RecordGroupId = PriorityGroup | PaymentsGroup | WebGroup | ProfileGroup | SocialGroup

record ProfileRecordRow =
  pr_id :: js_string
  pr_kind :: RecordRowKind
  pr_label :: js_string
  pr_monogram :: js_string
  pr_description :: js_string
  pr_group :: RecordGroupId
  pr_placeholder :: "js_string option"
  pr_textKey :: "js_string option"
  pr_writable :: bool
  pr_gateReason :: "js_string option"
  pr_currentDisplay :: "js_string option"
  pr_published :: bool
  pr_revision :: int

definition liveTextRecordsEnabled :: bool where
  "liveTextRecordsEnabled \<longleftrightarrow> manifestSupportsTextRecords (mf_features loadTestnetManifest)"

definition tokenAtaEnabled :: bool where
  "tokenAtaEnabled \<longleftrightarrow> length (mf_tokenPrograms loadTestnetManifest) > 0"

definition TEXT_GROUPS :: "(js_string \<times> RecordGroupId) list" where
  "TEXT_GROUPS =
     [(js ''eth'', PaymentsGroup), (js ''ltc'', PaymentsGroup), (js ''doge'', PaymentsGroup), (js ''bsc'', PaymentsGroup),
      (js ''inj'', PaymentsGroup), (js ''ipfs'', WebGroup), (js ''arwv'', WebGroup), (js ''ipns'', WebGroup),
      (js ''shdw'', WebGroup), (js ''point'', WebGroup), (js ''url'', WebGroup), (js ''email'', ProfileGroup),
      (js ''pic'', ProfileGroup), (js ''discord'', SocialGroup), (js ''github'', SocialGroup), (js ''reddit'', SocialGroup),
      (js ''twitter'', SocialGroup), (js ''telegram'', SocialGroup)]"

definition TEXT_MONOGRAMS :: "(js_string \<times> js_string) list" where
  "TEXT_MONOGRAMS =
     [(js ''eth'', [0x039e]), (js ''ltc'', [0x0141]), (js ''doge'', [0x00d0]), (js ''bsc'', js ''BNB''), (js ''inj'', js ''INJ''),
      (js ''ipfs'', js ''IPFS''), (js ''arwv'', js ''AR''), (js ''ipns'', js ''IPNS''), (js ''shdw'', js ''SH''),
      (js ''point'', js ''PT''), (js ''url'', js ''URL''), (js ''email'', js ''@''), (js ''pic'', js ''PIC''),
      (js ''discord'', js ''DC''), (js ''github'', js ''GH''), (js ''reddit'', js ''RD''), (js ''twitter'', js ''X''),
      (js ''telegram'', js ''TG'')]"

text \<open>A group of the table: its id, title, description, and whether it can be collapsed.\<close>

record RecordGroup =
  rg_id :: RecordGroupId
  rg_title :: js_string
  rg_description :: js_string
  rg_collapsible :: bool

definition RECORD_GROUPS :: "RecordGroup list" where
  "RECORD_GROUPS =
     [\<lparr>rg_id = PriorityGroup, rg_title = js ''Arch identity'',
       rg_description = js ''Your primary Arch destination and reverse identity.'', rg_collapsible = False\<rparr>,
      \<lparr>rg_id = PaymentsGroup, rg_title = js ''Payments'',
       rg_description = js ''Addresses people can use to pay this name.'', rg_collapsible = False\<rparr>,
      \<lparr>rg_id = WebGroup, rg_title = js ''Web & content'',
       rg_description = js ''Connect your name to websites and decentralized content.'', rg_collapsible = True\<rparr>,
      \<lparr>rg_id = ProfileGroup, rg_title = js ''Profile'',
       rg_description = js ''Public contact and profile details.'', rg_collapsible = True\<rparr>,
      \<lparr>rg_id = SocialGroup, rg_title = js ''Social'',
       rg_description = js ''Public usernames linked to this identity.'', rg_collapsible = True\<rparr>]"

record profile_params =
  pp_ownerDisplay :: "js_string option"
  pp_primaryName :: "js_string option"
  pp_canonicalName :: "js_string option"
  pp_archOwnerRevision :: int
  pp_taprootDisplay :: "js_string option"
  pp_taprootRevision :: int
  pp_textByKey :: "js_string \<rightharpoonup> text_entry option"

definition archOwnerRow :: "profile_params \<Rightarrow> ProfileRecordRow" where
  "archOwnerRow params =
     \<lparr>pr_id = js ''arch-owner'', pr_kind = ArchOwnerRow, pr_label = js ''Arch destination'', pr_monogram = js ''A'',
      pr_description = js ''Default Arch account for this name.'', pr_group = PriorityGroup, pr_placeholder = None,
      pr_textKey = None, pr_writable = True, pr_gateReason = None, pr_currentDisplay = pp_ownerDisplay params,
      pr_published = (truthyText (pp_ownerDisplay params) \<noteq> None), pr_revision = pp_archOwnerRevision params\<rparr>"

definition isPrimary :: "profile_params \<Rightarrow> bool" where
  "isPrimary params \<longleftrightarrow>
     truthyText (pp_primaryName params) \<noteq> None \<and> truthyText (pp_canonicalName params) \<noteq> None \<and>
     pp_primaryName params = pp_canonicalName params"

definition primaryRow :: "profile_params \<Rightarrow> ProfileRecordRow" where
  "primaryRow params =
     \<lparr>pr_id = js ''primary'', pr_kind = PrimaryRow, pr_label = js ''Primary name'', pr_monogram = [0x2605],
      pr_description = js ''Reverse lookup identity for your wallet.'', pr_group = PriorityGroup, pr_placeholder = None,
      pr_textKey = None, pr_writable = True, pr_gateReason = None,
      pr_currentDisplay = Some
        (if isPrimary params then js ''This name is primary for the connected wallet''
         else case truthyText (pp_primaryName params) of
           Some primary \<Rightarrow> js ''Wallet primary is '' @ primary
         | None \<Rightarrow> js ''Not set as primary''),
      pr_published = isPrimary params, pr_revision = 0\<rparr>"

definition taprootRow :: "profile_params \<Rightarrow> ProfileRecordRow" where
  "taprootRow params =
     \<lparr>pr_id = js ''bitcoin-taproot'', pr_kind = TaprootRow, pr_label = js ''Bitcoin Taproot'', pr_monogram = [0x20bf],
      pr_description = js ''Bech32m Taproot payment address for this network.'', pr_group = PaymentsGroup,
      pr_placeholder = Some (js ''tb1p'' @ [0x2026]), pr_textKey = None, pr_writable = True, pr_gateReason = None,
      pr_currentDisplay = pp_taprootDisplay params, pr_published = (truthyText (pp_taprootDisplay params) \<noteq> None),
      pr_revision = pp_taprootRevision params\<rparr>"

definition tokenRow :: ProfileRecordRow where
  "tokenRow =
     \<lparr>pr_id = js ''token-ata'', pr_kind = TokenAtaRow, pr_label = js ''Token receive account'', pr_monogram = js ''T'',
      pr_description = js ''Receive supported tokens through this name.'', pr_group = PaymentsGroup, pr_placeholder = None,
      pr_textKey = None, pr_writable = True, pr_gateReason = None, pr_currentDisplay = None, pr_published = False,
      pr_revision = 0\<rparr>"

text \<open>The two tables are total on the catalog; a key they lack would give \<open>undefined\<close>.\<close>

definition textRow :: "profile_params \<Rightarrow> TextRecordSpec \<Rightarrow> ProfileRecordRow" where
  "textRow params spec =
     (let existing = Option.bind (pp_textByKey params (tr_key spec)) (\<lambda>e. e) in
      \<lparr>pr_id = js ''text:'' @ tr_key spec, pr_kind = TextRow, pr_label = tr_label spec,
       pr_monogram = the (map_of TEXT_MONOGRAMS (tr_key spec)), pr_description = tr_description spec,
       pr_group = the (map_of TEXT_GROUPS (tr_key spec)), pr_placeholder = Some (tr_placeholder spec),
       pr_textKey = Some (tr_key spec), pr_writable = liveTextRecordsEnabled,
       pr_gateReason = (if liveTextRecordsEnabled then None else Some (js ''Not available on this network yet'')),
       pr_currentDisplay = map_option te_value existing,
       pr_published = (truthyText (map_option te_value existing) \<noteq> None),
       pr_revision = (case existing of Some e \<Rightarrow> te_revision e | None \<Rightarrow> 0)\<rparr>)"

definition buildProfileRows :: "(js_string \<Rightarrow> js_string option) \<Rightarrow> profile_params \<Rightarrow> ProfileRecordRow list" where
  "buildProfileRows urlProtocol params =
     [archOwnerRow params, primaryRow params, taprootRow params] @ (if tokenAtaEnabled then [tokenRow] else []) @
     map (textRow params) (TEXT_RECORD_CATALOG urlProtocol)"

record row_group = RecordGroup +
  rg_publishedCount :: nat
  rg_rows :: "ProfileRecordRow list"

definition groupProfileRows :: "ProfileRecordRow list \<Rightarrow> row_group list" where
  "groupProfileRows rows =
     filter (\<lambda>group. length (rg_rows group) > 0)
       (map (\<lambda>group. RecordGroup.extend group \<lparr>
           rg_publishedCount = length (filter (\<lambda>row. pr_group row = rg_id group \<and> pr_published row) rows),
           rg_rows = filter (\<lambda>row. pr_group row = rg_id group) rows\<rparr>) RECORD_GROUPS)"

definition nextOpenEditor :: "js_string option \<Rightarrow> js_string \<Rightarrow> js_string option" where
  "nextOpenEditor currentId requestedId = (if currentId = Some requestedId then None else Some requestedId)"

definition validateDraft :: "(js_string \<Rightarrow> js_string option) \<Rightarrow> ProfileRecordRow \<Rightarrow> js_string \<Rightarrow> js_string option" where
  "validateDraft urlProtocol row draft =
     (if pr_kind row = TaprootRow then (if trim draft = [] then Some (js ''Enter a Taproot address.'') else None)
      else case truthyText (pr_textKey row) of
        Some key \<Rightarrow> if pr_kind row = TextRow then validateTextRecordInput urlProtocol key draft else None
      | None \<Rightarrow> None)"

section \<open>Groups\<close>

lemma groups_once:
  "mset (concat (map (\<lambda>g. filter (\<lambda>row. pr_group row = g) rows) [PriorityGroup, PaymentsGroup, WebGroup, ProfileGroup, SocialGroup])) =
   mset rows"
proof (induction rows)
  case (Cons row rows)
  then show ?case by (cases "pr_group row") simp_all
qed simp

lemma group_ids: "map rg_id RECORD_GROUPS = [PriorityGroup, PaymentsGroup, WebGroup, ProfileGroup, SocialGroup]"
  by (simp add: RECORD_GROUPS_def)

lemma drop_empty: "concat (map f (filter (\<lambda>x. length (f x) > 0) xs)) = concat (map f xs)"
  by (induction xs) auto

lemma grouped_rows:
  "concat (map rg_rows (groupProfileRows rows)) =
   concat (map (\<lambda>g. filter (\<lambda>row. pr_group row = g) rows) (map rg_id RECORD_GROUPS))"
  unfolding groupProfileRows_def drop_empty by (simp add: comp_def RecordGroup.defs)

lemma count_in_group:
  "g \<in> set (groupProfileRows rows) \<Longrightarrow> rg_publishedCount g = length (filter pr_published (rg_rows g))"
  by (auto simp: groupProfileRows_def RecordGroup.defs filter_filter conj_commute intro!: arg_cong [of _ _ length] filter_cong)

lemma length_filter_concat: "length (filter p (concat xss)) = sum_list (map (\<lambda>xs. length (filter p xs)) xss)"
  by (induction xss) simp_all

section \<open>Rows\<close>

lemma map_filter_none: "list_all (\<lambda>x. f x = None) xs \<Longrightarrow> List.map_filter f (xs @ ys) = List.map_filter f ys"
  by (induction xs) auto

lemma map_filter_textRow: "List.map_filter pr_textKey (map (textRow params) specs) = map tr_key specs"
  by (induction specs) (simp_all add: textRow_def Let_def)

lemma other_rows:
  "list_all (\<lambda>row. pr_textKey row = None \<and> \<not> startsWith (pr_id row) (js ''text:''))
     ([archOwnerRow params, primaryRow params, taprootRow params] @ (if tokenAtaEnabled then [tokenRow] else []))"
  by (simp add: archOwnerRow_def primaryRow_def taprootRow_def tokenRow_def startsWith_def js_def)

lemma distinct_other_rows:
  "distinct (map pr_id ([archOwnerRow params, primaryRow params, taprootRow params] @ (if tokenAtaEnabled then [tokenRow] else [])))"
  by (simp add: archOwnerRow_def primaryRow_def taprootRow_def tokenRow_def js_def)

lemma textRow_id: "pr_id (textRow params spec) = js ''text:'' @ tr_key spec"
  by (simp add: textRow_def Let_def)

lemma distinct_textRows: "distinct (map pr_id (map (textRow params) (TEXT_RECORD_CATALOG U)))"
proof -
  have "map pr_id (map (textRow params) (TEXT_RECORD_CATALOG U)) = map (\<lambda>k. js ''text:'' @ k) (map tr_key (TEXT_RECORD_CATALOG U))"
    by (simp add: textRow_id)
  then show ?thesis using catalog_keys_distinct [of U] by (simp only: distinct_map [of "\<lambda>k. js ''text:'' @ k"]) (simp add: inj_on_def)
qed

section \<open>Properties\<close>

text \<open>C27. The editor shows every record once. The rows have different ids, with one row for each text key of the catalog in
  its order; the groups together hold exactly the rows, none of them is empty, and their counts add up to the number of
  published rows.\<close>

theorem profile_rows_partition:
  "let rows = buildProfileRows urlProtocol params; groups = groupProfileRows rows in
   distinct (map pr_id rows) \<and> List.map_filter pr_textKey rows = catalogKeys urlProtocol \<and>
   mset (concat (map rg_rows groups)) = mset rows \<and> list_all (\<lambda>group. rg_rows group \<noteq> []) groups \<and>
   sum_list (map rg_publishedCount groups) = length (filter pr_published rows)"
proof -
  let ?other = "[archOwnerRow params, primaryRow params, taprootRow params] @ (if tokenAtaEnabled then [tokenRow] else [])"
  let ?text = "map (textRow params) (TEXT_RECORD_CATALOG urlProtocol)"
  let ?rows = "buildProfileRows urlProtocol params"
  let ?groups = "groupProfileRows ?rows"
  have rows: "?rows = ?other @ ?text" by (simp add: buildProfileRows_def)
  have "startsWith (pr_id row) (js ''text:'')" if "row \<in> set ?text" for row
    using that by (auto simp: textRow_id startsWith_iff_prefix)
  then have "set (map pr_id ?other) \<inter> set (map pr_id ?text) = {}"
    using other_rows [of params] unfolding list_all_iff by (force simp del: append_Cons)
  then have "distinct (map pr_id ?rows)"
    unfolding rows using distinct_other_rows [of params] distinct_textRows [of params urlProtocol]
    by (simp only: map_append distinct_append)
  moreover have "List.map_filter pr_textKey ?rows = catalogKeys urlProtocol"
    unfolding rows using other_rows [of params]
    by (subst map_filter_none) (simp_all only: list_all_iff map_filter_textRow catalogKeys_def, blast)
  moreover have parts: "mset (concat (map rg_rows ?groups)) = mset ?rows"
    unfolding grouped_rows group_ids by (rule groups_once)
  moreover have "list_all (\<lambda>group. rg_rows group \<noteq> []) ?groups"
    by (auto simp: groupProfileRows_def list_all_iff)
  moreover have "sum_list (map rg_publishedCount ?groups) = length (filter pr_published ?rows)"
  proof -
    have "map rg_publishedCount ?groups = map (\<lambda>xs. length (filter pr_published xs)) (map rg_rows ?groups)"
      using count_in_group by auto
    then have "sum_list (map rg_publishedCount ?groups) = length (filter pr_published (concat (map rg_rows ?groups)))"
      by (simp only: length_filter_concat)
    also have "\<dots> = size (filter_mset pr_published (mset (concat (map rg_rows ?groups))))"
      by (simp only: mset_filter [symmetric] size_mset)
    also have "\<dots> = length (filter pr_published ?rows)"
      unfolding parts by (simp only: mset_filter [symmetric] size_mset)
    finally show ?thesis .
  qed
  ultimately show ?thesis unfolding Let_def by (intro conjI)
qed

end
