(* ===== verification/Recent_Reads.thy ===== *)
theory Recent_Reads
  imports Submit_Text Explorer_Rest Client
begin

text \<open>
  What a read of the manager's transport tells about the ledger. The transport of the manager answers reads from a cache
  of five seconds, and its reads may fail; so a read shows a ledger of the recent past, or nothing. \<open>showsPast\<close> is
  that contract over any transport, and \<open>split_showsPast\<close> derives it for \<open>createSplitAnsTransport\<close> from what the node
  answers: the contract of the outside is \<open>honestNode\<close>, and says nothing about the cache.
\<close>

section \<open>Transports that show the past\<close>

text \<open>Of a world, \<open>past\<close> gives the ledgers that a read ending in it may show; \<open>I\<close> are the worlds of the run.\<close>

definition showsPast :: "('w, 'tx) AnsTransport \<Rightarrow> ('w \<Rightarrow> bool) \<Rightarrow> ('w \<Rightarrow> ledger set) \<Rightarrow> bool" where
  "showsPast T I past \<longleftrightarrow>
     (\<forall>a. triple I (readAccountInfo T a) (\<lambda>v w. I w \<and> (\<exists>L \<in> past w. lg_account L a = v)) (\<lambda>_. I)) \<and>
     (\<forall>txid. triple I (getProcessedTransaction T txid) (\<lambda>_. I) (\<lambda>_. I)) \<and>
     (\<forall>tx. triple I (sendTransaction T tx) (\<lambda>_. I) (\<lambda>_. I)) \<and>
     triple I (getBestBlockHash T) (\<lambda>_. I) (\<lambda>_. I)"

lemma showsPastD:
  assumes "showsPast T I past"
  shows "triple I (readAccountInfo T a) (\<lambda>v w. I w \<and> (\<exists>L \<in> past w. lg_account L a = v)) (\<lambda>_. I)"
    "triple I (getProcessedTransaction T txid) (\<lambda>_. I) (\<lambda>_. I)"
    "triple I (sendTransaction T tx) (\<lambda>_. I) (\<lambda>_. I)" "triple I (getBestBlockHash T) (\<lambda>_. I) (\<lambda>_. I)"
  using assms by (simp_all add: showsPast_def)

section \<open>The node\<close>

text \<open>The chain has one ledger at each moment, \<open>led\<close>. An operation of the network stays in the run and does not turn the
  clock back.\<close>

definition stays :: "('n \<Rightarrow> bool) \<Rightarrow> ('n \<Rightarrow> int) \<Rightarrow> ('n, 'a) io \<Rightarrow> bool" where
  "stays I clock m \<longleftrightarrow> (\<forall>t. triple (\<lambda>n. I n \<and> t \<le> clock n) m (\<lambda>_ n. I n \<and> t \<le> clock n) (\<lambda>_ n. I n \<and> t \<le> clock n))"

definition accountShown :: "(int \<Rightarrow> ledger) \<Rightarrow> bytes \<Rightarrow> AccountInfo option \<Rightarrow> int \<Rightarrow> int \<Rightarrow> bool" where
  "accountShown led a v lo hi \<longleftrightarrow> (\<exists>t. lo \<le> t \<and> t \<le> hi \<and> lg_account (led t) a = v)"

text \<open>An honest node answers a request for an account with the account of a moment at most \<open>D\<close> before the answer arrives, and
  says that there is none only when there was none; it may fail in any other way. The same holds of the reads that
  another caller of the transport has in flight.\<close>

definition answersShow ::
  "(int \<Rightarrow> ledger) \<Rightarrow> int \<Rightarrow> 'n endpoint \<Rightarrow> js_string \<Rightarrow> bytes \<Rightarrow> 'n \<Rightarrow> bool" where
  "answersShow led D E rpcUrl a n \<longleftrightarrow>
     (\<forall>params. params_read_account_info (KeyBytes a) = Inr params \<longrightarrow>
       (case rpc E rpcUrl (js ''read_account_info'') params n of
          (Inr result, n') \<Rightarrow> \<forall>v. parseAccountPayload result = Inr v \<longrightarrow> accountShown led a v (ep_now E n' - D) (ep_now E n')
        | (Inl e, n') \<Rightarrow> isAccountMissingError (ep_lower E) (errorMessage e) \<longrightarrow>
            accountShown led a None (ep_now E n' - D) (ep_now E n'))) \<and>
     (case ep_pending E (bytesToHex a) n of
        (Inr v, n') \<Rightarrow> accountShown led a v (ep_now E n' - D) (ep_now E n')
      | (Inl e, n') \<Rightarrow> True)"

definition honestNode ::
  "'n endpoint \<Rightarrow> 'n explorer \<Rightarrow> js_string \<Rightarrow> (int \<Rightarrow> ledger) \<Rightarrow> int \<Rightarrow> ('n \<Rightarrow> bool) \<Rightarrow> bool" where
  "honestNode E X rpcUrl led D I \<longleftrightarrow>
     (\<forall>url body. stays I (ep_now E) (ep_post E url body)) \<and> (\<forall>key. stays I (ep_now E) (ep_pending E key)) \<and>
     (\<forall>url t. stays I (ep_now E) (ex_get X url t)) \<and> (\<forall>r. stays I (ep_now E) (ex_json X r)) \<and>
     (\<forall>d n. I n \<longrightarrow> I (ex_sleep X d n) \<and> ep_now E n \<le> ep_now E (ex_sleep X d n)) \<and>
     (\<forall>a n. I n \<longrightarrow> answersShow led D E rpcUrl a n)"

lemma staysD:
  assumes "stays I clock m" "m n = (r, n')" "I n"
  shows "I n'" "clock n \<le> clock n'"
proof -
  have "triple (\<lambda>v. I v \<and> clock n \<le> clock v) m (\<lambda>_ v. I v \<and> clock n \<le> clock v) (\<lambda>_ v. I v \<and> clock n \<le> clock v)"
    using assms(1) by (simp add: stays_def)
  from this [unfolded triple_def, rule_format, OF conjI [OF assms(3) order_refl]]
  show "I n'" "clock n \<le> clock n'" using assms(2) by (simp_all split: sum.splits)
qed

lemma staysI:
  assumes "\<And>n r n'. I n \<Longrightarrow> m n = (r, n') \<Longrightarrow> I n' \<and> clock n \<le> clock n'"
  shows "stays I clock m"
  unfolding stays_def using assms by (intro allI tripleI) (metis order_trans)+

named_theorems stays_intros \<open>compositions that stay in the run\<close>

lemma stays_pure [stays_intros]: "stays I clock (retIO a)" "stays I clock (throwIO e)" "stays I clock (pureIO r)"
  by (auto intro: staysI)

lemma stays_bind [stays_intros]: "stays I clock m \<Longrightarrow> (\<And>a. stays I clock (k a)) \<Longrightarrow> stays I clock (bindIO m k)"
  unfolding stays_def by (blast intro: triple_bind)

lemma stays_catch [stays_intros]: "stays I clock m \<Longrightarrow> (\<And>e. stays I clock (h e)) \<Longrightarrow> stays I clock (catchIO m h)"
  unfolding stays_def by (blast intro: triple_catch)

lemma stays_if [stays_intros]: "stays I clock m \<Longrightarrow> stays I clock m' \<Longrightarrow> stays I clock (if b then m else m')"
  by simp

lemma stays_js [stays_intros]:
  "(\<And>s. stays I clock (f s)) \<Longrightarrow> stays I clock m \<Longrightarrow> stays I clock (case v of Str s \<Rightarrow> f s | _ \<Rightarrow> m)"
  by (simp split: jsval.split)

lemma honestNodeD:
  assumes "honestNode E X rpcUrl led D I"
  shows "stays I (ep_now E) (ep_post E url body)" "stays I (ep_now E) (ep_pending E key)" "stays I (ep_now E) (ex_get X url t)"
    "stays I (ep_now E) (ex_json X r)" "I n \<Longrightarrow> I (ex_sleep X d n)" "I n \<Longrightarrow> ep_now E n \<le> ep_now E (ex_sleep X d n)"
    "I n \<Longrightarrow> answersShow led D E rpcUrl a n"
  using assms by (simp_all add: honestNode_def)

text \<open>Every request of the transport is a post; every read of the Explorer a bounded loop of them.\<close>

lemma stays_rpc: "honestNode E X rpcUrl led D I \<Longrightarrow> stays I (ep_now E) (rpc E url method params)"
  unfolding rpc_def by (intro stays_intros honestNodeD(1))

lemma stays_requestLoop:
  assumes "honestNode E X rpcUrl led D I" "requestLoop X opts baseUrl path attempt n = (r, n')" "I n"
  shows "I n' \<and> ep_now E n \<le> ep_now E n'"
  using assms(2,3)
proof (induction "nat (ro_retries opts - int attempt)" arbitrary: attempt n rule: less_induct)
  case less
  obtain g n1 where get: "ex_get X (joinUrl baseUrl path) (ro_timeoutMs opts) n = (g, n1)" by fastforce
  note n1 = staysD [OF honestNodeD(3) [OF assms(1)] get less.prems(2)]
  show ?case
  proof (cases "int attempt < ro_retries opts \<and> (case g of Inl _ \<Rightarrow> True | Inr s \<Rightarrow> rs_status s \<noteq> 404 \<and> transient s)")
    case True
    let ?d = "retryDelayMs attempt (case g of Inl _ \<Rightarrow> None | Inr s \<Rightarrow> Some s)"
    have "requestLoop X opts baseUrl path (Suc attempt) (ex_sleep X ?d n1) = (r, n')"
      using less.prems(1) unfolding requestLoop_round [OF get] if_P [OF True] .
    moreover have "nat (ro_retries opts - int (Suc attempt)) < nat (ro_retries opts - int attempt)" using True by linarith
    moreover note n2 = honestNodeD(5,6) [OF assms(1) n1(1), of ?d]
    ultimately have "I n' \<and> ep_now E (ex_sleep X ?d n1) \<le> ep_now E n'" using less.hyps by blast
    then show ?thesis using n1(2) n2(2) by linarith
  next
    case False
    have "n' = n1 \<or> (\<exists>s. ex_json X s n1 = (r, n'))"
      using less.prems(1) unfolding requestLoop_round [OF get] if_not_P [OF False] by (auto split: sum.splits if_splits)
    then show ?thesis
    proof
      assume "\<exists>s. ex_json X s n1 = (r, n')"
      then obtain s where "ex_json X s n1 = (r, n')" ..
      from staysD [OF honestNodeD(4) [OF assms(1)] this n1(1)] show ?thesis using n1(2) by simp
    qed (use n1 in simp)
  qed
qed

lemma stays_requestJson: "honestNode E X rpcUrl led D I \<Longrightarrow> stays I (ep_now E) (requestJson X opts baseUrl path)"
  unfolding requestJson_def by (rule staysI) (rule stays_requestLoop)

lemma stays_explorer:
  assumes "honestNode E X rpcUrl led D I"
  shows "stays I (ep_now E) (explorerGetBestBlockHash X opts baseUrl)"
    "stays I (ep_now E) (explorerGetProcessedTransaction X opts baseUrl txid)"
  unfolding explorerGetBestBlockHash_def explorerGetProcessedTransaction_def Let_def
  by (intro stays_intros stays_requestJson [OF assms])+

section \<open>A read of the node\<close>

text \<open>The texts of the transport's own errors do not read like a missing account.\<close>

lemma not_missing:
  assumes "u \<in> set (js ''acount'')" "u \<notin> set (toLowerCase ucd m)"
  shows "\<not> isAccountMissingError ucd m"
proof -
  have "\<not> includesText (toLowerCase ucd m) p" if "u \<in> set p" for p
    using assms(2) that set_mono_sublist [of p "toLowerCase ucd m"] by (auto simp: includesText_iff_sublist)
  then have "\<not> includesText (toLowerCase ucd m) (js ''account is not in database'')"
    "\<not> includesText (toLowerCase ucd m) (js ''account '')" "\<not> includesText (toLowerCase ucd m) (js ''account not found'')"
    using assms(1) by (auto simp: js_def)
  then show ?thesis using account_text by (auto simp: isAccountMissingError_def Let_def)
qed

lemma decimal_units: "u \<in> set (decimal n) \<Longrightarrow> isDigit u"
proof (induction n rule: decimal.induct)
  case (1 n)
  show ?case
  proof (cases "n < 10")
    case True
    then show ?thesis using 1(2) isDigit_decimal [of n] by (subst (asm) decimal.simps) simp
  next
    case False
    then have "u \<in> set (decimal (n div 10)) \<or> u = of_nat (48 + n mod 10)" using 1(2) by (subst (asm) decimal.simps) auto
    then show ?thesis using 1(1) [OF False] isDigit_decimal [of "n mod 10"] by auto
  qed
qed

lemma own_errors:
  "params_read_account_info (KeyBytes a) = Inl e \<Longrightarrow> \<not> isAccountMissingError ucd (errorMessage e)"
  "parseAccountPayload v = Inl e \<Longrightarrow> \<not> isAccountMissingError ucd (errorMessage e)"
proof -
  have digits: "u < 128 \<and> lowerUnit u = u \<and> u \<noteq> 110" if "isDigit u" for u
    using that by (auto simp: isDigit_def lowerUnit_def word_le_nat_alt word_less_nat_alt)
  have "isAscii (decimal n)" for n using digits decimal_units by (auto simp: isAscii_def list_all_iff)
  moreover have "110 \<notin> set (map lowerUnit (decimal n))" for n using digits decimal_units by force
  ultimately have "110 \<notin> set (toLowerCase ucd (js ''Arch pubkey must be 32 bytes, got '' @ decimal n))" for n
    by (simp add: toLowerCase_def js_def lowerUnit_def)
  then have "\<not> isAccountMissingError ucd (js ''Arch pubkey must be 32 bytes, got '' @ decimal n)" for n
    by (intro not_missing [of 110]) (simp_all add: js_def)
  then show "params_read_account_info (KeyBytes a) = Inl e \<Longrightarrow> \<not> isAccountMissingError ucd (errorMessage e)"
    by (auto simp: params_read_account_info_def pubkeyBytes_def guardR_def split: if_splits)
  have "99 \<notin> set (toLowerCase ucd (js ''hexToBytes: odd-length input''))"
    by (simp add: toLowerCase_def js_def lowerUnit_def)
  then have "\<not> isAccountMissingError ucd (js ''hexToBytes: odd-length input'')"
    by (rule not_missing [rotated]) (simp add: js_def)
  moreover have "toBytes w = Inl e \<Longrightarrow> e = PlainError (js ''hexToBytes: odd-length input'')" for w
    by (auto simp: toBytes_def hexToBytes_def guardR_def Let_def split: jsval.splits if_splits)
  ultimately have "toBytes w = Inl e \<Longrightarrow> \<not> isAccountMissingError ucd (errorMessage e)" for w by fastforce
  then show "parseAccountPayload v = Inl e \<Longrightarrow> \<not> isAccountMissingError ucd (errorMessage e)"
    by (auto simp: parseAccountPayload_def accountFields_def bindR_eq_Inl_iff split: if_splits)
qed

lemma uncached_read:
  assumes "honestNode E X rpcUrl led D I" "I n" "readAccountInfoUncached E rpcUrl (KeyBytes a) n = (r, n')"
  shows "I n' \<and> ep_now E n \<le> ep_now E n' \<and> (\<forall>v. r = Inr v \<longrightarrow> accountShown led a v (ep_now E n' - D) (ep_now E n'))"
proof (cases "params_read_account_info (KeyBytes a)")
  case (Inl e)
  then show ?thesis using assms(2,3) own_errors(1) [OF Inl]
    by (auto simp: readAccountInfoUncached_def catchIO_def)
next
  case (Inr params)
  obtain q n1 where rpc: "rpc E rpcUrl (js ''read_account_info'') params n = (q, n1)" by fastforce
  note n1 = staysD [OF stays_rpc [OF assms(1)] rpc assms(2)]
  have shown: "case q of Inr result \<Rightarrow> \<forall>v. parseAccountPayload result = Inr v \<longrightarrow> accountShown led a v (ep_now E n1 - D) (ep_now E n1)
      | Inl e \<Rightarrow> isAccountMissingError (ep_lower E) (errorMessage e) \<longrightarrow> accountShown led a None (ep_now E n1 - D) (ep_now E n1)"
    using honestNodeD(7) [OF assms(1,2), of a] Inr rpc by (cases q) (auto simp: answersShow_def)
  show ?thesis
  proof (cases q)
    case (Inl e)
    then show ?thesis using assms(3) Inr rpc shown n1
      by (auto simp: readAccountInfoUncached_def catchIO_def bindIO_def split: if_splits)
  next
    case (Inr result)
    then show ?thesis
      using assms(3) \<open>_ = Inr params\<close> rpc shown n1 own_errors(2) [of result]
      by (cases "parseAccountPayload result") (auto simp: readAccountInfoUncached_def catchIO_def bindIO_def split: if_splits)
  qed
qed

section \<open>The cached read\<close>

text \<open>What the cache may hold in a run: every entry shows its account as of the read that has stored it.\<close>

definition recentCache :: "'n endpoint \<Rightarrow> (int \<Rightarrow> ledger) \<Rightarrow> int \<Rightarrow> ('n \<Rightarrow> bool) \<Rightarrow> 'n rpc_world \<Rightarrow> bool" where
  "recentCache E led D I w \<longleftrightarrow> I (rw_net w) \<and>
     (\<forall>a x v. ac_accountCache (rw_cache w) (bytesToHex a) = Some (x, v) \<longrightarrow>
        x - 5000 \<le> ep_now E (rw_net w) \<and> accountShown led a v (x - 5000 - D) (x - 5000))"

text \<open>The ledgers of the last five seconds, and of the time of one read before.\<close>

definition recentLedgers :: "'n endpoint \<Rightarrow> (int \<Rightarrow> ledger) \<Rightarrow> int \<Rightarrow> 'n rpc_world \<Rightarrow> ledger set" where
  "recentLedgers E led D w = led ` {ep_now E (rw_net w) - 5000 - D .. ep_now E (rw_net w)}"

lemma accountShown_recent:
  assumes "accountShown led a v lo hi" "ep_now E (rw_net w) - 5000 - D \<le> lo" "hi \<le> ep_now E (rw_net w)"
  shows "\<exists>L \<in> recentLedgers E led D w. lg_account L a = v"
proof -
  obtain t where "lo \<le> t" "t \<le> hi" "lg_account (led t) a = v" using assms(1) by (auto simp: accountShown_def)
  then show ?thesis using assms(2,3) unfolding recentLedgers_def by (intro bexI [of _ "led t"] image_eqI [of _ _ t]) simp_all
qed

lemma recentCache_net:
  assumes "recentCache E led D I w" "I n" "ep_now E (rw_net w) \<le> ep_now E n"
  shows "recentCache E led D I (w\<lparr>rw_net := n\<rparr>)"
  using assms by (fastforce simp: recentCache_def)

lemma triple_onNet:
  assumes "stays I (ep_now E) m"
  shows "triple (recentCache E led D I) (onNet m) (\<lambda>_. recentCache E led D I) (\<lambda>_. recentCache E led D I)"
proof -
  have "recentCache E led D I w'" if w: "recentCache E led D I w" "onNet m w = (r, w')" for w r w'
  proof -
    obtain r' n where m: "m (rw_net w) = (r', n)" by fastforce
    have "I (rw_net w)" using w(1) by (simp add: recentCache_def)
    from staysD [OF assms m this] recentCache_net [OF w(1)] show ?thesis using w(2) m by (auto simp: onNet_def)
  qed
  then show ?thesis by (blast intro: tripleI)
qed

lemma cached_read:
  assumes "honestNode E X rpcUrl led D I" "recentCache E led D I w" "archReadAccountInfo E rpcUrl (KeyBytes a) w = (r, w')"
  shows "recentCache E led D I w' \<and> (\<forall>v. r = Inr v \<longrightarrow> (\<exists>L \<in> recentLedgers E led D w'. lg_account L a = v))"
proof -
  have I: "I (rw_net w)" using assms(2) by (simp add: recentCache_def)
  have D: "accountShown led a v (t - D) t \<Longrightarrow> 0 \<le> D" for v t by (auto simp: accountShown_def)
  show ?thesis
  proof (cases "readDecision (ep_now E (rw_net w)) (bytesToHex a) (rw_cache w)")
    case (Cached v)
    then obtain x where x: "ac_accountCache (rw_cache w) (bytesToHex a) = Some (x, v)" "ep_now E (rw_net w) < x"
      by (auto simp: readDecision_def split: option.splits if_splits)
    then have shown: "accountShown led a v (x - 5000 - D) (x - 5000)" "x - 5000 \<le> ep_now E (rw_net w)"
      using assms(2) by (auto simp: recentCache_def)
    have out: "r = Inr v" "w' = w" using assms(3) Cached by (simp_all add: archReadAccountInfo_def pubkeyCacheKey_def Let_def)
    have "\<exists>L \<in> recentLedgers E led D w. lg_account L a = v"
      by (rule accountShown_recent [OF shown(1)]) (use x(2) shown(2) in linarith)+
    then show ?thesis using assms(2) out by simp
  next
    case Pending
    obtain q n where q: "ep_pending E (bytesToHex a) (rw_net w) = (q, n)" by fastforce
    have out: "r = q" "w' = w\<lparr>rw_net := n\<rparr>"
      using assms(3) Pending q by (simp_all add: archReadAccountInfo_def pubkeyCacheKey_def onNet_def Let_def)
    note n = staysD [OF honestNodeD(2) [OF assms(1)] q I]
    have "\<exists>L \<in> recentLedgers E led D w'. lg_account L a = v" if "q = Inr v" for v
    proof -
      have shown: "accountShown led a v (ep_now E n - D) (ep_now E n)"
        using honestNodeD(7) [OF assms(1) I, of a] q that by (simp add: answersShow_def)
      show ?thesis by (rule accountShown_recent [OF shown]) (simp_all add: out)
    qed
    then show ?thesis using recentCache_net [OF assms(2) n] out by simp
  next
    case Request
    obtain q n where q: "readAccountInfoUncached E rpcUrl (KeyBytes a) (rw_net w) = (q, n)" by fastforce
    note n = uncached_read [OF assms(1) I q]
    have out: "r = q" "w' = w\<lparr>rw_net := n, rw_cache := readSettled (ep_now E n) (bytesToHex a) q (readStarted (bytesToHex a) (rw_cache w))\<rparr>"
      using assms(3) Request q
      by (auto simp: archReadAccountInfo_def pubkeyCacheKey_def onNet_def updateCache_def Let_def)
    have shown: "accountShown led a v (ep_now E n - D) (ep_now E n)" if "q = Inr v" for v
      using n that by blast
    have entry: "ac_accountCache (rw_cache w') (bytesToHex b) =
        (case q of Inr v \<Rightarrow> if a = b then Some (ep_now E n + 5000, v) else ac_accountCache (rw_cache w) (bytesToHex b)
         | Inl _ \<Rightarrow> ac_accountCache (rw_cache w) (bytesToHex b))" for b
      by (simp add: out readSettled_def cacheSet_def readStarted_def ACCOUNT_CACHE_TTL_MS_def bytesToHex_inj eq_commute [of b a]
          split: sum.split)
    have "x - 5000 \<le> ep_now E (rw_net w') \<and> accountShown led b v (x - 5000 - D) (x - 5000)"
      if e: "ac_accountCache (rw_cache w') (bytesToHex b) = Some (x, v)" for b x v
    proof (cases "ac_accountCache (rw_cache w) (bytesToHex b) = Some (x, v)")
      case True
      then have "x - 5000 \<le> ep_now E (rw_net w)" "accountShown led b v (x - 5000 - D) (x - 5000)"
        using assms(2) by (auto simp: recentCache_def)
      then show ?thesis using n by (simp add: out)
    next
      case False
      with e have "q = Inr v" "a = b" "x = ep_now E n + 5000" unfolding entry by (auto split: sum.splits if_splits)
      then show ?thesis using shown by (simp add: out)
    qed
    then have "recentCache E led D I w'" using n by (simp add: recentCache_def out(2))
    moreover have "\<exists>L \<in> recentLedgers E led D w'. lg_account L a = v" if "q = Inr v" for v
      by (rule accountShown_recent [OF shown [OF that]]) (simp_all add: out(2))
    ultimately show ?thesis using out(1) by simp
  qed
qed

text \<open>The manager's transport over an honest node shows the ledgers of the last five seconds and one read.\<close>

lemma split_showsPast:
  assumes "honestNode E X rpcUrl led D I"
  shows "showsPast (createSplitAnsTransport E X rpcUrl explorerUrl opts) (recentCache E led D I) (recentLedgers E led D)"
  unfolding showsPast_def
proof (intro conjI allI)
  let ?T = "createSplitAnsTransport E X rpcUrl explorerUrl opts" and ?I = "recentCache E led D I"
  note fields = createSplitAnsTransport_def createArchRpcTransport_def Let_def AnsTransport.simps
  show "triple ?I (readAccountInfo ?T a) (\<lambda>v w. ?I w \<and> (\<exists>L \<in> recentLedgers E led D w. lg_account L a = v)) (\<lambda>_. ?I)" for a
    unfolding fields using cached_read [OF assms] by (intro tripleI) blast+
  show "triple ?I (getProcessedTransaction ?T txid) (\<lambda>_. ?I) (\<lambda>_. ?I)" for txid
    unfolding fields by (rule triple_onNet [OF stays_explorer(2) [OF assms]])
  show "triple ?I (getBestBlockHash ?T) (\<lambda>_. ?I) (\<lambda>_. ?I)"
    unfolding fields by (rule triple_onNet [OF stays_explorer(1) [OF assms]])
  have "stays I (ep_now E) (archSendTransaction E rpcUrl tx)" for tx
    unfolding archSendTransaction_def by (intro stays_intros stays_rpc [OF assms])
  then show "triple ?I (sendTransaction ?T tx) (\<lambda>_. ?I) (\<lambda>_. ?I)" for tx
    unfolding fields by (rule triple_onNet)
qed

section \<open>A node that serves one ledger\<close>

definition accountJson :: "AccountInfo option \<Rightarrow> jsval" where
  "accountJson v =
     (case v of
        None \<Rightarrow> Null
      | Some i \<Rightarrow> Obj [(js ''data'', numberArray (ai_data i)), (js ''owner'', numberArray (ai_owner i)),
          (js ''lamports'', num (ai_lamports i)), (js ''is_executable'', Bool (ai_isExecutable i))])"

text \<open>It reads the key out of the request; whatever else it is asked, it says \<open>null\<close>.\<close>

definition requestedKey :: "jsval \<Rightarrow> bytes" where
  "requestedKey body =
     (case optField body (js ''params'') of Arr (k # _) \<Rightarrow> (case toBytes k of Inr a \<Rightarrow> a | Inl _ \<Rightarrow> []) | _ \<Rightarrow> [])"

definition ledgerNode :: "ledger \<Rightarrow> unit endpoint" where
  "ledgerNode L = \<lparr>
     ep_post = (\<lambda>url body w. (Inr \<lparr>rs_status = 200, rs_retryAfter = None,
       rs_json = Inr (Obj [(js ''result'', accountJson (lg_account L (requestedKey body)))])\<rparr>, w)),
     ep_now = (\<lambda>_. 0),
     ep_pending = (\<lambda>key w. (case hexToBytes key of Inr a \<Rightarrow> Inr (lg_account L a) | Inl e \<Rightarrow> Inl e, w)),
     ep_cause = (\<lambda>_. None), ep_fraction = (\<lambda>_. []), ep_lower = (\<lambda>s. s)\<rparr>"

definition silentExplorer :: "unit explorer" where
  "silentExplorer = \<lparr>ex_get = (\<lambda>url t w. (Inl typeError, w)), ex_json = (\<lambda>r w. (Inl typeError, w)), ex_sleep = (\<lambda>d w. w),
     ex_fraction = (\<lambda>_. []), ex_lower = (\<lambda>s. s)\<rparr>"

lemma toBytes_numberArray: "toBytes (numberArray bs) = Inr bs"
proof -
  have "map ((\<lambda>item. byteOf (numberOrZero item)) \<circ> (\<lambda>b. num (uint b))) bs = bs"
    by (rule map_idI) (simp only: comp_apply byteOf_num)
  then show ?thesis by (simp only: toBytes_def numberArray_def jsval.case map_map)
qed

lemma parse_accountJson: "parseAccountPayload (accountJson v) = Inr v"
proof (cases v)
  case (Some i)
  have "lamportsOf (num k) = k" for k by (simp add: lamportsOf_def orElse_def isNullish_def num_def)
  then show ?thesis
    by (simp add: Some accountJson_def parseAccountPayload_def accountFields_def optField_def toBytes_numberArray js_def)
qed (simp add: accountJson_def parseAccountPayload_def)

lemma ledgerNode_rpc:
  assumes "params_read_account_info (KeyBytes a) = Inr params"
  shows "rpc (ledgerNode L) url (js ''read_account_info'') params w = (Inr (accountJson (lg_account L a)), w)"
proof -
  have "params = Arr [numberArray a]"
    using assms by (auto simp: params_read_account_info_def pubkeyBytes_def guardR_def split: if_splits)
  then have "requestedKey (requestBody m params) = a" for m
    by (simp add: requestedKey_def requestBody_def optField_def toBytes_numberArray js_def)
  then show ?thesis
    by (simp add: rpc_def ledgerNode_def bindIO_def responseOk_def field_def isNullish_def optField_def js_def)
qed

lemma ledgerNode_honest: "honestNode (ledgerNode L) silentExplorer url (\<lambda>_. L) 0 (\<lambda>_. True)"
proof -
  have "ep_now (ledgerNode L) = (\<lambda>_. 0)" by (simp add: ledgerNode_def)
  moreover have "answersShow (\<lambda>_. L) 0 (ledgerNode L) url a n" for a n
  proof -
    have "ep_pending (ledgerNode L) (bytesToHex a) n = (Inr (lg_account L a), n)"
      by (simp add: ledgerNode_def hexToBytes_bytesToHex)
    then show ?thesis
      by (auto simp: answersShow_def ledgerNode_rpc parse_accountJson accountShown_def)
  qed
  ultimately show ?thesis
    unfolding honestNode_def by (auto intro!: staysI)
qed

definition emptyRpcWorld :: "unit rpc_world" where
  "emptyRpcWorld = \<lparr>rw_net = (), rw_cache = \<lparr>ac_accountCache = Map.empty, ac_inflightReads = {}\<rparr>\<rparr>"

lemma empty_recent: "recentCache E led D (\<lambda>_. True) emptyRpcWorld"
  by (simp add: recentCache_def emptyRpcWorld_def)

lemma ledgerNode_read:
  assumes "length a = 32"
  obtains w where "archReadAccountInfo (ledgerNode L) url (KeyBytes a) emptyRpcWorld = (Inr (lg_account L a), w)"
proof -
  obtain params where params: "params_read_account_info (KeyBytes a) = Inr params"
    using assms by (simp add: params_read_account_info_def pubkeyBytes_def guardR_def)
  have "readAccountInfoUncached (ledgerNode L) url (KeyBytes a) w = (Inr (lg_account L a), w)" for w
    by (simp add: readAccountInfoUncached_def params catchIO_def bindIO_def ledgerNode_rpc [OF params] parse_accountJson)
  then have "fst (archReadAccountInfo (ledgerNode L) url (KeyBytes a) emptyRpcWorld) = Inr (lg_account L a)"
    by (simp add: archReadAccountInfo_def readDecision_def emptyRpcWorld_def onNet_def Let_def updateCache_def)
  then show ?thesis by (intro that) (rule prod_eqI, simp_all)
qed

end
