(* ===== verification/Ledger_Client.thy ===== *)
theory Ledger_Client
  imports Client
begin

text \<open>
  The client over a ledger. When the transport shows a ledger, every query of the client settles with
  a function of that ledger: the definitions \<open>ledger\<dots>\<close> are the specifications, the lemmas \<open>settles_\<dots>\<close>
  the refinement, and the properties say what a query returns in terms of the accounts on the ledger.
\<close>

section \<open>Registry configuration and owners\<close>

definition ledgerConfig :: "('w, 'tx) AnsClient \<Rightarrow> ledger \<Rightarrow> js_error + RegistryConfig" where
  "ledgerConfig c L =
     (case lg_account L (cl_registryConfigAddress c) of
        None \<Rightarrow> Inl (AnsError AccountNotFound (js ''registry config missing''))
      | Some info \<Rightarrow>
          guardR (\<not> bytesEqual (ai_owner info) (cl_programId c)) (ansError IncorrectProgramId)
         (bindR (decodeRegistryConfig (ai_data info)) (\<lambda>config.
          bindR (validateHeader (rc_header config) REGISTRY_CONFIG_DISCRIMINATOR) (\<lambda>_. Inr config))))"

lemma settles_fetchRegistryConfig [io_intros]:
  "showsLedger (cl_transport c) W L \<Longrightarrow> settles W (fetchRegistryConfig c) (ledgerConfig c L)"
  unfolding fetchRegistryConfig_def ledgerConfig_def
  by (rule settles_eq, (rule io_intros showsLedgerD(1) | assumption)+) (simp split: option.splits)

definition ledgerOwner :: "prims \<Rightarrow> ('w, 'tx) AnsClient \<Rightarrow> ledger \<Rightarrow> js_string \<Rightarrow> js_error + ArchAddress" where
  "ledgerOwner P c L s =
     bindR (ledgerConfig c L) (\<lambda>config.
     bindR (nameHash P s) (\<lambda>hash.
     bindR (deriveNameAddress P (cl_programId c) (cl_ns c) hash) (\<lambda>address.
     case lg_account L address of
       None \<Rightarrow> Inl (AnsError AccountNotFound (js ''name account for '' @ s))
     | Some info \<Rightarrow> bindR (decodeNameAccount (ai_data info)) (\<lambda>state.
         resolveOwner P (cl_programId c) \<lparr>at_address = cl_registryConfigAddress c, at_state = config\<rparr> s
           \<lparr>at_address = address, at_state = state\<rparr> (lg_slot L)))))"

lemma settles_clientResolveOwner:
  "showsLedger (cl_transport c) W L \<Longrightarrow> settles W (clientResolveOwner P c s) (ledgerOwner P c L s)"
  unfolding clientResolveOwner_def ledgerOwner_def
  by (rule settles_eq, (rule io_intros showsLedgerD(1,2) | assumption)+) (simp cong: option.case_cong)

definition storedConfig :: "('w, 'tx) AnsClient \<Rightarrow> ledger \<Rightarrow> RegistryConfig \<Rightarrow> bool" where
  "storedConfig c L cfg \<longleftrightarrow> (\<exists>i. lg_account L (cl_registryConfigAddress c) = Some i \<and> ai_owner i = cl_programId c \<and>
     decodeRegistryConfig (ai_data i) = Inr cfg \<and> rc_header cfg = initializedHeader REGISTRY_CONFIG_DISCRIMINATOR)"

text \<open>An account holding \<open>n\<close> stands on the ledger at the address of the name \<open>canonical\<close>.\<close>

definition storedName :: "prims \<Rightarrow> ('w, 'tx) AnsClient \<Rightarrow> ledger \<Rightarrow> js_string \<Rightarrow> NameAccount AccountAt \<Rightarrow> bool" where
  "storedName P c L canonical n \<longleftrightarrow> (\<exists>i.
     deriveNameAddress P (cl_programId c) (cl_ns c) (hashName P canonical) = Inr (at_address n) \<and>
     lg_account L (at_address n) = Some i \<and> decodeNameAccount (ai_data i) = Inr (at_state n))"

lemma ledgerConfig_iff: "ledgerConfig c L = Inr cfg \<longleftrightarrow> storedConfig c L cfg"
  by (auto simp: ledgerConfig_def storedConfig_def result_iffs validateHeader_ok split: option.splits)

lemma nameHash_iff: "nameHash P s = Inr h \<longleftrightarrow> (\<exists>n. canonicalizeName P s = Inr n \<and> h = hashName P n)"
  by (auto simp: nameHash_def result_iffs)

lemma ledgerOwner_iff:
  "ledgerOwner P c L s = Inr owner \<longleftrightarrow>
   (\<exists>cfg canonical n. storedConfig c L cfg \<and> canonicalizeName P s = Inr canonical \<and> storedName P c L canonical n \<and>
      resolveOwner P (cl_programId c) \<lparr>at_address = cl_registryConfigAddress c, at_state = cfg\<rparr> s n (lg_slot L) = Inr owner)"
  (is "?L \<longleftrightarrow> ?R")
proof
  assume ?L
  then obtain cfg canonical a i n where *: "storedConfig c L cfg" "canonicalizeName P s = Inr canonical"
      "deriveNameAddress P (cl_programId c) (cl_ns c) (hashName P canonical) = Inr a" "lg_account L a = Some i"
      "decodeNameAccount (ai_data i) = Inr n"
      "resolveOwner P (cl_programId c) \<lparr>at_address = cl_registryConfigAddress c, at_state = cfg\<rparr> s
         \<lparr>at_address = a, at_state = n\<rparr> (lg_slot L) = Inr owner"
    by (auto simp: ledgerOwner_def result_iffs ledgerConfig_iff nameHash_iff split: option.splits)
  then have "storedName P c L canonical \<lparr>at_address = a, at_state = n\<rparr>" by (simp add: storedName_def)
  with * show ?R by blast
next
  assume ?R
  then obtain cfg canonical n i where *: "storedConfig c L cfg" "canonicalizeName P s = Inr canonical"
      "deriveNameAddress P (cl_programId c) (cl_ns c) (hashName P canonical) = Inr (at_address n)"
      "lg_account L (at_address n) = Some i" "decodeNameAccount (ai_data i) = Inr (at_state n)"
      "resolveOwner P (cl_programId c) \<lparr>at_address = cl_registryConfigAddress c, at_state = cfg\<rparr> s n (lg_slot L) = Inr owner"
    by (auto simp: storedName_def)
  then show ?L
    by (cases n) (auto simp: ledgerOwner_def result_iffs ledgerConfig_iff nameHash_iff)
qed

section \<open>Availability\<close>

definition ledgerAvailability ::
  "prims \<Rightarrow> ('w, 'tx) AnsClient \<Rightarrow> ledger \<Rightarrow> js_string \<Rightarrow> js_error + NameAvailabilityResult" where
  "ledgerAvailability P c L s =
     bindR (canonicalizeName P s) (\<lambda>canonical.
     bindR (nameHash P canonical) (\<lambda>hash.
     bindR (deriveNameAddress P (cl_programId c) (cl_ns c) hash) (\<lambda>address.
     let available = \<lparr>nr_canonical = canonical, nr_availability = Available, nr_account = None\<rparr> in
     case lg_account L address of
       None \<Rightarrow> Inr available
     | Some info \<Rightarrow>
         if length (ai_data info) = 0 then Inr available
         else if \<not> bytesEqual (ai_owner info) (cl_programId c) then Inl (ansError IncorrectProgramId)
         else Inr \<lparr>nr_canonical = canonical,
                nr_availability = cl_availability (classifyNameAccountData (Some (ai_data info))),
                nr_account = cl_account (classifyNameAccountData (Some (ai_data info)))\<rparr>)))"

lemma settles_getNameAvailability [io_intros]:
  "showsLedger (cl_transport c) W L \<Longrightarrow> settles W (getNameAvailability P c s) (ledgerAvailability P c L s)"
  unfolding getNameAvailability_def ledgerAvailability_def Let_def
  by (rule settles_eq, (rule io_intros showsLedgerD(1) | assumption)+) (simp cong: option.case_cong)

lemma settles_availability_case:
  assumes "x = Taken \<Longrightarrow> settles W t rt" "x = Available \<Longrightarrow> settles W a ra" "x = Unavailable \<Longrightarrow> settles W u ru"
  shows "settles W (case x of Available \<Rightarrow> a | Taken \<Rightarrow> t | Unavailable \<Rightarrow> u)
    (case x of Available \<Rightarrow> ra | Taken \<Rightarrow> rt | Unavailable \<Rightarrow> ru)"
  using assms by (cases x) auto

definition ledgerAssert :: "prims \<Rightarrow> ('w, 'tx) AnsClient \<Rightarrow> ledger \<Rightarrow> js_string \<Rightarrow> js_error + js_string" where
  "ledgerAssert P c L s =
     bindR (ledgerAvailability P c L s) (\<lambda>status.
     case nr_availability status of
       Available \<Rightarrow> Inr (nr_canonical status)
     | Taken \<Rightarrow> Inl (duplicateRegistrationError (nr_canonical status))
     | Unavailable \<Rightarrow> Inl (AnsError UnsupportedAccountVersion
         (nr_canonical status @ js '' cannot be registered (invalid on-chain name account)'')))"

lemma settles_assertNameAvailable:
  "showsLedger (cl_transport c) W L \<Longrightarrow> settles W (assertNameAvailable P c s) (ledgerAssert P c L s)"
  unfolding assertNameAvailable_def ledgerAssert_def
  by (rule settles_eq, (rule io_intros settles_availability_case | assumption)+) simp

definition freeSlot :: "('w, 'tx) AnsClient \<Rightarrow> AccountInfo option \<Rightarrow> bool" where
  "freeSlot c account \<longleftrightarrow> (case account of None \<Rightarrow> True
     | Some i \<Rightarrow> ai_data i = [] \<or> (ai_owner i = cl_programId c \<and> ai_data i = replicate (length (ai_data i)) 0))"

lemma classify_available_iff:
  "cl_availability (classifyNameAccountData (Some d)) = Available \<longleftrightarrow> isBlankAccountData d"
  by (auto simp: classifyNameAccountData_def split: sum.splits)

lemma availability_case_Inr:
  "(case x of Available \<Rightarrow> Inr a | Taken \<Rightarrow> Inl t | Unavailable \<Rightarrow> Inl u) = Inr y \<longleftrightarrow> x = Available \<and> y = a"
  by (cases x) auto

lemma ledgerAssert_iff:
  "ledgerAssert P c L s = Inr canonical \<longleftrightarrow>
   canonicalizeName P s = Inr canonical \<and>
   (\<exists>a. deriveNameAddress P (cl_programId c) (cl_ns c) (hashName P canonical) = Inr a \<and> freeSlot c (lg_account L a))"
proof (cases "canonicalizeName P s")
  case (Inl e)
  then show ?thesis by (simp add: ledgerAssert_def ledgerAvailability_def)
next
  case (Inr n)
  note canon = Inr
  show ?thesis
  proof (cases "deriveNameAddress P (cl_programId c) (cl_ns c) (hashName P n)")
    case (Inl e)
    with canon show ?thesis
      by (auto simp: ledgerAssert_def ledgerAvailability_def nameHash_canonical [OF canon])
  next
    case (Inr a)
    with canon show ?thesis
      by (cases "lg_account L a")
        (auto simp: ledgerAssert_def ledgerAvailability_def nameHash_canonical [OF canon] freeSlot_def Let_def
          availability_case_Inr classify_available_iff isBlankAccountData_iff)
  qed
qed

lemma ledgerAssert_taken:
  assumes "canonicalizeName P s = Inr canonical"
    and "deriveNameAddress P (cl_programId c) (cl_ns c) (hashName P canonical) = Inr a"
    and "lg_account L a = Some i" "ai_owner i = cl_programId c" "encodeNameAccount n = Inr (ai_data i)" "okNameAccount n"
    and "na_header n = initializedHeader NAME_ACCOUNT_DISCRIMINATOR"
  shows "ledgerAssert P c L s = Inl (duplicateRegistrationError canonical)"
proof -
  have d: "decodeNameAccount (ai_data i) = Inr n" using name_codec.roundtrip [OF assms(6)] assms(5) by auto
  have ne: "ai_data i \<noteq> []" "hd (ai_data i) = 65"
    using encodeNameAccount_hd [OF assms(5)] assms(7) by (simp_all add: initializedHeader_def)
  then have nb: "\<not> isBlankAccountData (ai_data i)"
    by (cases "ai_data i") (auto simp: isBlankAccountData_iff)
  have "cl_availability (classifyNameAccountData (Some (ai_data i))) = Taken"
    using d nb assms(7) unfolding classify_taken_iff by blast
  with assms ne show ?thesis
    by (simp add: ledgerAssert_def ledgerAvailability_def nameHash_canonical [OF assms(1)] Let_def)
qed

section \<open>Scans\<close>

lemma set_map_filter: "set (List.map_filter f xs) = {y. \<exists>x \<in> set xs. f x = Some y}"
  by (induction xs) (auto simp: List.map_filter_def split: option.splits)

lemma discriminator_lengths:
  "length NAME_ACCOUNT_DISCRIMINATOR = 8" "length OFFER_ACCOUNT_DISCRIMINATOR = 8"
  "length LISTING_ACCOUNT_DISCRIMINATOR = 8"
  by (simp_all add: discriminator_bytes)

lemma ex_entry: "(\<exists>e. Q e) \<longleftrightarrow> (\<exists>a i. Q \<lparr>pe_pubkey = a, pe_account = i\<rparr>)"
proof
  assume "\<exists>e. Q e"
  then obtain e where "Q e" ..
  then show "\<exists>a i. Q \<lparr>pe_pubkey = a, pe_account = i\<rparr>" by (cases e) auto
qed auto

text \<open>A name account on the ledger, at the address of its own hash, with a label that canonicalises.\<close>

definition registeredAt :: "prims \<Rightarrow> ('w, 'tx) AnsClient \<Rightarrow> ledger \<Rightarrow> NamedAccount \<Rightarrow> bool" where
  "registeredAt P c L x \<longleftrightarrow> (\<exists>a i.
     deriveNameAddress P (cl_programId c) (cl_ns c) (na_nameHash (ne_account x)) = Inr a \<and>
     lg_account L a = Some i \<and> ai_owner i = cl_programId c \<and>
     decodeNameAccount (ai_data i) = Inr (ne_account x) \<and>
     na_header (ne_account x) = initializedHeader NAME_ACCOUNT_DISCRIMINATOR \<and>
     canonicalizeName P (na_canonicalLabel (ne_account x) @ ARCH_SUFFIX) = Inr (ne_name x))"

lemma nameEntry_Some:
  "nameEntry P c e = Some x \<longleftrightarrow>
   ai_owner (pe_account e) = cl_programId c \<and> decodeNameAccount (ai_data (pe_account e)) = Inr (ne_account x) \<and>
   na_header (ne_account x) = initializedHeader NAME_ACCOUNT_DISCRIMINATOR \<and>
   canonicalizeName P (na_canonicalLabel (ne_account x) @ ARCH_SUFFIX) = Inr (ne_name x) \<and>
   deriveNameAddress P (cl_programId c) (cl_ns c) (na_nameHash (ne_account x)) = Inr (pe_pubkey e)"
  unfolding nameEntry_def ARCH_SUFFIX_def
  by (cases x) (auto simp: result_iffs result_error_iffs validateHeader_ok split: sum.splits if_splits)

lemma nameEntry_owner: "nameEntry P c e = Some x \<Longrightarrow> ai_owner (pe_account e) = cl_programId c"
  by (simp add: nameEntry_Some)

lemma nameEntry_passes: "nameEntry P c e = Some x \<Longrightarrow> take 8 (ai_data (pe_account e)) = NAME_ACCOUNT_DISCRIMINATOR"
  using decoded_name_position [of "ai_data (pe_account e)" "ne_account x"]
  by (simp add: nameEntry_Some initializedHeader_def)

lemma settles_listNameAccounts:
  assumes "showsLedger (cl_transport c) W L" "getProgramAccounts (cl_transport c) = Some g"
  shows "settles W (listNameAccounts P c)
    (Inr (List.map_filter (nameEntry P c) (lg_scan L (cl_programId c) [DataContent 0 NAME_ACCOUNT_DISCRIMINATOR])))"
  unfolding listNameAccounts_def assms(2) option.case
  by (rule settles_eq, (rule io_intros showsLedgerD(4) [OF assms])+) simp

text \<open>The discriminator filter of the scan drops no name account.\<close>

lemma scanned_names_of:
  assumes "set es = {e. lg_account L (pe_pubkey e) = Some (pe_account e) \<and> ai_owner (pe_account e) = cl_programId c \<and>
    list_all (passes (ai_data (pe_account e))) [DataContent 0 NAME_ACCOUNT_DISCRIMINATOR]}"
  shows "set (List.map_filter (nameEntry P c) es) = {x. registeredAt P c L x}" (is "?S = _")
proof (rule set_eqI)
  fix x
  have "x \<in> ?S \<longleftrightarrow> (\<exists>e. lg_account L (pe_pubkey e) = Some (pe_account e) \<and>
      take 8 (ai_data (pe_account e)) = NAME_ACCOUNT_DISCRIMINATOR \<and> nameEntry P c e = Some x)"
    by (simp add: set_map_filter Bex_def assms discriminator_lengths) (auto dest: nameEntry_owner)
  also have "\<dots> \<longleftrightarrow> (\<exists>e. lg_account L (pe_pubkey e) = Some (pe_account e) \<and> nameEntry P c e = Some x)"
    by (auto dest: nameEntry_passes)
  also have "\<dots> \<longleftrightarrow> registeredAt P c L x"
    unfolding ex_entry nameEntry_Some registeredAt_def by auto
  finally show "x \<in> ?S \<longleftrightarrow> x \<in> {x. registeredAt P c L x}" by simp
qed

lemma scanned_names:
  assumes "showsLedger (cl_transport c) W L"
  shows "set (List.map_filter (nameEntry P c) (lg_scan L (cl_programId c) [DataContent 0 NAME_ACCOUNT_DISCRIMINATOR]))
    = {x. registeredAt P c L x}"
  by (rule scanned_names_of) (use showsLedgerD(5) [OF assms] in blast)

text \<open>An active offer for \<open>hash\<close> on the ledger, at the address of its name and buyer.\<close>

definition offeredAt :: "prims \<Rightarrow> ('w, 'tx) AnsClient \<Rightarrow> ledger \<Rightarrow> bytes \<Rightarrow> OfferAccount \<Rightarrow> bool" where
  "offeredAt P c L hash q \<longleftrightarrow> (\<exists>a i.
     deriveOfferAddress P (cl_programId c) (cl_ns c) hash (oa_buyer q) = Inr a \<and>
     lg_account L a = Some i \<and> ai_owner i = cl_programId c \<and> decodeOfferAccount (ai_data i) = Inr q \<and>
     oa_header q = initializedHeader OFFER_ACCOUNT_DISCRIMINATOR \<and> oa_nameHash q = hash \<and> oa_active q)"

lemma offerEntry_Some:
  "offerEntry P c hash e = Some q \<longleftrightarrow>
   ai_owner (pe_account e) = cl_programId c \<and> decodeOfferAccount (ai_data (pe_account e)) = Inr q \<and>
   oa_header q = initializedHeader OFFER_ACCOUNT_DISCRIMINATOR \<and> oa_active q \<and> oa_nameHash q = hash \<and>
   deriveOfferAddress P (cl_programId c) (cl_ns c) hash (oa_buyer q) = Inr (pe_pubkey e)"
  unfolding offerEntry_def
  by (auto simp: result_iffs result_error_iffs validateHeader_ok split: sum.splits if_splits)

lemma offerEntry_owner: "offerEntry P c hash e = Some q \<Longrightarrow> ai_owner (pe_account e) = cl_programId c"
  by (simp add: offerEntry_Some)

lemma offerEntry_passes:
  "offerEntry P c hash e = Some q \<Longrightarrow>
   take 8 (ai_data (pe_account e)) = OFFER_ACCOUNT_DISCRIMINATOR \<and> take 32 (drop 11 (ai_data (pe_account e))) = hash"
  using decoded_offer_position [of "ai_data (pe_account e)" q]
  by (simp add: offerEntry_Some initializedHeader_def)

lemma scanned_offers:
  assumes "showsLedger (cl_transport c) W L" "length hash = 32"
  shows "set (List.map_filter (offerEntry P c hash)
      (lg_scan L (cl_programId c) [DataContent 0 OFFER_ACCOUNT_DISCRIMINATOR, DataContent 11 hash]))
    = {q. offeredAt P c L hash q}" (is "?S = _")
proof (rule set_eqI)
  fix q
  note scan = showsLedgerD(5) [OF assms(1)]
  have "q \<in> ?S \<longleftrightarrow> (\<exists>e. lg_account L (pe_pubkey e) = Some (pe_account e) \<and>
      take 8 (ai_data (pe_account e)) = OFFER_ACCOUNT_DISCRIMINATOR \<and> take 32 (drop 11 (ai_data (pe_account e))) = hash \<and>
      offerEntry P c hash e = Some q)"
    by (simp add: set_map_filter Bex_def scan discriminator_lengths assms(2)) (auto dest: offerEntry_owner)
  also have "\<dots> \<longleftrightarrow> (\<exists>e. lg_account L (pe_pubkey e) = Some (pe_account e) \<and> offerEntry P c hash e = Some q)"
    by (auto dest: offerEntry_passes)
  also have "\<dots> \<longleftrightarrow> offeredAt P c L hash q"
    unfolding ex_entry offerEntry_Some offeredAt_def by auto
  finally show "q \<in> ?S \<longleftrightarrow> q \<in> {q. offeredAt P c L hash q}" by simp
qed

lemma settles_listOffersForName:
  assumes "showsLedger (cl_transport c) W L" "getProgramAccounts (cl_transport c) = Some g"
    and "canonicalizeName P s = Inr canonical"
  shows "settles W (listOffersForName P c s)
    (Inr (List.map_filter (offerEntry P c (hashName P canonical))
      (lg_scan L (cl_programId c) [DataContent 0 OFFER_ACCOUNT_DISCRIMINATOR, DataContent 11 (hashName P canonical)])))"
  unfolding listOffersForName_def assms(2,3) option.case
  by (rule settles_eq, (rule io_intros showsLedgerD(4) [OF assms(1,2)])+)
    (simp add: nameHash_canonical [OF assms(3)])

section \<open>Recent names\<close>

lemma compareRecent_le:
  "compareRecent a b \<le> 0 \<longleftrightarrow>
   na_registeredAtSlot (ne_account a) > na_registeredAtSlot (ne_account b) \<or>
   (na_registeredAtSlot (ne_account a) = na_registeredAtSlot (ne_account b) \<and> \<not> textLess (ne_name a) (ne_name b))"
  using textLess_asym [of "ne_name a" "ne_name b"] by (auto simp: compareRecent_def)

interpretation recent: comparator compareRecent
proof
  show "compareRecent y x < 0" if "0 < compareRecent x y" for x y
    using that textLess_asym by (auto simp: compareRecent_def split: if_splits)
  show "compareRecent x z \<le> 0" if "compareRecent x y \<le> 0" "compareRecent y z \<le> 0" for x y z
    using that textLess_not_trans [of "ne_name x" "ne_name y" "ne_name z"] unfolding compareRecent_le by auto
qed

section \<open>A sample ledger\<close>

definition bytesOf :: "js_error + bytes \<Rightarrow> bytes" where
  "bytesOf r = (case r of Inr d \<Rightarrow> d | Inl _ \<Rightarrow> [])"

definition sampleProgram :: bytes where "sampleProgram = replicate 32 8"

definition programAccount :: "bytes \<Rightarrow> AccountInfo" where
  "programAccount d = \<lparr>ai_data = d, ai_owner = sampleProgram, ai_lamports = 1, ai_isExecutable = False\<rparr>"

definition sampleOfferAt :: "OfferAccount" where
  "sampleOfferAt = sampleOffer\<lparr>oa_nameHash := hashName samplePrims (js ''alice.arch'')\<rparr>"

definition sampleOfferAddress :: ArchAddress where
  "sampleOfferAddress = fold32 (concat [OFFER_SEED, namespaceHash samplePrims (js ''arch''),
     hashName samplePrims (js ''alice.arch''), replicate 32 4])"

definition sampleLedger :: ledger where
  "sampleLedger = listLedger
     [(at_address resolvedConfig, programAccount (bytesOf (encodeRegistryConfig (at_state resolvedConfig)))),
      (at_address resolvedName, programAccount (bytesOf (encodeNameAccount (at_state resolvedName)))),
      (sampleOfferAddress,
       programAccount (bytesOf (encodeOfferAccount sampleOfferAt)))] 500"

definition sampleClient :: "(unit, unit) AnsClient" where
  "sampleClient = \<lparr>cl_manifest = TESTNET_MANIFEST\<lparr>mf_namespace := js ''arch''\<rparr>,
     cl_transport = ledgerTransport sampleLedger, cl_programId = sampleProgram,
     cl_registryConfigAddress = at_address resolvedConfig\<rparr>"

lemma hd_fold32: "ys \<noteq> [] \<Longrightarrow> hd (fold32 (xs @ ys)) = last ys"
  by (cases ys rule: rev_cases) (auto simp: fold32_def)

lemma sample_hash_ends:
  "last (namespaceHash samplePrims (js ''arch'')) = 104" "last (hashName samplePrims (js ''alice.arch'')) = 45"
  by (simp_all add: fold32_def samplePrims_def namespaceHash_def hashName_def domain_bytes textEncode_ascii js_def)

lemma sample_hash_nonempty: "namespaceHash samplePrims s \<noteq> []" "hashName samplePrims s \<noteq> []"
  by (rule length_greater_0_conv [THEN iffD1], simp add: length_hashes samplePrims_width)+

lemma sample_heads:
  "hd (at_address resolvedConfig) = 104" "hd (at_address resolvedName) = 45"
  "hd (sampleOfferAddress) = 4"
  using hd_fold32 [of "namespaceHash samplePrims (js ''arch'')" "CONFIG_SEED @ encodeU32LE 2"]
    hd_fold32 [of "hashName samplePrims (js ''alice.arch'')" "NAME_SEED @ namespaceHash samplePrims (js ''arch'')"]
    hd_fold32 [of "replicate 32 4" "OFFER_SEED @ namespaceHash samplePrims (js ''arch'') @ hashName samplePrims (js ''alice.arch'')"]
  by (simp_all add: resolvedConfig_def resolvedName_def sampleOfferAddress_def sample_hash_ends sample_hash_nonempty)

lemma sampleLedger_distinct: "distinct [at_address resolvedConfig, at_address resolvedName, sampleOfferAddress]"
proof -
  have "hd a \<noteq> hd b \<Longrightarrow> a \<noteq> b" for a b :: bytes by auto
  from this [of "at_address resolvedConfig" "at_address resolvedName"]
    this [of "at_address resolvedConfig" sampleOfferAddress] this [of "at_address resolvedName" sampleOfferAddress]
  show ?thesis by (simp add: sample_heads)
qed

lemma sample_shows: "showsLedger (cl_transport sampleClient) UNIV sampleLedger"
  unfolding sampleClient_def sampleLedger_def AnsClient.simps
  by (rule ledgerTransport_shows) (use sampleLedger_distinct in simp)

lemma sample_accounts:
  "lg_account sampleLedger (at_address resolvedConfig) = Some (programAccount (bytesOf (encodeRegistryConfig sampleConfig)))"
  "lg_account sampleLedger (at_address resolvedName) = Some (programAccount (bytesOf (encodeNameAccount (at_state resolvedName))))"
  "lg_account sampleLedger sampleOfferAddress = Some (programAccount (bytesOf (encodeOfferAccount sampleOfferAt)))"
  using sampleLedger_distinct by (auto simp: sampleLedger_def listLedger_def resolvedConfig_def)

lemma sample_states_ok:
  "okNameAccount (at_state resolvedName)" "na_header (at_state resolvedName) = initializedHeader NAME_ACCOUNT_DISCRIMINATOR"
  "okOfferAccount sampleOfferAt"
  using samples_ok by (simp_all add: resolvedName_def okNameAccount_def sampleName_def okOfferAccount_def sampleOfferAt_def sampleOffer_def)

lemma sample_offer_fields:
  "oa_buyer sampleOfferAt = replicate 32 4" "oa_nameHash sampleOfferAt = hashName samplePrims (js ''alice.arch'')"
  "oa_header sampleOfferAt = initializedHeader OFFER_ACCOUNT_DISCRIMINATOR" "oa_active sampleOfferAt"
  by (simp_all add: sampleOfferAt_def sampleOffer_def)

lemma sample_decodes:
  "decodeRegistryConfig (bytesOf (encodeRegistryConfig sampleConfig)) = Inr sampleConfig"
  "decodeNameAccount (bytesOf (encodeNameAccount (at_state resolvedName))) = Inr (at_state resolvedName)"
  "decodeOfferAccount (bytesOf (encodeOfferAccount sampleOfferAt)) = Inr sampleOfferAt"
  using config_codec.roundtrip [OF samples_ok(2)] name_codec.roundtrip [OF sample_states_ok(1)]
    offer_codec.roundtrip [OF sample_states_ok(3)]
  by (auto simp: bytesOf_def)

lemma sample_client_fields:
  "cl_programId sampleClient = sampleProgram" "cl_ns sampleClient = js ''arch''"
  "cl_registryConfigAddress sampleClient = at_address resolvedConfig"
  by (simp_all add: sampleClient_def)

lemma sample_stored:
  "storedConfig sampleClient sampleLedger sampleConfig"
  "storedName samplePrims sampleClient sampleLedger (js ''alice.arch'') resolvedName"
proof -
  show "storedConfig sampleClient sampleLedger sampleConfig"
    unfolding storedConfig_def sample_client_fields sample_accounts
    by (simp add: programAccount_def sample_decodes) (simp add: sampleConfig_def)
  have "deriveNameAddress samplePrims sampleProgram (js ''arch'') (hashName samplePrims (js ''alice.arch'')) =
      Inr (at_address resolvedName)"
    by (simp add: deriveNameAddress_def sample_derive resolvedName_def)
  then show "storedName samplePrims sampleClient sampleLedger (js ''alice.arch'') resolvedName"
    unfolding storedName_def sample_client_fields sample_accounts
    by (simp add: programAccount_def sample_decodes)
qed

lemma sample_registered:
  "registeredAt samplePrims sampleClient sampleLedger \<lparr>ne_name = js ''alice.arch'', ne_account = at_state resolvedName\<rparr> \<and>
   na_owner (at_state resolvedName) = replicate 32 9"
proof -
  have "na_nameHash (at_state resolvedName) = hashName samplePrims (js ''alice.arch'')"
    "na_canonicalLabel (at_state resolvedName) @ ARCH_SUFFIX = js ''alice.arch''"
    "na_owner (at_state resolvedName) = replicate 32 9"
    by (simp_all add: resolvedName_def sampleName_def) (simp add: ARCH_SUFFIX_def js_def)
  moreover have "deriveNameAddress samplePrims sampleProgram (js ''arch'') (hashName samplePrims (js ''alice.arch'')) =
      Inr (at_address resolvedName)"
    by (simp add: deriveNameAddress_def sample_derive resolvedName_def)
  ultimately show ?thesis
    unfolding registeredAt_def sample_client_fields
    using sample_accounts(2) canonicalizeName_canonical [OF alice_canonical, of samplePrims] sample_states_ok(2)
    by (simp add: programAccount_def sample_decodes)
qed

section \<open>Properties\<close>

text \<open>C9. Resolving an owner through the client: with a transport that shows a ledger, the query returns
  an owner exactly when the ledger holds, under the program, an initialised configuration at the
  configured address, and, at the address of the canonical name, a name account that \<open>resolveOwner\<close>
  accepts at the ledger's slot; it returns that account's owner.\<close>

theorem client_resolveOwner_ledger:
  assumes "showsLedger (cl_transport c) W L" "w \<in> W"
  shows "fst (clientResolveOwner P c requested w) = Inr owner \<longleftrightarrow>
   (\<exists>cfg canonical n. storedConfig c L cfg \<and> canonicalizeName P requested = Inr canonical \<and> storedName P c L canonical n \<and>
      resolveOwner P (cl_programId c) \<lparr>at_address = cl_registryConfigAddress c, at_state = cfg\<rparr> requested n (lg_slot L)
        = Inr owner)"
  using settles_fst [OF settles_clientResolveOwner [OF assms(1)] assms(2)] by (simp add: ledgerOwner_iff)

theorem client_resolveOwner_ledger_witness:
  "fst (clientResolveOwner samplePrims sampleClient (js ''alice.arch'') ()) = Inr (replicate 32 9)"
proof -
  have "resolveOwner samplePrims sampleProgram resolvedConfig (js ''alice.arch'') resolvedName 500 = Inr (replicate 32 9)"
  proof -
    have "isOk (resolveOwner samplePrims sampleProgram resolvedConfig (js ''alice.arch'') resolvedName 500)"
      using sample_record_resolves [of sampleProgram] unfolding resolveRecord_iff isOk_iff resolveOwner_iff by blast
    then show ?thesis
      by (auto simp: isOk_iff resolveOwner_iff) (simp add: resolvedName_def sampleName_def)
  qed
  moreover have "\<lparr>at_address = at_address resolvedConfig, at_state = sampleConfig\<rparr> = resolvedConfig"
    by (simp add: resolvedConfig_def)
  moreover have "lg_slot sampleLedger = 500" by (simp add: sampleLedger_def listLedger_def)
  ultimately have "resolveOwner samplePrims (cl_programId sampleClient)
      \<lparr>at_address = cl_registryConfigAddress sampleClient, at_state = sampleConfig\<rparr> (js ''alice.arch'') resolvedName (lg_slot sampleLedger)
      = Inr (replicate 32 9)"
    by (simp add: sample_client_fields)
  with sample_stored canonicalizeName_canonical [OF alice_canonical, of samplePrims] show ?thesis
    by (intro client_resolveOwner_ledger [OF sample_shows, THEN iffD2]) blast+
qed

text \<open>C29. The registration gate: the client declares a name available, and returns its canonical form,
  exactly when the slot of that name on the ledger is free: no account, no data, or data of the
  program that is all zero. A name whose slot holds an initialised account is refused as taken.\<close>

theorem client_registration_gate:
  assumes "showsLedger (cl_transport c) W L" "w \<in> W"
  shows "(fst (assertNameAvailable P c requested w) = Inr canonical \<longleftrightarrow>
      canonicalizeName P requested = Inr canonical \<and>
      (\<exists>a. deriveNameAddress P (cl_programId c) (cl_ns c) (hashName P canonical) = Inr a \<and> freeSlot c (lg_account L a)))
    \<and> (\<forall>n a i. canonicalizeName P requested = Inr canonical \<longrightarrow>
        deriveNameAddress P (cl_programId c) (cl_ns c) (hashName P canonical) = Inr a \<longrightarrow>
        lg_account L a = Some i \<longrightarrow> ai_owner i = cl_programId c \<longrightarrow> encodeNameAccount n = Inr (ai_data i) \<longrightarrow>
        okNameAccount n \<longrightarrow> na_header n = initializedHeader NAME_ACCOUNT_DISCRIMINATOR \<longrightarrow>
        fst (assertNameAvailable P c requested w) = Inl (duplicateRegistrationError canonical))"
  using settles_fst [OF settles_assertNameAvailable [OF assms(1)] assms(2)]
  by (simp add: ledgerAssert_iff ledgerAssert_taken)

theorem client_registration_gate_witness:
  "fst (assertNameAvailable samplePrims sampleClient (js ''alice.arch'') ()) = Inl (duplicateRegistrationError (js ''alice.arch''))"
proof -
  obtain d where d: "encodeNameAccount (at_state resolvedName) = Inr d"
    using name_codec.roundtrip [OF sample_states_ok(1)] by blast
  have "deriveNameAddress samplePrims sampleProgram (js ''arch'') (hashName samplePrims (js ''alice.arch'')) =
      Inr (at_address resolvedName)"
    by (simp add: deriveNameAddress_def sample_derive resolvedName_def)
  then show ?thesis
    using conjunct2 [OF client_registration_gate [OF sample_shows, of "()" samplePrims "js ''alice.arch''" "js ''alice.arch''"]]
      canonicalizeName_canonical [OF alice_canonical, of samplePrims] sample_accounts(2) d sample_states_ok(1,2)
    unfolding sample_client_fields by (simp add: programAccount_def bytesOf_def)
qed

text \<open>The portfolio is exact: with a transport that shows a ledger and can scan, the owned names are
  exactly the initialised name accounts of the program that stand at the address of their own hash,
  have a label that canonicalises, and name this owner. The server-side discriminator filter loses
  none of them.\<close>

theorem client_owned_names_exact:
  assumes "showsLedger (cl_transport c) W L" "w \<in> W" "getProgramAccounts (cl_transport c) = Some g"
  shows "\<exists>xs. fst (listOwnedNames P c owner w) = Inr xs
    \<and> set xs = {x. registeredAt P c L x \<and> na_owner (ne_account x) = owner}"
proof -
  let ?all = "List.map_filter (nameEntry P c) (lg_scan L (cl_programId c) [DataContent 0 NAME_ACCOUNT_DISCRIMINATOR])"
  have "settles W (listOwnedNames P c owner) (Inr (filter (\<lambda>x. bytesEqual (na_owner (ne_account x)) owner) ?all))"
    unfolding listOwnedNames_def
    by (rule settles_eq, (rule io_intros settles_listNameAccounts [OF assms(1,3)])+) simp
  from settles_fst [OF this assms(2)] scanned_names [OF assms(1), of P] show ?thesis by auto
qed

theorem client_owned_names_exact_witness:
  "\<exists>xs. fst (listOwnedNames samplePrims sampleClient (replicate 32 9) ()) = Inr xs
     \<and> \<lparr>ne_name = js ''alice.arch'', ne_account = at_state resolvedName\<rparr> \<in> set xs"
proof -
  obtain g where g: "getProgramAccounts (cl_transport sampleClient) = Some g"
    by (simp add: sampleClient_def ledgerTransport_def)
  show ?thesis
    using client_owned_names_exact [OF sample_shows _ g, of "()" samplePrims "replicate 32 9"] sample_registered by fastforce
qed

text \<open>C30. The offers of a name are exact: the scan with the discriminator at byte 0 and the name hash at
  byte 11 finds exactly the active offer accounts for that name that stand at the address of name and
  buyer; the offsets are those of the encoding, so the filter loses no offer.\<close>

theorem client_offers_exact:
  assumes "showsLedger (cl_transport c) W L" "w \<in> W" "getProgramAccounts (cl_transport c) = Some g"
    and "sha256_width P" "canonicalizeName P requested = Inr canonical"
  shows "\<exists>qs. fst (listOffersForName P c requested w) = Inr qs \<and> set qs = {q. offeredAt P c L (hashName P canonical) q}"
  using settles_fst [OF settles_listOffersForName [OF assms(1,3,5)] assms(2)]
    scanned_offers [OF assms(1) length_hashes(2) [OF assms(4)], of P canonical] by auto

theorem client_offers_exact_witness:
  "\<exists>qs. fst (listOffersForName samplePrims sampleClient (js ''alice.arch'') ()) = Inr qs \<and> sampleOfferAt \<in> set qs"
proof -
  obtain g where g: "getProgramAccounts (cl_transport sampleClient) = Some g"
    by (simp add: sampleClient_def ledgerTransport_def)
  have "deriveOfferAddress samplePrims sampleProgram (js ''arch'') (hashName samplePrims (js ''alice.arch'')) (replicate 32 4) =
      Inr sampleOfferAddress"
    by (simp add: deriveOfferAddress_def sample_derive sampleOfferAddress_def)
  then have "offeredAt samplePrims sampleClient sampleLedger (hashName samplePrims (js ''alice.arch'')) sampleOfferAt"
    unfolding offeredAt_def sample_client_fields
    using sample_accounts(3) sample_offer_fields by (simp add: programAccount_def sample_decodes)
  then show ?thesis
    using client_offers_exact [OF sample_shows _ g samplePrims_width canonicalizeName_canonical [OF alice_canonical], of "()"]
    by auto
qed

text \<open>Recent names: the selection has as many entries as the limit allows (none for a limit that is
  not finite), is drawn from the given entries, lists newer registrations first and equal ones in
  descending order of name, and leaves out no entry that belongs before one it shows.\<close>

theorem recent_names_exact:
  "length (selectRecentNames entries limit) =
     min (length entries) (case limit of None \<Rightarrow> 0 | Some l \<Rightarrow> nat \<lfloor>l\<rfloor>)
   \<and> mset (selectRecentNames entries limit) \<subseteq># mset entries
   \<and> sorted_wrt (\<lambda>a b. compareRecent a b \<le> 0) (selectRecentNames entries limit)
   \<and> (\<forall>x \<in> set (selectRecentNames entries limit). \<forall>y \<in># mset entries - mset (selectRecentNames entries limit).
        na_registeredAtSlot (ne_account y) < na_registeredAtSlot (ne_account x) \<or>
        (na_registeredAtSlot (ne_account y) = na_registeredAtSlot (ne_account x) \<and> \<not> textLess (ne_name x) (ne_name y)))"
proof -
  let ?n = "case limit of None \<Rightarrow> 0 | Some l \<Rightarrow> nat \<lfloor>l\<rfloor>"
  have sel: "selectRecentNames entries limit = take ?n (sortBy compareRecent entries)"
    by (cases limit) (auto simp: selectRecentNames_def max_def)
  have sub: "mset (take ?n (sortBy compareRecent entries)) \<subseteq># mset entries"
    by (metis append_take_drop_id mset_append mset_sortBy mset_subset_eq_add_left)
  have srt: "sorted_wrt (\<lambda>a b. compareRecent a b \<le> 0) (take ?n (sortBy compareRecent entries))"
    using recent.sorted_sortBy by (rule sorted_wrt_take)
  have "compareRecent x y \<le> 0"
    if "x \<in> set (take ?n (sortBy compareRecent entries))" "y \<in># mset entries - mset (take ?n (sortBy compareRecent entries))" for x y
    using that by (rule recent.take_precedes)
  then have "\<forall>x \<in> set (take ?n (sortBy compareRecent entries)).
      \<forall>y \<in># mset entries - mset (take ?n (sortBy compareRecent entries)). compareRecent x y \<le> 0"
    by blast
  then have "\<forall>x \<in> set (take ?n (sortBy compareRecent entries)).
      \<forall>y \<in># mset entries - mset (take ?n (sortBy compareRecent entries)).
        na_registeredAtSlot (ne_account y) < na_registeredAtSlot (ne_account x) \<or>
        (na_registeredAtSlot (ne_account y) = na_registeredAtSlot (ne_account x) \<and> \<not> textLess (ne_name x) (ne_name y))"
    unfolding compareRecent_le by metis
  then show ?thesis unfolding sel using sub srt by simp
qed

theorem recent_names_exact_witness:
  "length (selectRecentNames [\<lparr>ne_name = js ''a.arch'', ne_account = sampleName\<rparr>, \<lparr>ne_name = js ''b.arch'', ne_account = sampleName\<rparr>] (Some 1)) = 1
   \<and> selectRecentNames [\<lparr>ne_name = js ''a.arch'', ne_account = sampleName\<rparr>, \<lparr>ne_name = js ''b.arch'', ne_account = sampleName\<rparr>] (Some 1) =
       [\<lparr>ne_name = js ''b.arch'', ne_account = sampleName\<rparr>]"
  using recent_names_exact [of "[\<lparr>ne_name = js ''a.arch'', ne_account = sampleName\<rparr>, \<lparr>ne_name = js ''b.arch'', ne_account = sampleName\<rparr>]" "Some 1"]
  by (simp add: selectRecentNames_def sortBy_def compareRecent_def js_def)

end
