(* ===== verification/Owned_Names.thy ===== *)
theory Owned_Names
  imports Wallet_Notices Ledger_Client
begin

text \<open>
  The names of every account a wallet has reported: \<^verbatim>\<open>owned-names.ts\<close> of the manager. The reads are a parameter, the
  record \<open>OwnedNamesReader\<close>; the client is one of its instances, and over a ledger the lists are exact. Any of
  the reads may fail; a listing that does stays visible as an error of its account.
\<close>

section \<open>Data\<close>

definition SUMMARY_RECORDS :: "RecordType list" where
  "SUMMARY_RECORDS = [ArchOwnerT, BitcoinTaprootT]"

record OwnedName =
  on_name :: js_string
  on_ownerArchAddress :: js_string
  on_recordCount :: "nat option"

record AccountNames =
  an_archAddress :: js_string
  an_connected :: bool
  an_names :: "OwnedName list"
  an_primary :: "js_string option"
  an_error :: "js_error option"

record OwnedNamesResult =
  or_accounts :: "AccountNames list"
  or_failed :: bool

text \<open>Of a record that is read only its being there matters.\<close>

record 'w OwnedNamesReader =
  rd_listOwnedNames :: "bytes \<Rightarrow> ('w, NamedAccount list) io"
  rd_fetchRecord :: "js_string \<Rightarrow> RecordType \<Rightarrow> ('w, bool) io"
  rd_resolvePrimary :: "bytes \<Rightarrow> ('w, js_string option) io"

section \<open>Lookups\<close>

fun findIndex :: "('a \<Rightarrow> bool) \<Rightarrow> 'a list \<Rightarrow> nat option" where
  "findIndex p [] = None"
| "findIndex p (x # xs) = (if p x then Some 0 else map_option Suc (findIndex p xs))"

definition nameLookupAccounts :: "base58 \<Rightarrow> browser \<Rightarrow> js_string option \<Rightarrow> js_string list" where
  "nameLookupAccounts B b connectedArchAddress =
     (case truthyText connectedArchAddress of
        None \<Rightarrow> []
      | Some c \<Rightarrow>
          (let every = c # signerCandidates B b c [] in
           map snd (filter (\<lambda>(index, candidate).
             findIndex (\<lambda>other. archIdentitiesEqual B (Some other) (Some candidate)) every = Some index) (enumerate 0 every))))"

definition countRecords :: "'w OwnedNamesReader \<Rightarrow> js_string \<Rightarrow> ('w, nat option) io" where
  "countRecords reader name =
     catchIO (bindIO (allIO (map (rd_fetchRecord reader name) SUMMARY_RECORDS)) (\<lambda>found.
              retIO (Some (length (filter (\<lambda>x. x) found)))))
       (\<lambda>_. retIO None)"

definition ownedName :: "base58 \<Rightarrow> 'w OwnedNamesReader \<Rightarrow> NamedAccount \<Rightarrow> ('w, OwnedName) io" where
  "ownedName B reader entry =
     bindIO (countRecords reader (ne_name entry)) (\<lambda>recordCount.
     retIO \<lparr>on_name = ne_name entry, on_ownerArchAddress = b58_encode B (na_owner (ne_account entry)),
       on_recordCount = recordCount\<rparr>)"

definition failedLookup :: "js_string \<Rightarrow> bool \<Rightarrow> js_error \<Rightarrow> AccountNames" where
  "failedLookup archAddress isConnected error =
     \<lparr>an_archAddress = archAddress, an_connected = isConnected, an_names = [], an_primary = None, an_error = Some error\<rparr>"

definition loadForAccount :: "base58 \<Rightarrow> 'w OwnedNamesReader \<Rightarrow> js_string \<Rightarrow> bool \<Rightarrow> ('w, AccountNames) io" where
  "loadForAccount B reader archAddress isConnected =
     (case canonicalArchKey B (Some archAddress) of
        None \<Rightarrow> retIO (failedLookup archAddress isConnected (PlainError
          (js ''Arch Wallet reported an address this app cannot read as an account key: '' @ archAddress)))
      | Some key \<Rightarrow>
          bindIO (catchIO (bindIO (rd_listOwnedNames reader key) (\<lambda>owned. retIO (Inr owned))) (\<lambda>error. retIO (Inl error))) (\<lambda>listed.
          case listed of
            Inl error \<Rightarrow> retIO (failedLookup archAddress isConnected error)
          | Inr owned \<Rightarrow>
              bindIO (allIO (map (ownedName B reader) owned)) (\<lambda>names.
              bindIO (catchIO (rd_resolvePrimary reader key) (\<lambda>_. retIO None)) (\<lambda>primary.
              retIO \<lparr>an_archAddress = archAddress, an_connected = isConnected, an_names = names, an_primary = primary,
                an_error = None\<rparr>))))"

definition loadOwnedNames :: "base58 \<Rightarrow> browser \<Rightarrow> 'w OwnedNamesReader \<Rightarrow> js_string \<Rightarrow> ('w, OwnedNamesResult) io" where
  "loadOwnedNames B b reader connectedArchAddress =
     bindIO (allIO (map (\<lambda>(index, archAddress). loadForAccount B reader archAddress (index = 0))
       (enumerate 0 (nameLookupAccounts B b (Some connectedArchAddress))))) (\<lambda>accounts.
     retIO \<lparr>or_accounts = accounts, or_failed = list_ex (\<lambda>entry. an_error entry \<noteq> None) accounts\<rparr>)"

section \<open>Views of a result\<close>

definition connectedAccountNames :: "OwnedNamesResult \<Rightarrow> AccountNames option" where
  "connectedAccountNames result = find an_connected (or_accounts result)"

definition otherAccountNames :: "OwnedNamesResult \<Rightarrow> AccountNames list" where
  "otherAccountNames result = filter (\<lambda>entry. \<not> an_connected entry \<and> length (an_names entry) > 0) (or_accounts result)"

definition totalNameCount :: "OwnedNamesResult \<Rightarrow> nat" where
  "totalNameCount result = foldl (\<lambda>sum entry. sum + length (an_names entry)) 0 (or_accounts result)"

definition firstLookupError :: "OwnedNamesResult \<Rightarrow> js_error option" where
  "firstLookupError result =
     (case Option.bind (connectedAccountNames result) an_error of
        Some error \<Rightarrow> Some error
      | None \<Rightarrow> Option.bind (find (\<lambda>entry. an_error entry \<noteq> None) (or_accounts result)) an_error)"

section \<open>The accounts to look up\<close>

lemma findIndex_nth:
  "i < length xs \<Longrightarrow> p (xs ! i) \<Longrightarrow> (\<And>j. j < i \<Longrightarrow> \<not> p (xs ! j)) \<Longrightarrow> findIndex p xs = Some i"
proof (induction xs arbitrary: i)
  case (Cons x xs)
  show ?case
  proof (cases i)
    case (Suc j)
    with Cons.prems(3) [of 0] have "\<not> p x" by simp
    moreover have "findIndex p xs = Some j"
      using Cons.prems Suc by (intro Cons.IH) force+
    ultimately show ?thesis using Suc by simp
  qed (use Cons.prems in simp)
qed simp

lemma filter_indices:
  "(\<And>i. i < length xs \<Longrightarrow> P i (xs ! i)) \<Longrightarrow> filter (\<lambda>(i, x). P i x) (enumerate 0 xs) = enumerate 0 xs"
  by (intro filter_True) (auto simp: in_set_enumerate_eq)

lemma archIdentitiesEqual_refl [simp]: "archIdentitiesEqual B (Some s) (Some s)"
  by (simp add: archIdentitiesEqual_def split: option.splits)

text \<open>The candidates are already different accounts, so the filter keeps all of them.\<close>

lemma nameLookupAccounts_all:
  assumes "c \<noteq> []"
  shows "nameLookupAccounts B b (Some c) = c # signerCandidates B b c []"
proof -
  let ?ks = "signerCandidates B b c []" and ?all = "c # signerCandidates B b c []"
  have ks: "\<forall>x \<in> set ?ks. keyOf B x \<noteq> None \<and> keyOf B x \<noteq> keyOf B c" "distinct (map (keyOf B) ?ks)"
    using keepCandidates_exact [of "[]" B c "orderedCandidates b []"] by (simp_all add: signerCandidates_def)
  have differ: "\<not> archIdentitiesEqual B (Some (?all ! j)) (Some (?all ! i))" if "j < i" "i < length ?all" for i j
  proof -
    from that(1) obtain i' where "i = Suc i'" by (metis gr0_implies_Suc gr_implies_not0 neq0_conv)
    with that(2) have i: "i = Suc i'" "i' < length ?ks" by simp_all
    obtain k where k: "keyOf B (?ks ! i') = Some k" using ks(1) nth_mem [OF i(2)] by blast
    have "keyOf B (?all ! j) \<noteq> Some k"
    proof (cases j)
      case 0
      then show ?thesis using ks(1) nth_mem [OF i(2)] k by auto
    next
      case (Suc j')
      with that i have "j' < i'" "j' < length ?ks" by simp_all
      then show ?thesis using nth_eq_iff_index_eq [OF ks(2), of j' i'] i(2) Suc k by auto
    qed
    then show ?thesis unfolding i(1) nth_Cons_Suc identities_by_key(2) [OF k] .
  qed
  have "findIndex (\<lambda>other. archIdentitiesEqual B (Some other) (Some (?all ! i))) ?all = Some i" if "i < length ?all" for i
    using that differ by (intro findIndex_nth) simp_all
  then have "filter (\<lambda>(i, x). findIndex (\<lambda>other. archIdentitiesEqual B (Some other) (Some x)) ?all = Some i)
      (enumerate 0 ?all) = enumerate 0 ?all" by (rule filter_indices)
  with assms show ?thesis
    by (cases c) (simp_all add: nameLookupAccounts_def truthyText_def Let_def del: findIndex.simps enumerate_simps)
qed

section \<open>Lookups over a ledger\<close>

text \<open>The client as a reader.\<close>

definition clientReader :: "prims \<Rightarrow> ('w, 'tx) AnsClient \<Rightarrow> 'w OwnedNamesReader" where
  "clientReader P c = \<lparr>
     rd_listOwnedNames = listOwnedNames P c,
     rd_fetchRecord = (\<lambda>name rtype. bindIO (fetchRecord P c name rtype None) (\<lambda>r. retIO (r \<noteq> None))),
     rd_resolvePrimary = clientResolvePrimary P c\<rparr>"

text \<open>Reads that may fail. Whatever is read, the world stays one of \<open>I\<close>; a program scan that is answered lists the accounts of
  one of the ledgers \<open>Ls\<close>, those of the time of the lookup, that pass all filters; any read may fail.\<close>

definition scansShow :: "('w, 'tx) AnsTransport \<Rightarrow> ('w \<Rightarrow> bool) \<Rightarrow> ledger set \<Rightarrow> bool" where
  "scansShow T I Ls \<longleftrightarrow>
     (\<forall>a. triple I (readAccountInfo T a) (\<lambda>_. I) (\<lambda>_. I)) \<and> triple I (getCurrentSlot T) (\<lambda>_. I) (\<lambda>_. I) \<and>
     (\<exists>g. getProgramAccounts T = Some g \<and>
       (\<forall>pid fs. triple I (g pid fs)
          (\<lambda>es w. I w \<and> (\<exists>L \<in> Ls. set es = {e. lg_account L (pe_pubkey e) = Some (pe_account e) \<and>
             ai_owner (pe_account e) = pid \<and> list_all (passes (ai_data (pe_account e))) fs})) (\<lambda>_. I)))"

text \<open>A transport that shows a ledger is one that never fails.\<close>

lemma settles_triple:
  "settles W m r \<Longrightarrow> triple (\<lambda>w. w \<in> W) m (\<lambda>a w. w \<in> W \<and> r = Inr a) (\<lambda>_ w. w \<in> W)"
  by (intro tripleI) (fastforce simp: settles_def)+

lemma showsLedger_scansShow:
  assumes "showsLedger T W L" "getProgramAccounts T = Some g"
  shows "scansShow T (\<lambda>w. w \<in> W) {L}"
proof -
  note settled = settles_triple
  note reads = showsLedgerD [OF assms(1)]
  show ?thesis unfolding scansShow_def
    by (intro conjI allI exI [of _ g] assms(2);
        rule triple_weaken [OF settled [OF reads(1)]] triple_weaken [OF settled [OF reads(2)]]
          triple_weaken [OF settled [OF reads(4) [OF assms(2)]]]) (auto simp: reads(5))
qed

lemma scansShowD:
  assumes "scansShow T I Ls"
  shows "triple I (readAccountInfo T a) (\<lambda>_. I) (\<lambda>_. I)" "triple I (getCurrentSlot T) (\<lambda>_. I) (\<lambda>_. I)"
  using assms by (simp_all add: scansShow_def)

lemma triple_fetchRecord:
  "scansShow (cl_transport c) I Ls \<Longrightarrow> triple I (fetchRecord P c name rtype textKey) (\<lambda>_. I) (\<lambda>_. I)"
  unfolding fetchRecord_def
  by (intro triple_bind_pure triple_bind [OF scansShowD(1)] triple_intros triple_pureIO)

lemma triple_fetchRegistryConfig:
  "scansShow (cl_transport c) I Ls \<Longrightarrow> triple I (fetchRegistryConfig c) (\<lambda>_. I) (\<lambda>_. I)"
  unfolding fetchRegistryConfig_def
  by (intro triple_bind_pure triple_bind [OF scansShowD(1)] triple_intros triple_pureIO)

lemma triple_clientResolvePrimary:
  "scansShow (cl_transport c) I Ls \<Longrightarrow> triple I (clientResolvePrimary P c owner) (\<lambda>_. I) (\<lambda>_. I)"
  unfolding clientResolvePrimary_def
  by (intro triple_bind_pure triple_bind [OF triple_fetchRegistryConfig] triple_bind [OF scansShowD(1)]
      triple_bind [OF scansShowD(2)] triple_intros triple_pureIO)

text \<open>\<open>Promise.all\<close> runs every call, whatever the others do.\<close>

lemma triple_keepAll:
  "(\<And>m. m \<in> set ms \<Longrightarrow> triple I m (\<lambda>_. I) (\<lambda>_. I)) \<Longrightarrow> triple I (allIO ms) (\<lambda>_. I) (\<lambda>_. I)"
proof (induction ms)
  case (Cons m ms)
  have m: "triple I m (\<lambda>_. I) (\<lambda>_. I)" by (rule Cons.prems) simp
  have ms: "triple I (allIO ms) (\<lambda>_. I) (\<lambda>_. I)" by (rule Cons.IH, rule Cons.prems) simp
  show ?case unfolding triple_def
  proof (intro allI impI)
    fix w assume w: "I w"
    obtain r w1 where 1: "m w = (r, w1)" by fastforce
    obtain rs w2 where 2: "allIO ms w1 = (rs, w2)" by fastforce
    have "I w1" using m [unfolded triple_def, rule_format, OF w] by (cases r) (simp_all add: 1)
    from ms [unfolded triple_def, rule_format, OF this] have "I w2" by (cases rs) (simp_all add: 2)
    moreover have "allIO (m # ms) w = (bindR r (\<lambda>a. bindR rs (\<lambda>as. Inr (a # as))), w2)" by (simp add: 1 2)
    ultimately show "case allIO (m # ms) w of (Inl e, w') \<Rightarrow> I w' | (Inr a, w') \<Rightarrow> I w'"
      by (simp only: prod.case sum.case_eq_if if_cancel)
  qed
qed (simp add: triple_def)

text \<open>One name: the counting of its records never fails.\<close>

lemma triple_ownedName:
  assumes "scansShow (cl_transport c) I Ls"
  shows "triple I (ownedName B (clientReader P c) x) (\<lambda>y w. I w \<and> on_name y = ne_name x) (\<lambda>_ _. False)"
proof -
  have one: "triple I (rd_fetchRecord (clientReader P c) name rtype) (\<lambda>_. I) (\<lambda>_. I)" for name rtype
    unfolding clientReader_def OwnedNamesReader.simps
    by (intro triple_bind [OF triple_fetchRecord [OF assms]] triple_intros)
  have "triple I (allIO (map (rd_fetchRecord (clientReader P c) name) SUMMARY_RECORDS)) (\<lambda>_. I) (\<lambda>_. I)" for name
    using one by (intro triple_keepAll) auto
  then have count: "triple I (countRecords (clientReader P c) name) (\<lambda>_. I) (\<lambda>_ _. False)" for name
    unfolding countRecords_def by (rule triple_catch [OF triple_bind]) (rule triple_pure, assumption)+
  show ?thesis unfolding ownedName_def by (rule triple_bind [OF count], rule triple_pure) simp
qed

lemma all2_map: "list_all2 Q xs ys \<Longrightarrow> (\<And>x y. Q x y \<Longrightarrow> f y = g x) \<Longrightarrow> map f ys = map g xs"
  by (induction rule: list_all2_induct) simp_all

lemma all2_all: "list_all2 Q xs ys \<Longrightarrow> (\<And>x y. Q x y \<Longrightarrow> R y) \<Longrightarrow> list_all R ys"
  by (induction rule: list_all2_induct) simp_all

lemma connected_first: "map (\<lambda>x. fst x = 0) (enumerate (Suc n) xs) = map (\<lambda>_. False) xs"
  by (induction xs arbitrary: n) simp_all

text \<open>The names of an account, at one of the ledgers; whether an entry without names is the failure it says.\<close>

definition namesAt :: "prims \<Rightarrow> ('w, 'tx) AnsClient \<Rightarrow> ledger \<Rightarrow> bytes \<Rightarrow> js_string set" where
  "namesAt P c L key = ne_name ` {x. registeredAt P c L x \<and> na_owner (ne_account x) = key}"

definition listingFails :: "prims \<Rightarrow> ('w, 'tx) AnsClient \<Rightarrow> ('w \<Rightarrow> bool) \<Rightarrow> bytes \<Rightarrow> js_error \<Rightarrow> bool" where
  "listingFails P c I key e \<longleftrightarrow> (\<exists>w. I w \<and> fst (listOwnedNames P c key w) = Inl e)"

definition entryExact :: "prims \<Rightarrow> base58 \<Rightarrow> ('w, 'tx) AnsClient \<Rightarrow> ('w \<Rightarrow> bool) \<Rightarrow> ledger set \<Rightarrow> AccountNames \<Rightarrow> bool" where
  "entryExact P B c I Ls entry \<longleftrightarrow>
     (case an_error entry of
        None \<Rightarrow> \<exists>key L. canonicalArchKey B (Some (an_archAddress entry)) = Some key \<and> L \<in> Ls \<and>
          on_name ` set (an_names entry) = namesAt P c L key
      | Some e \<Rightarrow> an_names entry = [] \<and> an_primary entry = None \<and>
          (case canonicalArchKey B (Some (an_archAddress entry)) of
             None \<Rightarrow> e = PlainError
               (js ''Arch Wallet reported an address this app cannot read as an account key: '' @ an_archAddress entry)
           | Some key \<Rightarrow> listingFails P c I key e))"

lemma namesAt_listed:
  "set xs = {x. registeredAt P c L x} \<Longrightarrow>
   ne_name ` set (filter (\<lambda>entry. bytesEqual (na_owner (ne_account entry)) key) xs) = namesAt P c L key"
  by (simp add: namesAt_def)

lemma triple_listOwnedNames:
  assumes "scansShow (cl_transport c) I Ls"
  shows "triple I (listOwnedNames P c key)
    (\<lambda>xs w. I w \<and> (\<exists>L \<in> Ls. ne_name ` set xs = namesAt P c L key)) (\<lambda>e w. I w \<and> listingFails P c I key e)"
proof -
  obtain g where g: "getProgramAccounts (cl_transport c) = Some g" and scan: "\<And>pid fs. triple I (g pid fs)
      (\<lambda>es w. I w \<and> (\<exists>L \<in> Ls. set es = {e. lg_account L (pe_pubkey e) = Some (pe_account e) \<and>
         ai_owner (pe_account e) = pid \<and> list_all (passes (ai_data (pe_account e))) fs})) (\<lambda>_. I)"
    using assms by (auto simp: scansShow_def)
  have names: "triple I (listNameAccounts P c) (\<lambda>xs w. I w \<and> (\<exists>L \<in> Ls. set xs = {x. registeredAt P c L x})) (\<lambda>_. I)"
    unfolding listNameAccounts_def g option.case
    by (intro triple_bind [OF scan] triple_pure) (auto simp: scanned_names_of)
  have "triple I (listOwnedNames P c key) (\<lambda>xs w. I w \<and> (\<exists>L \<in> Ls. ne_name ` set xs = namesAt P c L key)) (\<lambda>_. I)"
    unfolding listOwnedNames_def
  proof (rule triple_bind [OF names], rule triple_pure(1))
    fix xs w assume "I w \<and> (\<exists>L \<in> Ls. set xs = {x. registeredAt P c L x})"
    then obtain L where "I w" "L \<in> Ls" "set xs = {x. registeredAt P c L x}" by blast
    then show "I w \<and> (\<exists>L \<in> Ls. ne_name ` set (filter (\<lambda>entry. bytesEqual (na_owner (ne_account entry)) key) xs) = namesAt P c L key)"
      using namesAt_listed by blast
  qed
  note listed = tripleD [OF this]
  show ?thesis
  proof (rule tripleI)
    show "I w' \<and> listingFails P c I key e" if "I w" "listOwnedNames P c key w = (Inl e, w')" for w e w'
      using listed(2) [OF that] that unfolding listingFails_def by (metis fst_conv)
  qed (rule listed(1))
qed

lemma triple_loadForAccount:
  assumes "scansShow (cl_transport c) I Ls"
  shows "triple I (loadForAccount B (clientReader P c) a k)
    (\<lambda>entry w. I w \<and> (an_archAddress entry = a \<and> an_connected entry = k \<and> entryExact P B c I Ls entry)) (\<lambda>_ _. False)"
proof (cases "canonicalArchKey B (Some a)")
  case None
  then show ?thesis by (auto simp: loadForAccount_def failedLookup_def entryExact_def intro: triple_pure)
next
  case (Some key)
  let ?reader = "clientReader P c"
  let ?listed = "\<lambda>r w. I w \<and> (case r of Inl e \<Rightarrow> listingFails P c I key e | Inr xs \<Rightarrow> \<exists>L \<in> Ls. ne_name ` set xs = namesAt P c L key)"
  have "triple I (rd_listOwnedNames ?reader key)
      (\<lambda>xs w. I w \<and> (\<exists>L \<in> Ls. ne_name ` set xs = namesAt P c L key)) (\<lambda>e w. I w \<and> listingFails P c I key e)"
    using triple_listOwnedNames [OF assms] by (simp add: clientReader_def)
  then have listed: "triple I (catchIO (bindIO (rd_listOwnedNames ?reader key) (\<lambda>owned. retIO (Inr owned))) (\<lambda>error. retIO (Inl error)))
      ?listed (\<lambda>_ _. False)"
    by (intro triple_catch [where G = "\<lambda>e w. I w \<and> listingFails P c I key e"] triple_bind triple_pure) auto
  have primary: "triple I (catchIO (rd_resolvePrimary ?reader key) (\<lambda>_. retIO None)) (\<lambda>_. I) (\<lambda>_ _. False)"
    using triple_clientResolvePrimary [OF assms, of P key]
    by (intro triple_catch [where G = "\<lambda>_. I"] triple_pure) (simp_all add: clientReader_def)
  let ?Q = "\<lambda>entry w. I w \<and> (an_archAddress entry = a \<and> an_connected entry = k \<and> entryExact P B c I Ls entry)"
  have "triple (?listed r) (case r of Inl error \<Rightarrow> retIO (failedLookup a k error)
      | Inr owned \<Rightarrow> bindIO (allIO (map (ownedName B ?reader) owned)) (\<lambda>names.
          bindIO (catchIO (rd_resolvePrimary ?reader key) (\<lambda>_. retIO None)) (\<lambda>primary.
          retIO \<lparr>an_archAddress = a, an_connected = k, an_names = names, an_primary = primary, an_error = None\<rparr>)))
      ?Q (\<lambda>_ _. False)" for r
  proof (cases r)
    case (Inl e)
    then show ?thesis using Some by (auto simp: failedLookup_def entryExact_def intro: triple_pure)
  next
    case (Inr xs)
    let ?ok = "\<exists>L \<in> Ls. ne_name ` set xs = namesAt P c L key"
    have exact: "on_name ` set ys = ne_name ` set xs" if "list_all2 (\<lambda>x y. on_name y = ne_name x) xs ys" for ys :: "OwnedName list"
      using all2_map [OF that, of on_name ne_name] by (metis list.set_map)
    show ?thesis
    proof (cases ?ok)
      case True
      have "triple I (bindIO (allIO (map (ownedName B ?reader) xs)) (\<lambda>names.
          bindIO (catchIO (rd_resolvePrimary ?reader key) (\<lambda>_. retIO None)) (\<lambda>primary.
          retIO \<lparr>an_archAddress = a, an_connected = k, an_names = names, an_primary = primary, an_error = None\<rparr>))) ?Q (\<lambda>_ _. False)"
      proof (rule triple_bind [OF triple_all [of xs I _ "\<lambda>x y. on_name y = ne_name x"]])
        fix ys :: "OwnedName list"
        let ?fits = "list_all2 (\<lambda>x y. on_name y = ne_name x) xs ys"
        have "triple (\<lambda>w. I w \<and> ?fits) (catchIO (rd_resolvePrimary ?reader key) (\<lambda>_. retIO None)) (\<lambda>_ w. I w \<and> ?fits) (\<lambda>_ _. False)"
          using tripleD [OF primary] by (intro tripleI) blast+
        then show "triple (\<lambda>w. I w \<and> ?fits) (bindIO (catchIO (rd_resolvePrimary ?reader key) (\<lambda>_. retIO None)) (\<lambda>primary.
            retIO \<lparr>an_archAddress = a, an_connected = k, an_names = ys, an_primary = primary, an_error = None\<rparr>)) ?Q (\<lambda>_ _. False)"
          by (rule triple_bind, intro triple_pure) (use True Some exact in \<open>auto simp: entryExact_def\<close>)
      qed (rule triple_ownedName [OF assms])
      then show ?thesis unfolding Inr sum.case by (rule triple_weaken) simp_all
    qed (simp add: Inr triple_def)
  qed
  from triple_bind [OF listed this] show ?thesis
    unfolding loadForAccount_def Some option.case .
qed

text \<open>A failed lookup is never read as an account without names: its error is there to be shown.\<close>

lemma failure_has_error:
  "list_ex (\<lambda>entry. an_error entry \<noteq> None) (or_accounts result) \<longleftrightarrow> firstLookupError result \<noteq> None"
proof -
  let ?any = "find (\<lambda>entry. an_error entry \<noteq> None) (or_accounts result)"
  have any: "?any \<noteq> None \<longleftrightarrow> list_ex (\<lambda>entry. an_error entry \<noteq> None) (or_accounts result)"
    by (auto simp: find_None_iff list_ex_iff)
  have "an_error e \<noteq> None" if "?any = Some e" for e
    using that by (auto simp: find_Some_iff)
  with any have any: "Option.bind ?any an_error \<noteq> None \<longleftrightarrow> list_ex (\<lambda>entry. an_error entry \<noteq> None) (or_accounts result)"
    by (cases ?any) auto
  show ?thesis
  proof (cases "Option.bind (connectedAccountNames result) an_error")
    case None
    then show ?thesis using any by (simp add: firstLookupError_def)
  next
    case (Some e)
    then obtain entry where "connectedAccountNames result = Some entry" "an_error entry = Some e"
      by (auto simp: Option.bind_eq_Some_conv)
    moreover from this have "entry \<in> set (or_accounts result)"
      by (auto simp: connectedAccountNames_def find_Some_iff)
    ultimately show ?thesis using Some by (auto simp: firstLookupError_def list_ex_iff)
  qed
qed

section \<open>Properties\<close>

text \<open>C11. The names of a wallet are exact, and a failed lookup is never an account without names. Over a transport whose
  scans, when they are answered, show the ledgers of the time of the lookup, and any of whose reads may fail, the
  lookup of a wallet never fails as a whole: it gives one entry for the connected account and then one for every other
  account the wallet has reported. An entry without an error lists exactly the names registered to its key on such a
  ledger; an entry with one lists nothing, and its error is that its address has no key, or the very error with which
  the listing of its key's names has failed. The result is marked as failed exactly when there is an error to show.\<close>

theorem wallet_names_exact:
  assumes "scansShow (cl_transport c) I Ls" "I w" "connected_address \<noteq> []"
  shows "\<exists>result. fst (loadOwnedNames B b (clientReader P c) connected_address w) = Inr result \<and>
    map an_archAddress (or_accounts result) = connected_address # signerCandidates B b connected_address [] \<and>
    map an_connected (or_accounts result) = True # map (\<lambda>_. False) (signerCandidates B b connected_address []) \<and>
    list_all (entryExact P B c I Ls) (or_accounts result) \<and>
    (or_failed result \<longleftrightarrow> (\<exists>entry \<in> set (or_accounts result). an_error entry \<noteq> None)) \<and>
    (or_failed result \<longleftrightarrow> firstLookupError result \<noteq> None)"
proof -
  let ?ks = "signerCandidates B b connected_address []"
  let ?as = "connected_address # ?ks"
  let ?f = "\<lambda>(i, a). loadForAccount B (clientReader P c) a (i = 0)"
  let ?Q = "\<lambda>x entry. an_archAddress entry = snd x \<and> an_connected entry = (fst x = 0) \<and> entryExact P B c I Ls entry"
  have one: "triple I (?f x) (\<lambda>entry w. I w \<and> ?Q x entry) (\<lambda>_ _. False)" for x :: "nat \<times> js_string"
  proof (cases x)
    case (Pair i a)
    then show ?thesis using triple_loadForAccount [OF assms(1), of B P a "i = 0"] by simp
  qed
  obtain r w' where run: "allIO (map ?f (enumerate 0 ?as)) w = (r, w')" by fastforce
  from tripleD [OF triple_all [of "enumerate 0 ?as" I ?f ?Q, OF one] assms(2)] run
  obtain es where es: "r = Inr es" "list_all2 ?Q (enumerate 0 ?as) es" by (cases r) blast+
  have "map an_archAddress es = map snd (enumerate 0 ?as)" by (rule all2_map [OF es(2)]) simp
  then have "map an_archAddress es = ?as" by (simp only: map_snd_enumerate)
  moreover have "map an_connected es = map (\<lambda>x. fst x = 0) (enumerate 0 ?as)" by (rule all2_map [OF es(2)]) simp
  then have "map an_connected es = True # map (\<lambda>_. False) ?ks" by (simp add: connected_first)
  moreover have "list_all (entryExact P B c I Ls) es" by (rule all2_all [OF es(2)]) simp
  moreover have "fst (loadOwnedNames B b (clientReader P c) connected_address w) =
      Inr \<lparr>or_accounts = es, or_failed = list_ex (\<lambda>e. an_error e \<noteq> None) es\<rparr>"
    unfolding loadOwnedNames_def nameLookupAccounts_all [OF assms(3)] using run es(1) by (simp add: bindIO_def)
  ultimately show ?thesis
    using failure_has_error [of "\<lparr>or_accounts = es, or_failed = list_ex (\<lambda>e. an_error e \<noteq> None) es\<rparr>"]
    by (intro exI [of _ "\<lparr>or_accounts = es, or_failed = list_ex (\<lambda>e. an_error e \<noteq> None) es\<rparr>"]) (auto simp: list_ex_iff)
qed

theorem wallet_names_exact_witness:
  "\<exists>result entry. fst (loadOwnedNames noBase58 \<lparr>br_blocked = True, br_seen = None, br_observation = None\<rparr>
       (clientReader samplePrims sampleClient) (hexAccount 9) ()) = Inr result \<and>
     entry \<in> set (or_accounts result) \<and> an_archAddress entry = hexAccount 9 \<and>
     js ''alice.arch'' \<in> on_name ` set (an_names entry) \<and> an_error entry = None"
proof -
  obtain g where g: "getProgramAccounts (cl_transport sampleClient) = Some g"
    by (simp add: sampleClient_def ledgerTransport_def)
  have key: "canonicalArchKey noBase58 (Some (hexAccount 9)) = Some (replicate 32 9)" "hexAccount 9 \<noteq> []"
    unfolding hexAccount_def using keyOf_bytesToHex [of "replicate 32 9"] length_bytesToHex [of "replicate 32 9"]
    by (simp, fastforce)
  let ?browser = "\<lparr>br_blocked = True, br_seen = None, br_observation = None\<rparr>"
  obtain result where r: "fst (loadOwnedNames noBase58 ?browser (clientReader samplePrims sampleClient) (hexAccount 9) ()) = Inr result"
      "hexAccount 9 \<in> set (map an_archAddress (or_accounts result))"
      "list_all (entryExact samplePrims noBase58 sampleClient (\<lambda>w. w \<in> UNIV) {sampleLedger}) (or_accounts result)"
    using wallet_names_exact [OF showsLedger_scansShow [OF sample_shows g], of "()" "hexAccount 9" noBase58 ?browser samplePrims]
      key(2) by auto
  then obtain entry where entry: "entry \<in> set (or_accounts result)" "an_archAddress entry = hexAccount 9" by auto
  have "settles UNIV (listOwnedNames samplePrims sampleClient k) (Inr (filter (\<lambda>x. bytesEqual (na_owner (ne_account x)) k)
      (List.map_filter (nameEntry samplePrims sampleClient)
        (lg_scan sampleLedger (cl_programId sampleClient) [DataContent 0 NAME_ACCOUNT_DISCRIMINATOR]))))" for k
    unfolding listOwnedNames_def
    by (rule settles_eq, (rule io_intros settles_listNameAccounts [OF sample_shows g])+) simp
  from settles_fst [OF this UNIV_I] have "\<not> listingFails samplePrims sampleClient (\<lambda>w. w \<in> UNIV) k e" for k e
    by (auto simp: listingFails_def)
  moreover have "entryExact samplePrims noBase58 sampleClient (\<lambda>w. w \<in> UNIV) {sampleLedger} entry"
    using r(3) entry(1) by (simp add: list_all_iff)
  ultimately have names: "an_error entry = None" "on_name ` set (an_names entry) = namesAt samplePrims sampleClient sampleLedger (replicate 32 9)"
    by (auto simp: entryExact_def entry(2) key(1) split: option.splits)
  have "js ''alice.arch'' \<in> namesAt samplePrims sampleClient sampleLedger (replicate 32 9)"
    unfolding namesAt_def using sample_registered
    by (intro image_eqI [of _ _ "\<lparr>ne_name = js ''alice.arch'', ne_account = at_state resolvedName\<rparr>"]) simp_all
  with names r(1) entry show ?thesis by auto
qed

end
