(* ===== verification/Confirm_Effects.thy ===== *)
theory Confirm_Effects
  imports Recent_Reads Owned_Names
begin

text \<open>
  \<open>Is the change visible yet?\<close>: the probes of \<^verbatim>\<open>confirm-effects.ts\<close> of the manager, over the client. A wait that reports
  success has seen the change on the ledger, through a transport that answers from a cache and whose reads may fail.
\<close>

section \<open>Probes (confirm-effects.ts)\<close>

type_synonym 'w confirm_effect = "js_string \<Rightarrow> ('w, bool) io"

definition primaryNameIs :: "prims \<Rightarrow> base58 \<Rightarrow> ('w, 'tx) AnsClient \<Rightarrow> js_string \<Rightarrow> 'w confirm_effect" where
  "primaryNameIs P B c canonical actor =
     bindIO (pureIO (decodeArchAddress B actor)) (\<lambda>key.
     bindIO (clientResolvePrimary P c key) (\<lambda>primary. retIO (primary = Some canonical)))"

definition primaryNameCleared :: "prims \<Rightarrow> base58 \<Rightarrow> ('w, 'tx) AnsClient \<Rightarrow> 'w confirm_effect" where
  "primaryNameCleared P B c actor =
     bindIO (pureIO (decodeArchAddress B actor)) (\<lambda>key.
     bindIO (clientResolvePrimary P c key) (\<lambda>primary. retIO (primary = None)))"

definition recordRevisionPast ::
  "prims \<Rightarrow> ('w, 'tx) AnsClient \<Rightarrow> js_string \<Rightarrow> RecordType \<Rightarrow> int \<Rightarrow> js_string option \<Rightarrow> 'w confirm_effect" where
  "recordRevisionPast P c canonical recordType previousRevision textKey actor =
     bindIO (fetchRecord P c canonical recordType textKey) (\<lambda>record.
     retIO (case record of None \<Rightarrow> False | Some r \<Rightarrow> ra_revision r > previousRevision))"

definition nameOwnerEquals :: "prims \<Rightarrow> base58 \<Rightarrow> ('w, 'tx) AnsClient \<Rightarrow> js_string \<Rightarrow> js_string \<Rightarrow> ('w, bool) io" where
  "nameOwnerEquals P B c canonical expected =
     bindIO (fetchNameAccount P c canonical) (\<lambda>account.
     retIO (case account of None \<Rightarrow> False | Some n \<Rightarrow> archAddressesEqual B expected (b58_encode B (na_owner n))))"

definition nameRegisteredTo :: "prims \<Rightarrow> base58 \<Rightarrow> ('w, 'tx) AnsClient \<Rightarrow> js_string \<Rightarrow> 'w confirm_effect" where
  "nameRegisteredTo P B c canonical actor = nameOwnerEquals P B c canonical actor"

definition nameOwnedBy :: "prims \<Rightarrow> base58 \<Rightarrow> ('w, 'tx) AnsClient \<Rightarrow> js_string \<Rightarrow> js_string \<Rightarrow> 'w confirm_effect" where
  "nameOwnedBy P B c canonical newOwner actor = nameOwnerEquals P B c canonical newOwner"

section \<open>Probes over a ledger\<close>

definition ledgerRecord ::
  "prims \<Rightarrow> ('w, 'tx) AnsClient \<Rightarrow> ledger \<Rightarrow> js_string \<Rightarrow> RecordType \<Rightarrow> js_string option \<Rightarrow> js_error + RecordAccount option" where
  "ledgerRecord P c L name rtype textKey =
     bindR (nameHash P name) (\<lambda>hash.
     bindR (deriveRecordAddressFor P (cl_programId c) (cl_ns c) hash rtype textKey) (\<lambda>address.
     case present (lg_account L address) of
       None \<Rightarrow> Inr None
     | Some info \<Rightarrow> bindR (decodeRecordAccount (ai_data info)) (\<lambda>decoded.
         bindR (validateHeader (ra_header decoded) RECORD_ACCOUNT_DISCRIMINATOR) (\<lambda>_. Inr (Some decoded)))))"

lemma settles_fetchRecord:
  "showsLedger (cl_transport c) W L \<Longrightarrow> settles W (fetchRecord P c name rtype textKey) (ledgerRecord P c L name rtype textKey)"
  unfolding fetchRecord_def ledgerRecord_def
  by (rule settles_eq, (rule io_intros showsLedgerD(1) | assumption)+) (simp cong: option.case_cong)

text \<open>A record of the name on the ledger, initialised, at the derived address.\<close>

definition recordOn ::
  "prims \<Rightarrow> ('w, 'tx) AnsClient \<Rightarrow> ledger \<Rightarrow> js_string \<Rightarrow> RecordType \<Rightarrow> js_string option \<Rightarrow> RecordAccount \<Rightarrow> bool" where
  "recordOn P c L name rtype textKey r \<longleftrightarrow> (\<exists>hash address i.
     nameHash P name = Inr hash \<and> deriveRecordAddressFor P (cl_programId c) (cl_ns c) hash rtype textKey = Inr address \<and>
     lg_account L address = Some i \<and> ai_data i \<noteq> [] \<and> decodeRecordAccount (ai_data i) = Inr r \<and>
     ra_header r = initializedHeader RECORD_ACCOUNT_DISCRIMINATOR)"

lemma record_case:
  "(case present x of None \<Rightarrow> Inr None | Some info \<Rightarrow> bindR (decodeRecordAccount (ai_data info)) (\<lambda>decoded.
      bindR (validateHeader (ra_header decoded) RECORD_ACCOUNT_DISCRIMINATOR) (\<lambda>_. Inr (Some decoded)))) = Inr (Some r) \<longleftrightarrow>
   (\<exists>i. x = Some i \<and> ai_data i \<noteq> [] \<and> decodeRecordAccount (ai_data i) = Inr r \<and>
      ra_header r = initializedHeader RECORD_ACCOUNT_DISCRIMINATOR)"
  by (cases x) (auto simp: present_def result_iffs validateHeader_ok)

lemma ledgerRecord_iff: "ledgerRecord P c L name rtype textKey = Inr (Some r) \<longleftrightarrow> recordOn P c L name rtype textKey r"
  by (auto simp: ledgerRecord_def recordOn_def bindR_eq_Inr_iff [of "nameHash P name"]
      bindR_eq_Inr_iff [of "deriveRecordAddressFor P p s h t k" for p s h t k] record_case)

definition ledgerNameAccount :: "prims \<Rightarrow> ('w, 'tx) AnsClient \<Rightarrow> ledger \<Rightarrow> js_string \<Rightarrow> js_error + NameAccount option" where
  "ledgerNameAccount P c L name =
     bindR (ledgerAvailability P c L name) (\<lambda>status.
     case nr_availability status of
       Available \<Rightarrow> Inr None
     | Taken \<Rightarrow> Inr (nr_account status)
     | Unavailable \<Rightarrow> Inl (AnsError UnsupportedAccountVersion
         (nr_canonical status @ js '' name account is present but not a valid registration'')))"

lemma settles_fetchNameAccount:
  "showsLedger (cl_transport c) W L \<Longrightarrow> settles W (fetchNameAccount P c name) (ledgerNameAccount P c L name)"
  unfolding fetchNameAccount_def ledgerNameAccount_def
  by (rule settles_eq, (rule io_intros settles_availability_case | assumption)+) simp

text \<open>A registration of the name on the ledger: an initialised name account of the program at the name's address.\<close>

definition registrationOn :: "prims \<Rightarrow> ('w, 'tx) AnsClient \<Rightarrow> ledger \<Rightarrow> js_string \<Rightarrow> NameAccount \<Rightarrow> bool" where
  "registrationOn P c L name n \<longleftrightarrow> (\<exists>canonical address i.
     canonicalizeName P name = Inr canonical \<and>
     deriveNameAddress P (cl_programId c) (cl_ns c) (hashName P canonical) = Inr address \<and>
     lg_account L address = Some i \<and> ai_owner i = cl_programId c \<and> decodeNameAccount (ai_data i) = Inr n \<and>
     na_header n = initializedHeader NAME_ACCOUNT_DISCRIMINATOR)"

lemma classified_taken:
  "cl_availability (classifyNameAccountData (Some d)) = Taken \<and> cl_account (classifyNameAccountData (Some d)) = Some n \<longleftrightarrow>
   \<not> isBlankAccountData d \<and> decodeNameAccount d = Inr n \<and> na_header n = initializedHeader NAME_ACCOUNT_DISCRIMINATOR"
  by (auto simp: classifyNameAccountData_def result_iffs validateHeader_ok split: option.splits sum.splits if_splits dest: sym)

lemma named_not_blank:
  assumes "decodeNameAccount d = Inr n" "na_header n = initializedHeader NAME_ACCOUNT_DISCRIMINATOR"
  shows "d \<noteq> [] \<and> \<not> isBlankAccountData d"
proof -
  have "take 8 d = NAME_ACCOUNT_DISCRIMINATOR"
    using decoded_name_position [OF assms(1)] assms(2) by (simp add: initializedHeader_def)
  then have "d \<noteq> [] \<and> hd d = 65"
    by (cases d) (simp_all add: discriminator_bytes)
  then show ?thesis by (cases d) (auto simp: isBlankAccountData_iff)
qed

lemma taken_case_Inr:
  "(case x of Available \<Rightarrow> Inr None | Taken \<Rightarrow> Inr a | Unavailable \<Rightarrow> Inl u) = Inr (Some y) \<longleftrightarrow> x = Taken \<and> a = Some y"
  by (cases x) auto

lemma ledgerNameAccount_iff: "ledgerNameAccount P c L name = Inr (Some n) \<longleftrightarrow> registrationOn P c L name n"
proof (cases "canonicalizeName P name")
  case (Inl e)
  then show ?thesis by (simp add: ledgerNameAccount_def ledgerAvailability_def registrationOn_def)
next
  case (Inr canonical)
  note canon = Inr
  show ?thesis
  proof (cases "deriveNameAddress P (cl_programId c) (cl_ns c) (hashName P canonical)")
    case (Inl e)
    with canon show ?thesis
      by (simp add: ledgerNameAccount_def ledgerAvailability_def registrationOn_def nameHash_canonical [OF canon])
  next
    case (Inr a)
    with canon named_not_blank show ?thesis
      by (cases "lg_account L a")
        (auto simp: ledgerNameAccount_def ledgerAvailability_def registrationOn_def nameHash_canonical [OF canon] Let_def
          taken_case_Inr classified_taken)
  qed
qed

section \<open>Probes over a transport that shows the past\<close>

lemma fetchRecord_past:
  assumes "showsPast (cl_transport c) I past"
  shows "triple I (fetchRecord P c name rtype textKey)
    (\<lambda>r w. I w \<and> (\<exists>L \<in> past w. ledgerRecord P c L name rtype textKey = Inr r)) (\<lambda>_. I)"
proof (cases "bindR (nameHash P name) (\<lambda>hash. deriveRecordAddressFor P (cl_programId c) (cl_ns c) hash rtype textKey)")
  case (Inl e)
  then show ?thesis
    by (auto simp: fetchRecord_def bindR_eq_Inl_iff intro!: triple_bind_pure triple_pure)
next
  case (Inr address)
  then obtain hash where hash: "nameHash P name = Inr hash"
    "deriveRecordAddressFor P (cl_programId c) (cl_ns c) hash rtype textKey = Inr address" by (auto simp: bindR_eq_Inr_iff)
  show ?thesis
    unfolding fetchRecord_def hash bindIO_pure
    by (rule triple_bind [OF showsPastD(1) [OF assms]], intro triple_option triple_pure triple_pureIO)
      (elim conjE bexE, ((intro conjI, assumption, rule bexI [rotated], assumption, simp add: ledgerRecord_def hash) | assumption))+
qed

lemma getNameAvailability_past:
  assumes "showsPast (cl_transport c) I past"
  shows "triple I (getNameAvailability P c name)
    (\<lambda>r w. I w \<and> (\<exists>L \<in> past w. ledgerAvailability P c L name = Inr r)) (\<lambda>_. I)"
proof (cases "bindR (canonicalizeName P name) (\<lambda>canonical. bindR (nameHash P canonical) (deriveNameAddress P (cl_programId c) (cl_ns c)))")
  case (Inl e)
  then show ?thesis
    by (auto simp: getNameAvailability_def bindR_eq_Inl_iff intro!: triple_bind_pure triple_pure)
next
  case (Inr address)
  then obtain canonical hash where hash: "canonicalizeName P name = Inr canonical" "nameHash P canonical = Inr hash"
    "deriveNameAddress P (cl_programId c) (cl_ns c) hash = Inr address" by (auto simp: bindR_eq_Inr_iff)
  show ?thesis
    unfolding getNameAvailability_def hash bindIO_pure Let_def
    by (rule triple_bind [OF showsPastD(1) [OF assms]], intro triple_option triple_if triple_pure)
      (elim conjE bexE, ((intro conjI, assumption, rule bexI [rotated], assumption,
            simp add: ledgerAvailability_def hash Let_def) | assumption))+
qed

lemma fetchNameAccount_past:
  assumes "showsPast (cl_transport c) I past"
  shows "triple I (fetchNameAccount P c name)
    (\<lambda>r w. I w \<and> (\<exists>L \<in> past w. ledgerNameAccount P c L name = Inr r)) (\<lambda>_. I)"
  unfolding fetchNameAccount_def
proof (rule triple_bind [OF getNameAvailability_past [OF assms]])
  fix status
  show "triple (\<lambda>w. I w \<and> (\<exists>L \<in> past w. ledgerAvailability P c L name = Inr status))
      (case nr_availability status of Available \<Rightarrow> retIO None | Taken \<Rightarrow> retIO (nr_account status)
       | Unavailable \<Rightarrow> throwIO (AnsError UnsupportedAccountVersion
           (nr_canonical status @ js '' name account is present but not a valid registration'')))
      (\<lambda>r w. I w \<and> (\<exists>L \<in> past w. ledgerNameAccount P c L name = Inr r)) (\<lambda>_. I)"
    by (cases "nr_availability status")
      (auto simp: ledgerNameAccount_def intro!: triple_pure, (rule bexI [rotated], assumption, simp)+)
qed

text \<open>What a probe that says yes has seen.\<close>

lemma recordRevisionPast_past:
  assumes "showsPast (cl_transport c) I past"
  shows "triple I (recordRevisionPast P c name rtype previous textKey actor)
    (\<lambda>b w. I w \<and> (b \<longrightarrow> (\<exists>L \<in> past w. \<exists>r. recordOn P c L name rtype textKey r \<and> previous < ra_revision r))) (\<lambda>_. I)"
  unfolding recordRevisionPast_def
  by (rule triple_bind [OF fetchRecord_past [OF assms]], rule triple_pure)
    (auto simp: ledgerRecord_iff split: option.splits, blast)

lemma nameOwnerEquals_past:
  assumes "showsPast (cl_transport c) I past"
  shows "triple I (nameOwnerEquals P B c name owner)
    (\<lambda>b w. I w \<and> (b \<longrightarrow> (\<exists>L \<in> past w. \<exists>n. registrationOn P c L name n \<and> archAddressesEqual B owner (b58_encode B (na_owner n)))))
    (\<lambda>_. I)"
  unfolding nameOwnerEquals_def
  by (rule triple_bind [OF fetchNameAccount_past [OF assms]], rule triple_pure)
    (auto simp: ledgerNameAccount_iff split: option.splits, blast)

section \<open>A wait that ends with the caller's signal\<close>

lemma waitRound_signal:
  assumes "triple I check (\<lambda>b w. I w \<and> (b \<longrightarrow> Q w)) (\<lambda>_. I)" "triple I (getProcessedTransaction T txid) (\<lambda>_. I) (\<lambda>_. I)" "I w"
    and "waitRound T txid (Some check) st w = (d, w')"
  shows "I w' \<and> (\<forall>r. d = Return r \<longrightarrow> Q w')"
proof -
  obtain b w1 where check: "check w = (b, w1)" by fastforce
  obtain p w2 where get: "getProcessedTransaction T txid w1 = (p, w2)" by fastforce
  have w1: "I w1" "b = Inr True \<Longrightarrow> Q w1" using tripleD [OF assms(1,3)] check by (cases b; simp; blast)+
  have "I w2" using tripleD [OF assms(2) w1(1)] get by (cases p) auto
  moreover have "waitRound T txid (Some check) st w =
      (if b = Inr True then (Return Complete, w1)
       else lookup T txid True (case b of Inl e \<Rightarrow> st\<lparr>ws_lastLookupError := Some e\<rparr> | Inr _ \<Rightarrow> st) w1)"
    by (auto simp: waitRound_def probe_def check split: sum.split bool.split)
  moreover have "snd (lookup T txid True s w1) = w2 \<and> fst (lookup T txid True s w1) \<noteq> Return r" for s r
    by (auto simp: lookup_def get split: sum.splits option.splits)
  ultimately show ?thesis using w1 assms(4) by (metis fst_conv snd_conv)
qed

lemma waitLoop_signal:
  assumes "waitLoop C T txid (Some check) interval deadline st w = Some out"
    and "triple I check (\<lambda>b w. I w \<and> (b \<longrightarrow> Q w)) (\<lambda>_. I)" "triple I (getProcessedTransaction T txid) (\<lambda>_. I) (\<lambda>_. I)"
    and "\<And>d v. I v \<Longrightarrow> I (sleep C d v)" "I w"
  shows "I (snd out) \<and> (fst out = Inr Complete \<longrightarrow> Q (snd out))"
proof -
  let ?polls = "\<lambda>C T txid isComplete. \<exists>check. isComplete = Some check \<and> triple I check (\<lambda>b w. I w \<and> (b \<longrightarrow> Q w)) (\<lambda>_. I) \<and>
    triple I (getProcessedTransaction T txid) (\<lambda>_. I) (\<lambda>_. I) \<and> (\<forall>d v. I v \<longrightarrow> I (sleep C d v))"
  let ?P = "\<lambda>C T txid isComplete interval deadline st w out.
    ?polls C T txid isComplete \<longrightarrow> I w \<longrightarrow> I (snd out) \<and> (fst out = Inr Complete \<longrightarrow> Q (snd out))"
  have "?P C T txid (Some check) interval deadline st w out"
  proof (rule waitLoop.raw_induct [where P = ?P, OF _ assms(1)], intro impI)
    fix loop C T txid isComplete interval deadline st w out
    assume IH: "\<And>C T txid isComplete interval deadline st w out.
        loop C T txid isComplete interval deadline st w = Some out \<Longrightarrow> ?P C T txid isComplete interval deadline st w out"
      and body: "(case waitRound T txid isComplete st w of
          (Return r, w') \<Rightarrow> Some (Inr r, w')
        | (Throw e, w') \<Rightarrow> Some (Inl e, w')
        | (Again st', w') \<Rightarrow>
            if now C w' + interval > deadline
            then Some (Inr (Timeout (if ws_processed st' then None else ws_lastLookupError st')), w')
            else loop C T txid isComplete interval deadline st' (sleep C interval w')) = Some out"
      and polls: "?polls C T txid isComplete" and w: "I w"
    obtain d w' where round: "waitRound T txid isComplete st w = (d, w')" by fastforce
    obtain check where check: "isComplete = Some check" "triple I check (\<lambda>b w. I w \<and> (b \<longrightarrow> Q w)) (\<lambda>_. I)"
      "triple I (getProcessedTransaction T txid) (\<lambda>_. I) (\<lambda>_. I)" using polls by blast
    note r = waitRound_signal [OF check(2,3) w round [unfolded check(1)]]
    show "I (snd out) \<and> (fst out = Inr Complete \<longrightarrow> Q (snd out))"
    proof (cases d)
      case (Again st')
      show ?thesis
      proof (cases "now C w' + interval > deadline")
        case True
        then show ?thesis using body Again r by (auto simp: round)
      next
        case False
        then have "loop C T txid isComplete interval deadline st' (sleep C interval w') = Some out"
          using body Again by (simp add: round)
        moreover have "I (sleep C interval w')" using polls r by blast
        ultimately show ?thesis using IH polls by blast
      qed
    qed (use body r in \<open>auto simp: round\<close>)
  qed
  then show ?thesis using assms(2-5) by blast
qed

lemma wait_signal:
  assumes "waitForTransaction C T txid (Some check) timeoutMs intervalMs w = Some (Inr Complete, w')"
    and "triple I check (\<lambda>b w. I w \<and> (b \<longrightarrow> Q w)) (\<lambda>_. I)" "triple I (getProcessedTransaction T txid) (\<lambda>_. I) (\<lambda>_. I)"
    and "\<And>d v. I v \<Longrightarrow> I (sleep C d v)" "I w"
  shows "Q w'"
  using waitLoop_signal [OF assms(1) [unfolded waitForTransaction_def Let_def] assms(2-5)] by simp

section \<open>Properties\<close>

text \<open>C10. A confirmed change is on the ledger. Through the transport of the manager over an honest node, whose reads may fail
  and are answered from the account cache for five seconds: when a wait with a record probe reports success, the ledger
  of a moment in the last five seconds (and the time of one read) held, at the derived address, an initialised record
  whose revision is past the one the write was built against; when one with an owner probe does, it held a registration
  of the name whose owner is the expected account. Of the run it is assumed that the pauses of the wait keep to it:
  whatever else uses the transport meanwhile fills its cache with reads.\<close>

theorem confirmed_on_ledger:
  assumes "cl_transport c = createSplitAnsTransport E X rpcUrl explorerUrl opts" "honestNode E X rpcUrl led D I"
    and "\<And>d v. recentCache E led D I v \<Longrightarrow> recentCache E led D I (sleep C d v)" "recentCache E led D I w"
  shows "(waitForTransaction C (cl_transport c) txid (Some (recordRevisionPast P c name rtype previous textKey actor))
        timeoutMs intervalMs w = Some (Inr Complete, w') \<longrightarrow>
      (\<exists>t r. ep_now E (rw_net w') - 5000 - D \<le> t \<and> t \<le> ep_now E (rw_net w') \<and>
         recordOn P c (led t) name rtype textKey r \<and> previous < ra_revision r)) \<and>
    (waitForTransaction C (cl_transport c) txid (Some (nameOwnedBy P B c name newOwner actor))
        timeoutMs intervalMs w = Some (Inr Complete, w') \<longrightarrow>
      (\<exists>t n. ep_now E (rw_net w') - 5000 - D \<le> t \<and> t \<le> ep_now E (rw_net w') \<and>
         registrationOn P c (led t) name n \<and> archAddressesEqual B newOwner (b58_encode B (na_owner n))))"
proof -
  have past: "showsPast (cl_transport c) (recentCache E led D I) (recentLedgers E led D)"
    unfolding assms(1) by (rule split_showsPast [OF assms(2)])
  note poll = showsPastD(2) [OF past] and revision = recordRevisionPast_past [OF past] and owner = nameOwnerEquals_past [OF past]
  have recent: "\<exists>t. ep_now E (rw_net w') - 5000 - D \<le> t \<and> t \<le> ep_now E (rw_net w') \<and> R (led t)"
    if "\<exists>L \<in> recentLedgers E led D w'. R L" for R
    using that by (auto simp: recentLedgers_def)
  show ?thesis
  proof (intro conjI impI)
    assume "waitForTransaction C (cl_transport c) txid (Some (recordRevisionPast P c name rtype previous textKey actor))
        timeoutMs intervalMs w = Some (Inr Complete, w')"
    from recent [OF wait_signal [OF this revision poll assms(3,4)]]
    show "\<exists>t r. ep_now E (rw_net w') - 5000 - D \<le> t \<and> t \<le> ep_now E (rw_net w') \<and>
        recordOn P c (led t) name rtype textKey r \<and> previous < ra_revision r" by blast
  next
    assume "waitForTransaction C (cl_transport c) txid (Some (nameOwnedBy P B c name newOwner actor))
        timeoutMs intervalMs w = Some (Inr Complete, w')"
    from recent [OF wait_signal [OF this [unfolded nameOwnedBy_def] owner poll assms(3,4)]]
    show "\<exists>t n. ep_now E (rw_net w') - 5000 - D \<le> t \<and> t \<le> ep_now E (rw_net w') \<and>
        registrationOn P c (led t) name n \<and> archAddressesEqual B newOwner (b58_encode B (na_owner n))" by blast
  qed
qed

text \<open>A client of the manager's transport on a node that serves the sample ledger.\<close>

definition nodeClient :: "(unit rpc_world, jsval) AnsClient" where
  "nodeClient = \<lparr>cl_manifest = TESTNET_MANIFEST\<lparr>mf_namespace := js ''arch''\<rparr>,
     cl_transport = createSplitAnsTransport (ledgerNode sampleLedger) silentExplorer [] [] (requestOptions None None),
     cl_programId = sampleProgram, cl_registryConfigAddress = at_address resolvedConfig\<rparr>"

lemma sample_derived_name:
  "deriveNameAddress samplePrims sampleProgram (js ''arch'') (hashName samplePrims (js ''alice.arch'')) = Inr (at_address resolvedName)"
  by (simp add: deriveNameAddress_def sample_derive resolvedName_def)

lemma sample_fetch:
  "\<exists>w. fetchNameAccount samplePrims nodeClient (js ''alice.arch'') emptyRpcWorld = (Inr (Some (at_state resolvedName)), w)"
proof -
  have fields: "cl_programId nodeClient = sampleProgram" "cl_ns nodeClient = js ''arch''"
    "readAccountInfo (cl_transport nodeClient) a = archReadAccountInfo (ledgerNode sampleLedger) [] (KeyBytes a)" for a
    by (simp_all add: nodeClient_def createSplitAnsTransport_def createArchRpcTransport_def Let_def)
  have "length (at_address resolvedName) = 32" by (simp add: resolvedName_def fold32_def)
  from ledgerNode_read [OF this, of sampleLedger "[]"] obtain w where
    read: "archReadAccountInfo (ledgerNode sampleLedger) [] (KeyBytes (at_address resolvedName)) emptyRpcWorld =
      (Inr (lg_account sampleLedger (at_address resolvedName)), w)" .
  let ?d = "bytesOf (encodeNameAccount (at_state resolvedName))"
  have decode: "decodeNameAccount ?d = Inr (at_state resolvedName)"
    "na_header (at_state resolvedName) = initializedHeader NAME_ACCOUNT_DISCRIMINATOR"
    using sample_decodes sample_states_ok(2) by simp_all
  have "?d \<noteq> []" "cl_availability (classifyNameAccountData (Some ?d)) = Taken"
    "cl_account (classifyNameAccountData (Some ?d)) = Some (at_state resolvedName)"
    using named_not_blank [OF decode] classified_taken [of ?d "at_state resolvedName"] decode by auto
  then show ?thesis
    using canonicalizeName_canonical [OF alice_canonical, of samplePrims] nameHash_canonical [of samplePrims "js ''alice.arch''"]
    unfolding fetchNameAccount_def getNameAvailability_def fields
    by (simp add: sample_derived_name bindIO_def fields read sample_accounts programAccount_def Let_def)
qed

theorem confirmed_on_ledger_witness:
  "\<exists>n. registrationOn samplePrims nodeClient sampleLedger (js ''alice.arch'') n \<and>
     archAddressesEqual noBase58 (bytesToHex (replicate 32 9)) (b58_encode noBase58 (na_owner n))"
proof -
  let ?T = "cl_transport nodeClient" and ?C = "\<lparr>now = (\<lambda>_. 0), sleep = (\<lambda>_ w. w)\<rparr> :: unit rpc_world timer"
  let ?probe = "nameOwnedBy samplePrims noBase58 nodeClient (js ''alice.arch'') (bytesToHex (replicate 32 9)) []"
  have "na_owner (at_state resolvedName) = replicate 32 9" by (simp add: resolvedName_def sampleName_def)
  moreover have "b58_encode noBase58 bs = bytesToHex bs" for bs by (simp add: noBase58_def)
  moreover obtain w where "fetchNameAccount samplePrims nodeClient (js ''alice.arch'') emptyRpcWorld = (Inr (Some (at_state resolvedName)), w)"
    using sample_fetch ..
  ultimately have "?probe emptyRpcWorld = (Inr True, w)"
    by (simp add: nameOwnedBy_def nameOwnerEquals_def bindIO_def archAddressesEqual_def)
  then have "waitRound ?T [] (Some ?probe) st emptyRpcWorld = (Return Complete, w)" for st
    by (simp only: waitRound_def probe_def option.case prod.case sum.case bool.case round.case)
  then have "waitLoop ?C ?T [] (Some ?probe) i d st emptyRpcWorld = Some (Inr Complete, w)" for i d st
    by (subst waitLoop.simps) (simp only: prod.case round.case)
  then have "waitForTransaction ?C ?T [] (Some ?probe) None None emptyRpcWorld = Some (Inr Complete, w)"
    by (simp only: waitForTransaction_def Let_def)
  moreover have "?T = createSplitAnsTransport (ledgerNode sampleLedger) silentExplorer [] [] (requestOptions None None)"
    by (simp add: nodeClient_def)
  ultimately show ?thesis
    using confirmed_on_ledger [of nodeClient "ledgerNode sampleLedger" silentExplorer "[]" "[]" "requestOptions None None"
        "\<lambda>_. sampleLedger" 0 "\<lambda>_. True" ?C emptyRpcWorld "[]" samplePrims "js ''alice.arch''" ArchOwnerT 0 None "[]" None None w
        noBase58 "bytesToHex (replicate 32 9)", OF _ ledgerNode_honest _ empty_recent]
    by (simp only: timer.simps simp_thms) blast
qed

end
