(* ===== verification/Submit_Effects.thy ===== *)
theory Submit_Effects
  imports Submit_Flow Confirm_Effects
begin

text \<open>
  What a confirmed submission has done and seen. The flow is followed through worlds of a run, \<open>I\<close>, in which the reads
  of the transport may fail and may be old: a submission that reports its transaction as confirmed has sent a transaction
  that carries the built instruction and is paid by the acting account, the node has answered it with the id that is
  reported, and the probe of the change has said yes.
\<close>

section \<open>Worlds of a run\<close>

definition envStays :: "('w \<Rightarrow> bool) \<Rightarrow> ('w, 'a) io \<Rightarrow> bool" where
  "envStays I m \<longleftrightarrow> triple I m (\<lambda>_. I) (\<lambda>_. I)"

lemma envStays_iff: "envStays I m \<longleftrightarrow> (\<forall>w. I w \<longrightarrow> I (snd (m w)))"
  unfolding envStays_def triple_def by (simp add: case_prod_beta sum.case_eq_if)

text \<open>What the outside does to a world leaves it one of the run.\<close>

definition outsideStays :: "('w \<Rightarrow> bool) \<Rightarrow> ('w, 'p) outside \<Rightarrow> bool" where
  "outsideStays I X \<longleftrightarrow>
     (\<forall>a. envStays I (readAccountInfo (os_transport X) a)) \<and> envStays I (getBestBlockHash (os_transport X)) \<and>
     (\<forall>tx. envStays I (sendTransaction (os_transport X) tx)) \<and>
     (\<forall>txid. envStays I (getProcessedTransaction (os_transport X) txid)) \<and>
     (\<forall>w. I w \<longrightarrow> I (snd (os_readWallet X w))) \<and>
     (\<forall>w port h. os_activePort X w = Some port \<longrightarrow> envStays I (po_signMessageHash port h)) \<and>
     (\<forall>w sign bs. os_archSigner X w = Some sign \<longrightarrow> envStays I (sign bs)) \<and>
     (\<forall>u v. envStays I (os_post X u v)) \<and> (\<forall>d w. I w \<longrightarrow> I (sleep (os_timer X) d w))"

lemma outsideStaysD:
  assumes "outsideStays I X"
  shows "envStays I (readAccountInfo (os_transport X) a)" "envStays I (getBestBlockHash (os_transport X))"
    "envStays I (sendTransaction (os_transport X) tx)" "envStays I (getProcessedTransaction (os_transport X) txid)"
    "I w \<Longrightarrow> I (snd (os_readWallet X w))" "os_activePort X w = Some port \<Longrightarrow> envStays I (po_signMessageHash port h)"
    "os_archSigner X w = Some sign \<Longrightarrow> envStays I (sign bs)" "envStays I (os_post X u v)" "I w \<Longrightarrow> I (sleep (os_timer X) d w)"
  using assms by (simp_all add: outsideStays_def)

lemmas env_stays = outsideStaysD(1-4,8)

text \<open>A world of the flow of this run, whose trace begins with \<open>T\<close>.\<close>

definition inRun :: "('w \<Rightarrow> bool) \<Rightarrow> flow_event list \<Rightarrow> 'w flow \<Rightarrow> bool" where
  "inRun I T w \<longleftrightarrow> I (fl_env w) \<and> prefix T (fl_trace w)"

definition remains :: "('w \<Rightarrow> bool) \<Rightarrow> ('w flow, 'a) aio \<Rightarrow> bool" where
  "remains I m \<longleftrightarrow> (\<forall>T. spec (inRun I T) m (\<lambda>_. inRun I T) (\<lambda>_. inRun I T))"

named_theorems remains_intros \<open>what keeps a flow in its run\<close>

lemma remainsI:
  assumes "\<And>T w r w'. inRun I T w \<Longrightarrow> m w = Some (r, w') \<Longrightarrow> inRun I T w'"
  shows "remains I m"
  unfolding remains_def using assms by (intro allI specI) (simp split: sum.split)

lemma remainsD: "remains I m \<Longrightarrow> inRun I T w \<Longrightarrow> m w = Some (r, w') \<Longrightarrow> inRun I T w'"
  unfolding remains_def by (drule spec, drule specD) (auto split: sum.splits)

lemma remains_bindA [remains_intros]: "remains I m \<Longrightarrow> (\<And>a. remains I (k a)) \<Longrightarrow> remains I (bindA m k)"
  unfolding remains_def by (blast intro: spec_bindA)

lemma remains_bindIO [remains_intros]:
  "remains I (liftA m) \<Longrightarrow> (\<And>a. remains I (liftA (k a))) \<Longrightarrow> remains I (liftA (bindIO m k))"
  unfolding remains_def by (blast intro: spec_bindIO)

lemma remains_lift: "(\<And>T w r w'. inRun I T w \<Longrightarrow> m w = (r, w') \<Longrightarrow> inRun I T w') \<Longrightarrow> remains I (liftA m)"
  by (rule remainsI) simp

lemma remains_step: "remains I (liftA m) \<Longrightarrow> inRun I T v \<Longrightarrow> inRun I T (snd (m v))"
  by (cases "m v") (auto dest: remainsD)

lemma remains_pure [remains_intros]: "remains I (liftA (retIO a))" "remains I (liftA (throwIO e))" "remains I (liftA (pureIO r))"
  by (auto intro: remains_lift)

lemma remains_option [remains_intros]:
  "(\<And>a. remains I (liftA (f a))) \<Longrightarrow> remains I (liftA m) \<Longrightarrow> remains I (liftA (case x of Some a \<Rightarrow> f a | None \<Rightarrow> m))"
  by (cases x) simp_all

lemma remains_result [remains_intros]:
  "(\<And>e. remains I (liftA (f e))) \<Longrightarrow> (\<And>a. remains I (liftA (g a))) \<Longrightarrow>
   remains I (liftA (case x of Inl e \<Rightarrow> f e | Inr a \<Rightarrow> g a))"
  by (cases x) simp_all

lemma remains_if [remains_intros]:
  "remains I (liftA m) \<Longrightarrow> remains I (liftA m') \<Longrightarrow> remains I (liftA (if b then m else m'))"
  by simp

lemma remains_env: "envStays I m \<Longrightarrow> remains I (liftA (envIO m))"
  by (rule remains_lift) (auto simp: envStays_def triple_def inRun_def envIO_def split: prod.splits sum.splits)

lemma remains_emit [remains_intros]: "remains I (liftA (emit e))"
  by (rule remains_lift) (auto simp: emit_def inRun_def)

lemma remains_setVars [remains_intros]: "remains I (liftA (setVars f))"
  by (rule remains_lift) (auto simp: setVars_def inRun_def)

section \<open>One approval\<close>

lemma inRun_probe: "outsideStays I X \<Longrightarrow> inRun I T w \<Longrightarrow> probeFlow X w = (status, w') \<Longrightarrow> inRun I T w'"
  using outsideStaysD(5) [of I X "fl_env w"] by (auto simp: probeFlow_def inRun_def split: prod.splits)

lemma remains_require: "outsideStays I X \<Longrightarrow> remains I (liftA (requireConnectedArchAccount X expected context))"
  by (rule remains_lift)
    (auto simp: requireConnectedArchAccount_def Let_def split: option.splits prod.splits dest: inRun_probe)

lemma remains_nextApproval: "remains I (liftA (nextApproval A))"
  by (rule remains_lift) (auto simp: nextApproval_def emit_def inRun_def Let_def)

lemma remains_onSubmitted: "remains I (liftA (onSubmitted txid))"
  by (rule remains_lift) (auto simp: onSubmitted_def emit_def inRun_def Let_def split: option.splits)

lemma remains_judge: "remains I (liftA (judgeSignature X A h signature))"
  by (rule remains_lift) (auto simp: judgeSignature_def inRun_def Let_def split: SignatureCheck.splits prod.splits if_splits)

lemma envStays_extension:
  assumes "outsideStays I X"
  shows "envStays I (createArchExtensionHashSigner (os_archSigner X) h)"
proof -
  have "triple I (bindIO (sign bs) (\<lambda>v. pureIO (extensionSignatureHex v))) (\<lambda>_. I) (\<lambda>_. I)" if "os_archSigner X w = Some sign" for w sign bs
    using outsideStaysD(7) [OF assms that] unfolding envStays_def by (rule triple_bind) (auto intro: triple_pureIO)
  then show ?thesis
    unfolding envStays_def by (intro tripleI)
      (auto simp: createArchExtensionHashSigner_def Let_def split: option.splits if_splits dest: tripleD)
qed

lemma remains_wallet:
  assumes "outsideStays I X"
  shows "remains I (liftA (signMessageHashHex X h))"
proof -
  have "envStays I (\<lambda>w. case os_activePort X w of
      Some port \<Rightarrow> po_signMessageHash port h w | None \<Rightarrow> createArchExtensionHashSigner (os_archSigner X) h w)"
    unfolding envStays_iff
  proof (intro allI impI)
    fix w assume w: "I w"
    show "I (snd (case os_activePort X w of
        Some port \<Rightarrow> po_signMessageHash port h w | None \<Rightarrow> createArchExtensionHashSigner (os_archSigner X) h w))"
    proof (cases "os_activePort X w")
      case None
      then show ?thesis using envStays_extension [OF assms, of h] w by (simp add: envStays_iff)
    next
      case (Some port)
      then show ?thesis using outsideStaysD(6) [OF assms Some, of h] w by (simp add: envStays_iff)
    qed
  qed
  then show ?thesis unfolding signMessageHashHex_def by (intro remains_intros remains_env)
qed

lemma remains_sign:
  assumes "outsideStays I X"
  shows "remains I (liftA (signWithActor X A h))"
proof (rule remainsI)
  fix T w r w'
  assume w: "inRun I T w" and run: "liftA (signWithActor X A h) w = Some (r, w')"
  have "remains I (liftA (bindIO (requireConnectedArchAccount X (Some (at_reported A)) (switchContextOf A (sv_approvalIndex (fl_vars w))))
      (\<lambda>_. bindIO (nextApproval A) (\<lambda>_. bindIO (signMessageHashHex X h) (\<lambda>signature. judgeSignature X A h signature)))))"
    by (intro remains_intros remains_require remains_nextApproval remains_wallet remains_judge assms)
  from remainsD [OF this w] run show "inRun I T w'" by (simp add: signWithActor_def)
qed

lemma remains_ansSigner: "(\<And>h. remains I (liftA (sign h))) \<Longrightarrow> remains I (liftA (makeAnsSigner S sign h))"
  unfolding makeAnsSigner_def Let_def by (intro remains_intros)

section \<open>Sending and waiting\<close>

lemma remains_send: "outsideStays I X \<Longrightarrow> remains I (liftA (sendTransaction (flowTransport (os_transport X)) tx))"
  unfolding flowTransport_simps by (intro remains_intros remains_env env_stays)

lemma remains_build: "outsideStays I X \<Longrightarrow> remains I (liftA (buildTransaction S (flowTransport (os_transport X)) ixs payer))"
  unfolding buildTransaction_def Let_def flowTransport_simps by (intro remains_intros remains_env env_stays)

lemma remains_wait:
  assumes "outsideStays I X" "remains I (liftA check)"
  shows "remains I (waitForTransaction (flowTimer (os_timer X)) (flowTransport (os_transport X)) txid (Some check) t i)"
proof (rule remainsI)
  fix T w r w'
  assume w: "inRun I T w"
    and run: "waitForTransaction (flowTimer (os_timer X)) (flowTransport (os_transport X)) txid (Some check) t i w = Some (r, w')"
  obtain interval deadline st where loop:
      "waitLoop (flowTimer (os_timer X)) (flowTransport (os_transport X)) txid (Some check) interval deadline st w = Some (r, w')"
    using run by (auto simp: waitForTransaction_def Let_def)
  note poll = remains_step [OF remains_env [OF outsideStaysD(4) [OF assms(1)]]] and probe = remains_step [OF assms(2)]
  have "pollsKeep (inRun I T) (flowTimer (os_timer X)) (flowTransport (os_transport X)) txid (Some check) interval"
    unfolding pollsKeep_def flowTransport_simps
  proof (intro allI impI conjI)
    fix v assume v: "inRun I T v"
    show "inRun I T (snd (envIO (getProcessedTransaction (os_transport X) txid) v))" by (rule poll [OF v])
    show "inRun I T (sleep (flowTimer (os_timer X)) interval v)"
      using v outsideStaysD(9) [OF assms(1)] by (simp add: flowTimer_def inRun_def)
    show "inRun I T (snd (c v))" if "Some check = Some c" for c using probe [OF v] that by simp
  qed
  from waitLoop_keeps [OF loop this w] show "inRun I T w'" by simp
qed

lemma remains_read: "outsideStays I X \<Longrightarrow> remains I (liftA (readAccountInfo (flowTransport (os_transport X)) a))"
  unfolding flowTransport_simps by (intro remains_env env_stays)

lemma remains_outcome:
  "remains I (liftA m) \<Longrightarrow> (\<And>e. remains I (liftA (f e))) \<Longrightarrow>
   remains I (liftA (case outcome of Complete \<Rightarrow> m | Timeout e \<Rightarrow> f e))"
  by (cases outcome) simp_all

lemma remains_faucet:
  assumes "outsideStays I X" "\<And>h. remains I (liftA (sign h))"
  shows "remains I (createArchAccountWithFaucet X actor sign)"
  unfolding createArchAccountWithFaucet_def faucetSubmit_def
  by (intro remains_intros remains_outcome remains_send remains_read remains_wait remains_env env_stays assms)

section \<open>What a confirmed mutation has sent and seen\<close>

lemma bindA_Inr: "bindA m k w = Some (Inr b, w') \<longleftrightarrow> (\<exists>a v. m w = Some (Inr a, v) \<and> k a v = Some (Inr b, w'))"
  by (auto simp: bindA_def split: option.splits prod.splits sum.splits)

lemma bindIO_Inr: "bindIO m k w = (Inr b, w') \<longleftrightarrow> (\<exists>a v. m w = (Inr a, v) \<and> k a v = (Inr b, w'))"
  by (auto simp: bindIO_def split: prod.splits sum.splits)

lemma envIO_Inr: "envIO m w = (r, w') \<longleftrightarrow> m (fl_env w) = (r, fl_env w') \<and> w' = w\<lparr>fl_env := fl_env w'\<rparr>"
  by (auto simp: envIO_def split: prod.splits)

text \<open>A transaction that carries one instruction, is compiled with \<open>payer\<close> as its fee payer, and is signed once.\<close>

definition paidTransaction :: "arch_sdk \<Rightarrow> BuiltInstruction \<Rightarrow> bytes \<Rightarrow> jsval \<Rightarrow> bool" where
  "paidTransaction S instruction payer tx \<longleftrightarrow> (\<exists>blockhash message transaction sig.
     sdk_createSanitizedMessage S [sdkInstruction instruction] payer blockhash = Inr message \<and>
     normalizeRuntimeTransaction (Obj [(js ''version'', num 0), (js ''signatures'', Arr []), (js ''message'', message)]) = Inr transaction \<and>
     tx = transactionValue (transaction\<lparr>rt_signatures := [sig]\<rparr>))"

text \<open>Between the trace \<open>T\<close> and the end of the flow such a transaction is sent, built for \<open>actor\<close> and paid by its key, and
  the node answers it with \<open>txid\<close>.\<close>

definition sentFor ::
  "('w, 'p) outside \<Rightarrow> 'w instruction_builder \<Rightarrow> js_string \<Rightarrow> js_string \<Rightarrow> flow_event list \<Rightarrow> 'w flow \<Rightarrow> bool" where
  "sentFor X build actor txid T w' \<longleftrightarrow> (\<exists>instruction payer tx pre post u v v'.
     fst (build actor u) = Inr instruction \<and> canonicalArchKey (os_base58 X) (Some actor) = Some payer \<and>
     paidTransaction (os_sdk X) instruction payer tx \<and> fl_trace w' = T @ pre @ Sent tx # post \<and>
     sendTransaction (os_transport X) tx v = (Inr txid, v'))"

lemma submitInstruction_sent:
  assumes "submitInstruction (os_sdk X) (flowTransport (os_transport X)) instruction payer signer (Some onSubmitted) w = (Inr txid, w')"
    and "outsideStays I X" "\<And>h. remains I (liftA (signer h))" "inRun I T w"
  shows "\<exists>tx pre post v v'. paidTransaction (os_sdk X) instruction payer tx \<and> fl_trace w' = T @ pre @ Sent tx # post \<and>
    sendTransaction (os_transport X) tx v = (Inr txid, v')"
proof -
  let ?T = "flowTransport (os_transport X)"
  obtain transaction hash v1 sig v2 v3 where
    build: "buildTransaction (os_sdk X) ?T [instruction] payer w = (Inr (transaction, hash), v1)"
    and sign: "signer hash v1 = (Inr sig, v2)"
    and send: "sendTransaction ?T (transactionValue (transaction\<lparr>rt_signatures := [map (\<lambda>b. Fin (of_int (uint b))) (hexToBytesLoose sig)]\<rparr>)) v2 =
      (Inr txid, v3)" and announce: "onSubmitted txid v3 = (Inr (), w')"
    using assms(1) unfolding submitInstruction_def Let_def by (auto simp: bindIO_Inr split: prod.splits)
  let ?tx = "transactionValue (transaction\<lparr>rt_signatures := [map (\<lambda>b. Fin (of_int (uint b))) (hexToBytesLoose sig)]\<rparr>)"
  have "paidTransaction (os_sdk X) instruction payer ?tx"
  proof -
    obtain h v where build: "(case sdk_createSanitizedMessage (os_sdk X) [sdkInstruction instruction] payer h of
        Inl text \<Rightarrow> throwIO (PlainError (js ''Failed to compile ANS transaction: '' @ text))
      | Inr message \<Rightarrow> bindIO (pureIO (normalizeRuntimeTransaction
            (Obj [(js ''version'', num 0), (js ''signatures'', Arr []), (js ''message'', message)]))) (\<lambda>transaction.
          retIO (transaction, textDecode (sdk_hash (os_sdk X) message)))) v = (Inr (transaction, hash), v1)"
      using build unfolding buildTransaction_def Let_def bindIO_Inr [of "getBestBlockHash t" for t] by auto
    then obtain message where "sdk_createSanitizedMessage (os_sdk X) [sdkInstruction instruction] payer h = Inr message"
      by (cases "sdk_createSanitizedMessage (os_sdk X) [sdkInstruction instruction] payer h") simp_all
    with build show ?thesis unfolding paidTransaction_def by (auto simp: bindIO_Inr)
  qed
  moreover have "inRun I T v1" using remains_step [OF remains_build [OF assms(2)] assms(4)] build by (metis snd_conv)
  then have v2: "inRun I T v2" using remains_step [OF assms(3), of T v1 hash] sign by simp
  then obtain pre where pre: "fl_trace v2 = T @ pre" by (auto simp: inRun_def prefix_def)
  obtain e where e: "sendTransaction (os_transport X) ?tx (fl_env v2) = (Inr txid, e)" "fl_trace v3 = fl_trace v2 @ [Sent ?tx]"
    using send by (auto simp: bindIO_def emit_def envIO_def split: prod.splits)
  have "I (fl_env v3)" using remains_step [OF remains_send [OF assms(2)] v2] send by (metis inRun_def snd_conv)
  then have "inRun I (fl_trace v3) v3" by (simp add: inRun_def)
  from remains_step [OF remains_onSubmitted this, of txid] announce obtain post where "fl_trace w' = fl_trace v3 @ post"
    by (auto simp: inRun_def prefix_def)
  ultimately show ?thesis using pre e by (metis append.assoc append_Cons append_Nil)
qed

lemma triple_envIO:
  "triple I m Q F \<Longrightarrow> triple (\<lambda>w. I (fl_env w)) (envIO m) (\<lambda>a w. Q a (fl_env w)) (\<lambda>e w. F e (fl_env w))"
  unfolding triple_def envIO_def by (auto simp: case_prod_beta sum.case_eq_if)

text \<open>The success signal of a mutation and its builder, in the run.\<close>

definition effectShows :: "('w \<Rightarrow> bool) \<Rightarrow> (js_string \<Rightarrow> ('w, bool) io) \<Rightarrow> (js_string \<Rightarrow> 'w \<Rightarrow> bool) \<Rightarrow> bool" where
  "effectShows I effect Q \<longleftrightarrow> (\<forall>actor. triple I (effect actor) (\<lambda>b w. I w \<and> (b \<longrightarrow> Q actor w)) (\<lambda>_. I))"

lemma effect_stays: "effectShows I effect Q \<Longrightarrow> envStays I (effect actor)"
  unfolding effectShows_def envStays_def by (blast intro: triple_weaken)

lemmas remains_effect = remains_env [OF effect_stays]

lemma sendMutation_seen:
  assumes "sendMutation X build (Some effect) A w = Some (Inr txid, w')"
    and "outsideStays I X" "\<And>a. envStays I (build a)" "effectShows I effect Q" "inRun I T w"
  shows "Q (at_actor A) (fl_env w') \<and> sentFor X build (at_actor A) txid T w'"
proof -
  let ?C = "flowTimer (os_timer X)" and ?T = "flowTransport (os_transport X)" and ?probe = "envIO (effect (at_actor A))"
  obtain instruction v1 payer where built: "envIO (build (at_actor A)) w = (Inr instruction, v1)"
    and payer: "requireArchKey (os_base58 X) (at_actor A) = Inr payer"
    and run: "signAndSendInstruction (os_lower X) (os_sdk X) ?C ?T instruction payer
       (makeAnsSigner (os_sdk X) (signWithActor X A)) None None None (Some ?probe) (Some onSubmitted) v1 = Some (Inr txid, w')"
    using assms(1) by (auto simp: sendMutation_def bindA_Inr)
  have v1: "inRun I T v1" using remains_step [OF remains_env [OF assms(3)] assms(5)] built by (metis snd_conv)
  have sign: "remains I (liftA (makeAnsSigner (os_sdk X) (signWithActor X A) h))" for h
    by (intro remains_ansSigner remains_sign assms(2))
  obtain id u result where submit: "submitInstruction (os_sdk X) ?T instruction payer (makeAnsSigner (os_sdk X) (signWithActor X A))
      (Some onSubmitted) v1 = (Inr id, u)"
    and wait: "waitForTransaction ?C ?T id (Some ?probe) None None u = Some (result, w')"
    "(case result of Inr Complete \<Rightarrow> Inr id
       | Inr (Timeout late) \<Rightarrow> Inl (reportFailure (os_lower X) (TransactionPendingError id late))
       | Inl e \<Rightarrow> Inl (reportFailure (os_lower X) e)) = Inr txid"
    using run unfolding signAndSend_steps bindA_Inr by (elim exE conjE) (simp add: map_option_eq_Some, elim exE conjE, auto)
  from wait(2) have result: "result = Inr Complete" "id = txid" by (simp_all split: sum.splits ConfirmOutcome.splits)
  obtain tx pre post v v' where sent: "paidTransaction (os_sdk X) instruction payer tx" "fl_trace u = T @ pre @ Sent tx # post"
    "sendTransaction (os_transport X) tx v = (Inr txid, v')"
    using submitInstruction_sent [OF submit assms(2) sign v1] result(2) by blast
  have "inRun I (fl_trace u) u"
  proof -
    have "remains I (liftA (submitInstruction (os_sdk X) ?T instruction payer (makeAnsSigner (os_sdk X) (signWithActor X A)) (Some onSubmitted)))"
      unfolding submitInstruction_def Let_def option.case case_prod_beta
      by (intro remains_intros remains_build remains_send remains_onSubmitted sign assms(2))
    from remains_step [OF this v1] submit show ?thesis by (simp add: inRun_def)
  qed
  note u = this
  have "inRun I (fl_trace u) w'"
    by (rule remainsD [OF remains_wait [OF assms(2) remains_effect [OF assms(4)]] u wait(1)])
  then obtain rest where "fl_trace w' = fl_trace u @ rest" by (auto simp: inRun_def prefix_def)
  then have trace: "fl_trace w' = T @ pre @ Sent tx # (post @ rest)" using sent(2) by simp
  have "Q (at_actor A) (fl_env w')"
  proof (rule wait_signal [OF wait(1) [unfolded result], where I = "\<lambda>v. I (fl_env v)" and Q = "\<lambda>v. Q (at_actor A) (fl_env v)"])
    show "triple (\<lambda>v. I (fl_env v)) ?probe (\<lambda>b v. I (fl_env v) \<and> (b \<longrightarrow> Q (at_actor A) (fl_env v))) (\<lambda>_ v. I (fl_env v))"
      using triple_envIO assms(4) unfolding effectShows_def by fastforce
    show "triple (\<lambda>v. I (fl_env v)) (getProcessedTransaction ?T txid) (\<lambda>_ v. I (fl_env v)) (\<lambda>_ v. I (fl_env v))" for txid
      unfolding flowTransport_simps using triple_envIO outsideStaysD(4) [OF assms(2)] unfolding envStays_def by fastforce
    show "I (fl_env (sleep ?C d v))" if "I (fl_env v)" for d v
      using that outsideStaysD(9) [OF assms(2)] by (simp add: flowTimer_def)
  qed (use u in \<open>simp add: inRun_def\<close>)
  moreover have "fst (build (at_actor A) (fl_env w)) = Inr instruction" using built by (simp add: envIO_Inr)
  moreover have "canonicalArchKey (os_base58 X) (Some (at_actor A)) = Some payer"
    using payer by (auto simp: requireArchKey_def split: option.splits)
  ultimately show ?thesis using sent(1,3) trace unfolding sentFor_def by blast
qed

section \<open>What a confirmed submission has sent and seen\<close>

lemma remains_attempt_start: "remains I (liftA (startAttempt b))"
  unfolding startAttempt_def by (rule remains_setVars)

lemma attempt_seen:
  assumes "runSubmitAttempt X build (Some effect) actor reported pin n w = Some (Inr (txid, True), w')"
    and "outsideStays I X" "\<And>a. envStays I (build a)" "effectShows I effect Q" "inRun I T w"
  shows "Q actor (fl_env w') \<and> sentFor X build actor txid T w'"
proof -
  obtain b v u where start: "archAccountExists X actor w = (Inr b, v)" "startAttempt (\<not> b) v = (Inr (), u)"
    and r: "catchA (attemptBody X build (Some effect)
      \<lparr>at_actor = actor, at_reported = reported, at_pinSource = pin, at_number = n, at_pinnedAt = now (os_timer X) (fl_env w),
       at_approvalTotal = (if b then 1 else 2)\<rparr> (\<not> b)) (attemptFailure X) u = Some (Inr (txid, True), w')"
    using assms(1) unfolding runSubmitAttempt_def bindA_Inr by auto
  define A where "A = \<lparr>at_actor = actor, at_reported = reported, at_pinSource = pin, at_number = n,
    at_pinnedAt = now (os_timer X) (fl_env w), at_approvalTotal = (if b then 1 else 2)\<rparr>"
  have A: "at_actor A = actor" by (simp add: A_def)
  have exists: "remains I (liftA (archAccountExists X actor))"
    unfolding archAccountExists_def by (intro remains_intros remains_read assms(2))
  have "inRun I T v" using remains_step [OF exists assms(5)] start(1) by (metis snd_conv)
  from remains_step [OF remains_attempt_start this] start(2) have u: "inRun I T u" by (metis snd_conv)
  from r consider "attemptBody X build (Some effect) A (\<not> b) u = Some (Inr (txid, True), w')"
    | e v where "attemptFailure X e v = (Inr (txid, True), w')"
    unfolding A_def [symmetric] by (auto simp: catchA_def split: option.splits prod.splits sum.splits)
  then show ?thesis
  proof cases
    case 1
    then obtain x where begun: "(if \<not> b
        then bindA (createArchAccountWithFaucet X (at_actor A) (signWithActor X A)) (\<lambda>_. liftA (setVars (\<lambda>v. v\<lparr>sv_phase := Mutation\<rparr>)))
        else liftA (retIO ())) u = Some (Inr (), x)"
      and sent: "sendMutation X build (Some effect) A x = Some (Inr txid, w')"
      by (auto simp: attemptBody_def bindA_Inr)
    have "remains I (if \<not> b
        then bindA (createArchAccountWithFaucet X (at_actor A) (signWithActor X A)) (\<lambda>_. liftA (setVars (\<lambda>v. v\<lparr>sv_phase := Mutation\<rparr>)))
        else liftA (retIO ()))"
      by (cases b) (simp_all add: remains_pure, intro remains_intros remains_faucet remains_sign assms(2))
    from sendMutation_seen [OF sent assms(2-4) remainsD [OF this u begun]] show ?thesis unfolding A .
  next
    case 2
    then show ?thesis by (auto simp: attemptFailure_def split: js_error.splits)
  qed
qed

lemma rememberSigner_keeps [simp]:
  "fl_env (rememberSigner X reported signer w) = fl_env w" "fl_trace (rememberSigner X reported signer w) = fl_trace w"
  by (simp_all add: rememberSigner_def)

lemma sentFor_remember [simp]: "sentFor X build actor txid T (rememberSigner X reported signer w) = sentFor X build actor txid T w"
  by (simp add: sentFor_def)

text \<open>An attempt that fails stays in the run as well; the next one begins where it ended.\<close>

lemma remains_catch: "remains I m \<Longrightarrow> (\<And>e. remains I (liftA (h e))) \<Longrightarrow> remains I (catchA m h)"
  unfolding remains_def by (blast intro: spec_catchA)

lemma remains_confirm:
  assumes "outsideStays I X" "remains I (liftA check)"
  shows "remains I (\<lambda>w. map_option (\<lambda>(outcome, w'').
       (case outcome of
         Inr Complete \<Rightarrow> Inr txid
       | Inr (Timeout late) \<Rightarrow> Inl (reportFailure ucd (TransactionPendingError txid late))
       | Inl e \<Rightarrow> Inl (reportFailure ucd e), w''))
       (waitForTransaction (flowTimer (os_timer X)) (flowTransport (os_transport X)) txid (Some check) None None w))"
  using remainsD [OF remains_wait [OF assms]] by (intro remainsI) (auto simp: map_option_eq_Some)

lemma remains_sendMutation:
  assumes "outsideStays I X" "\<And>a. envStays I (build a)" "effectShows I effect Q"
  shows "remains I (sendMutation X build (Some effect) A)"
  unfolding sendMutation_def signAndSend_steps submitInstruction_def Let_def option.case option.map case_prod_beta
  by (intro remains_intros remains_env remains_confirm [unfolded case_prod_beta] effect_stays [OF assms(3)] remains_build remains_send
      remains_onSubmitted remains_ansSigner remains_sign assms)

lemma remains_attempt:
  assumes "outsideStays I X" "\<And>a. envStays I (build a)" "effectShows I effect Q"
  shows "remains I (runSubmitAttempt X build (Some effect) actor reported pin n)"
proof (rule remainsI)
  fix T w r w'
  assume w: "inRun I T w" and run: "runSubmitAttempt X build (Some effect) actor reported pin n w = Some (r, w')"
  have failure: "remains I (liftA (attemptFailure X e))" for e
    by (rule remains_lift) (auto simp: attemptFailure_def split: js_error.splits)
  have body: "remains I (attemptBody X build (Some effect) A b)" for A b
    unfolding attemptBody_def
    by (cases b) (simp_all only: if_True if_False simp_thms, (intro remains_intros remains_sendMutation [OF assms] remains_faucet
        remains_sign assms(1))+)
  have "remains I (bindA (liftA (archAccountExists X actor)) (\<lambda>exists. bindA (liftA (startAttempt (\<not> exists))) (\<lambda>_.
     catchA (attemptBody X build (Some effect)
         \<lparr>at_actor = actor, at_reported = reported, at_pinSource = pin, at_number = n,
          at_pinnedAt = now (os_timer X) (fl_env w), at_approvalTotal = (if exists then 1 else 2)\<rparr> (\<not> exists))
       (attemptFailure X))))"
    unfolding archAccountExists_def
    by (intro remains_intros remains_attempt_start remains_catch body failure remains_read assms(1))
  from remainsD [OF this w] run show "inRun I T w'" by (simp add: runSubmitAttempt_def)
qed

lemma submitLoop_seen:
  assumes "submitLoop X build (Some effect) reported n actor pin w = Some (Inr outcome, w')" "so_confirmed outcome"
    and "outsideStays I X" "\<And>a. envStays I (build a)" "effectShows I effect Q" "inRun I T w"
  shows "Q (so_actorArchAddress outcome) (fl_env w') \<and> sentFor X build (so_actorArchAddress outcome) (so_txid outcome) T w'"
  using assms(1,2,6)
proof (induction n arbitrary: actor pin w)
  case (Suc n)
  let ?attempt = "runSubmitAttempt X build (Some effect) actor reported pin (2 - n) w"
  show ?case
  proof (cases ?attempt)
    case None
    then show ?thesis using Suc.prems(1) by simp
  next
    case (Some rw)
    obtain r v where rw: "rw = (r, v)" by (cases rw)
    show ?thesis
    proof (cases r)
      case (Inr result)
      obtain txid confirmed where result: "result = (txid, confirmed)" by (cases result)
      have o: "outcome = \<lparr>so_txid = txid, so_actorArchAddress = actor, so_adopted = (\<not> archAddressesEqual (os_base58 X) actor reported),
          so_confirmed = confirmed\<rparr>" "w' = rememberSigner X reported actor v"
        using Suc.prems(1) Some by (simp_all add: rw Inr result)
      then have "?attempt = Some (Inr (txid, True), v)" using Suc.prems(2) Some by (simp add: rw Inr result)
      from attempt_seen [OF this assms(3-5) Suc.prems(3)] show ?thesis by (simp add: o)
    next
      case (Inl e)
      then obtain identified where again: "submitLoop X build (Some effect) reported n identified Observed
          (rememberSigner X reported identified v) = Some (Inr outcome, w')"
        using Suc.prems(1) Some by (cases "identifiedSigner (2 - n) e") (simp_all add: rw)
      have "inRun I T v" using remainsD [OF remains_attempt [OF assms(3-5)] Suc.prems(3)] Some by (simp add: rw)
      then have "inRun I T (rememberSigner X reported identified v)" by (simp add: inRun_def)
      from Suc.IH [OF again Suc.prems(2) this] show ?thesis .
    qed
  qed
qed simp

lemma submission_seen:
  assumes "submitWithWindowArch X build (Some effect) w = Some (Inr outcome, w')" "so_confirmed outcome"
    and "outsideStays I X" "\<And>a. envStays I (build a)" "effectShows I effect Q" "inRun I T w"
  shows "Q (so_actorArchAddress outcome) (fl_env w') \<and> sentFor X build (so_actorArchAddress outcome) (so_txid outcome) T w'"
proof (cases "kitPort X (fl_env w)")
  case None
  obtain r v where read: "requireConnectedArchAccount X None None w = (r, v)" by fastforce
  with None assms(1) obtain account where "r = Inr account"
    by (cases r) (auto simp: submitWithWindowArch_def bindA_def liftA_def)
  moreover obtain actor pin rest where
    "preferredSigner (os_base58 X) (se_browser (fl_session v)) (ca_archAddress account) = (actor, pin, rest)"
    by (rule prod_cases3)
  ultimately have loop: "submitLoop X build (Some effect) (ca_archAddress account) 2 actor pin v = Some (Inr outcome, w')"
    using read None assms(1) by (simp add: submitWithWindowArch_def bindA_def liftA_def)
  have "inRun I T v" using remains_step [OF remains_require [OF assms(3)] assms(6)] read by (metis snd_conv)
  from submitLoop_seen [OF loop assms(2-5) this] show ?thesis .
next
  case (Some port)
  with assms(1,2) obtain txid where run: "runSubmitAttempt X build (Some effect) (po_archAddress port) (po_archAddress port) Reported 1 w =
      Some (Inr (txid, True), w')" "so_actorArchAddress outcome = po_archAddress port" "so_txid outcome = txid"
    by (auto simp: submitWithWindowArch_def bindA_Inr)
  from attempt_seen [OF run(1) assms(3-6)] show ?thesis unfolding run(2,3) .
qed

end
