(* ===== verification/Register_Page.thy ===== *)
theory Register_Page
  imports Submit_Effects
begin

text \<open>
  The registration page: the handlers of \<^verbatim>\<open>views/RegisterView.tsx\<close> and the recovery of
  \<^verbatim>\<open>hooks/useWalletRecovery.ts\<close>, composed with the submit flow, the confirmation probes and the client. The page's
  \<open>useState\<close> cells are a record, a handler takes it and the world of the flow to the next. The theorems say what a
  registration that the page shows as confirmed means for the payer and on the ledger, and what a click must pass before
  it asks the wallet for a signature or sends anything.
\<close>

section \<open>views/RegisterView.tsx\<close>

definition previewCanonical :: "prims \<Rightarrow> js_string \<Rightarrow> js_string option" where
  "previewCanonical P label =
     (let trimmed = toLowerCase (unicodeLower P) (trim label) in
      if trimmed = [] then None
      else case bindR (validateLabel trimmed) (\<lambda>_. canonicalizeName P (trimmed @ js ''.arch'')) of
        Inr canonical \<Rightarrow> Some canonical
      | Inl _ \<Rightarrow> None)"

datatype register_step = ConnectStep | SetupStep | ApproveStep | CompleteStep

record register_page =
  gp_txid :: "js_string option"
  gp_unconfirmed :: bool
  gp_actor :: "js_string option"
  gp_error :: "js_string option"
  gp_failedError :: "js_error option"
  gp_blocker :: "WalletBlockerKind option"
  gp_busy :: bool
  gp_statusInfo :: "js_string option"
  gp_step :: register_step

text \<open>The read of the wallet that every mutation starts with; it is the extension's.\<close>

definition freshStatus :: "('w, 'p) outside \<Rightarrow> ('w flow, WalletStatus) io" where
  "freshStatus X w = (case probeFlow X w of (status, w') \<Rightarrow> (Inr status, w'))"

definition isConnected :: "WalletStatus \<Rightarrow> bool" where
  "isConnected status = (case status of Connected _ \<Rightarrow> True | _ \<Rightarrow> False)"

definition requireConnected :: "('w, 'p) outside \<Rightarrow> ('w flow, unit) io" where
  "requireConnected X =
     bindIO (freshStatus X) (\<lambda>current. if \<not> isConnected current then throwIO (walletStatusError current) else retIO ())"

definition registerBuilder :: "prims \<Rightarrow> base58 \<Rightarrow> ('w, jsval) AnsClient \<Rightarrow> js_string \<Rightarrow> 'w instruction_builder" where
  "registerBuilder P B c label actor =
     pureIO (bindR (decodeArchAddress B actor) (\<lambda>owner. buildRegister P c owner label))"

text \<open>The \<open>try\<close> block.\<close>

definition registerBody ::
  "prims \<Rightarrow> ('w, 'p) outside \<Rightarrow> ('w, jsval) AnsClient \<Rightarrow> js_string \<Rightarrow> ('w flow, SubmitOutcome) aio" where
  "registerBody P X c label =
     (let typed = toLowerCase (unicodeLower P) (trim label) in
      bindA (liftA (pureIO (validateLabel typed))) (\<lambda>_.
      bindA (liftA (pureIO (canonicalizeName P (typed @ js ''.arch'')))) (\<lambda>canonical.
      bindA (liftA (requireConnected X)) (\<lambda>_.
      bindA (liftA (envIO (fetchNameAccount P c canonical))) (\<lambda>existing.
      if existing \<noteq> None then liftA (throwIO (PlainError (canonical @ js '' is already registered'')))
      else submitWithWindowArch X (registerBuilder P (os_base58 X) c typed)
             (Some (nameRegisteredTo P (os_base58 X) c canonical)))))))"

definition startedPage :: register_page where
  "startedPage = \<lparr>gp_txid = None, gp_unconfirmed = False, gp_actor = None, gp_error = None, gp_failedError = None,
     gp_blocker = None, gp_busy = False, gp_statusInfo = None, gp_step = ConnectStep\<rparr>"

definition registeredPage :: "SubmitOutcome \<Rightarrow> register_page" where
  "registeredPage outcome = startedPage\<lparr>gp_txid := Some (so_txid outcome), gp_unconfirmed := \<not> so_confirmed outcome,
     gp_actor := (if so_adopted outcome then Some (so_actorArchAddress outcome) else None), gp_step := CompleteStep\<rparr>"

definition failedPage :: "('w, 'p) outside \<Rightarrow> bool \<Rightarrow> js_error \<Rightarrow> register_page" where
  "failedPage X hasAccount err = startedPage\<lparr>gp_blocker := classifyWalletBlocker (walletErrorOf err),
     gp_failedError := Some err, gp_step := (if hasAccount then ApproveStep else ConnectStep),
     gp_error := Some (formatAnsMutationError (os_cause X) err)\<rparr>"

text \<open>\<open>runRegister\<close>; what it leaves out of the cells of a page are the ones that its \<open>finally\<close> resets. The read of the
  wallet after a failure is not awaited.\<close>

definition runRegister ::
  "prims \<Rightarrow> ('w, 'p) outside \<Rightarrow> ('w, jsval) AnsClient \<Rightarrow> bool \<Rightarrow> js_string \<Rightarrow> 'w flow \<Rightarrow> (register_page \<times> 'w flow) option" where
  "runRegister P X c hasAccount label w =
     (case registerBody P X c label w of
        None \<Rightarrow> None
      | Some (Inr outcome, w') \<Rightarrow> Some (registeredPage outcome, w')
      | Some (Inl err, w') \<Rightarrow> Some (failedPage X hasAccount err, snd (probeFlow X w')))"

section \<open>hooks/useWalletRecovery.ts\<close>

text \<open>What a recovery does to the page besides its result: opening the picker, or reloading the document.\<close>

datatype recovery_effect = NoEffect | PickerOpened | Reloaded

definition stateText :: "WalletStatus \<Rightarrow> js_string" where
  "stateText status =
     (case status of
        Detecting \<Rightarrow> js ''detecting'' | NoExtension \<Rightarrow> js ''no extension'' | NotInitialized \<Rightarrow> js ''not initialized''
      | WalletLocked \<Rightarrow> js ''locked'' | NotConnected \<Rightarrow> js ''not connected'' | AwaitingWallet _ _ \<Rightarrow> js ''awaiting wallet''
      | PromptUnanswered _ _ _ \<Rightarrow> js ''prompt unanswered'' | StaleExtension \<Rightarrow> js ''stale extension''
      | WalletStatus.Unavailable _ \<Rightarrow> js ''unavailable'' | UnsupportedAccount _ \<Rightarrow> js ''unsupported account''
      | Connected _ \<Rightarrow> js ''connected'')"

definition caughtRecovery :: "('w flow, unit) io \<Rightarrow> ('w flow, js_error + unit) io" where
  "caughtRecovery m = catchIO (bindIO m (\<lambda>_. retIO (Inr ()))) (\<lambda>e. retIO (Inl e))"

definition runRecovery ::
  "('w, 'p) outside \<Rightarrow> ('w, ConnectedAccount) io \<Rightarrow> WalletAction \<Rightarrow> ('w flow, (js_error + unit) \<times> recovery_effect) io" where
  "runRecovery X unlock action =
     (case action of
        Do_install \<Rightarrow> retIO (Inr (), PickerOpened)
      | Do_chooseWallet \<Rightarrow> retIO (Inr (), PickerOpened)
      | Do_reload \<Rightarrow> retIO (Inr (), Reloaded)
      | Do_retry \<Rightarrow>
          bindIO (freshStatus X) (\<lambda>status.
          retIO (if isConnected status then Inr () else Inl (PlainError (js ''Arch Wallet is '' @ stateText status @ js ''.'')), NoEffect))
      | Do_connect \<Rightarrow> retIO (Inr (), PickerOpened)
      | Do_unlock \<Rightarrow>
          bindIO (caughtRecovery (bindIO (envIO unlock) (\<lambda>_. retIO ()))) (\<lambda>r. retIO (r, NoEffect))
      | Do_adopt \<Rightarrow>
          bindIO (caughtRecovery (bindIO (adoptCurrentArchAccount X) (\<lambda>_. bindIO (freshStatus X) (\<lambda>_. retIO ()))))
            (\<lambda>r. retIO (r, NoEffect))
      | Do_reconnect \<Rightarrow>
          bindIO (caughtRecovery (bindIO (reconnectArchWallet X) (\<lambda>_. bindIO (freshStatus X) (\<lambda>_. retIO ()))))
            (\<lambda>r. retIO (r, NoEffect)))"

section \<open>Clicks (views/RegisterView.tsx)\<close>

definition registerLabel :: js_string where
  "registerLabel = js ''Register name''"

definition readyInfo :: js_string where
  "readyInfo = js ''Wallet ready '' @ [0x2014] @ js '' '' @ mutationRetryLabel (Some registerLabel) @ js '' again.''"

text \<open>\<open>handleRecovery\<close>: what follows a recovery step. Only adopting the account that the wallet offers goes on to the
  registration.\<close>

definition recoveredPage :: "register_page \<Rightarrow> register_page" where
  "recoveredPage page = page\<lparr>gp_error := None, gp_blocker := None, gp_step := ApproveStep\<rparr>"

definition stillBlockedPage :: "('w, 'p) outside \<Rightarrow> js_error \<Rightarrow> register_page \<Rightarrow> register_page" where
  "stillBlockedPage X err page = page\<lparr>gp_statusInfo := None, gp_blocker := classifyWalletBlocker (walletErrorOf err),
     gp_error := Some (formatAnsMutationError (os_cause X) err)\<rparr>"

definition handleRecovery ::
  "prims \<Rightarrow> ('w, 'p) outside \<Rightarrow> ('w, jsval) AnsClient \<Rightarrow> bool \<Rightarrow> js_string \<Rightarrow> ('w, ConnectedAccount) io \<Rightarrow> WalletAction \<Rightarrow>
   register_page \<Rightarrow> 'w flow \<Rightarrow> (register_page \<times> 'w flow) option" where
  "handleRecovery P X c hasAccount label unlock action page w =
     (case runRecovery X unlock action w of
        (Inr (Inr _, effect), w') \<Rightarrow>
          if action = Do_adopt then runRegister P X c hasAccount label w'
          else Some ((recoveredPage page)\<lparr>gp_statusInfo := Some readyInfo\<rparr>, w')
      | (Inr (Inl err, effect), w') \<Rightarrow> Some (stillBlockedPage X err page, w')
      | (Inl err, w') \<Rightarrow> Some (page\<lparr>gp_error := None, gp_blocker := None\<rparr>, w'))"

definition onRegister ::
  "prims \<Rightarrow> ('w, 'p) outside \<Rightarrow> ('w, jsval) AnsClient \<Rightarrow> WalletStatus \<Rightarrow> bool \<Rightarrow> js_string \<Rightarrow> ('w, ConnectedAccount) io \<Rightarrow>
   register_page \<Rightarrow> 'w flow \<Rightarrow> (register_page \<times> 'w flow) option" where
  "onRegister P X c shown hasAccount label unlock page w =
     (case walletStatusCta shown of
        Some action \<Rightarrow> handleRecovery P X c hasAccount label unlock (cta_action action) page w
      | None \<Rightarrow> runRegister P X c hasAccount label w)"

text \<open>The effects on a changed label and on a new connection.\<close>

definition labelChanged :: "register_page \<Rightarrow> register_page" where
  "labelChanged page = page\<lparr>gp_error := None, gp_blocker := None, gp_txid := None, gp_unconfirmed := False, gp_statusInfo := None\<rparr>"

definition walletConnected :: "register_page \<Rightarrow> register_page" where
  "walletConnected page = page\<lparr>gp_error := None, gp_blocker := None\<rparr>"

section \<open>What is rendered (views/RegisterView.tsx)\<close>

definition progressStep :: "WalletStatus \<Rightarrow> register_page \<Rightarrow> register_step" where
  "progressStep shown page =
     (if gp_busy page \<or> gp_step page = CompleteStep then gp_step page
      else if walletStatusCta shown = None then ApproveStep else ConnectStep)"

definition noticeContext :: "js_error option \<Rightarrow> AccountMismatchContext option" where
  "noticeContext failed =
     (case Option.bind failed accountMismatchFromError of
        Some m \<Rightarrow> Some \<lparr>mc_pinnedShort = am_pinnedShort m, mc_currentShort = am_currentShort m,
          mc_currentKind = am_currentKind m, mc_signerShort = None\<rparr>
      | None \<Rightarrow> map_option (\<lambda>(payerShort, signerShort). \<lparr>mc_pinnedShort = payerShort,
          mc_currentShort = (case signerShort of Some s \<Rightarrow> s | None \<Rightarrow> js ''an unknown account''),
          mc_currentKind = None, mc_signerShort = signerShort\<rparr>) (Option.bind failed signerMismatchFromError))"

definition registerNotice :: "register_page \<Rightarrow> WalletBlockerNotice option" where
  "registerNotice page = map_option (\<lambda>kind.
     walletBlockerNotice kind (mutationRetryLabel (Some registerLabel)) (noticeContext (gp_failedError page))) (gp_blocker page)"

definition registerErrorTitle :: "register_page \<Rightarrow> js_string" where
  "registerErrorTitle page =
     (case registerNotice page of
        Some n \<Rightarrow> wn_title n
      | None \<Rightarrow> (case gp_failedError page of
          Some e \<Rightarrow> submitFailureTitle e (Some registerLabel) | None \<Rightarrow> mutationFailureTitle (Some registerLabel)))"

definition registerErrorMessage :: "register_page \<Rightarrow> js_string" where
  "registerErrorMessage page =
     (case registerNotice page of
        Some n \<Rightarrow> wn_message n
      | None \<Rightarrow> js ''The name was not registered. Review the details or try again.'')"

definition registerDisabled :: "prims \<Rightarrow> WalletStatus \<Rightarrow> bool \<Rightarrow> js_string \<Rightarrow> register_page \<Rightarrow> bool" where
  "registerDisabled P shown recovering label page \<longleftrightarrow>
     gp_busy page \<or> recovering \<or> shown = NoExtension \<or> shown = Detecting \<or>
     (walletStatusCta shown = None \<and> previewCanonical P label = None)"

section \<open>Properties\<close>

text \<open>The name that is typed.\<close>

definition typedLabel :: "prims \<Rightarrow> js_string \<Rightarrow> js_string" where
  "typedLabel P label = toLowerCase (unicodeLower P) (trim label)"

text \<open>The preview shows a name exactly when a registration would ask for that name.\<close>

lemma preview_iff: "previewCanonical P label = Some canonical \<longleftrightarrow>
  validateLabel (typedLabel P label) = Inr () \<and> canonicalizeName P (typedLabel P label @ js ''.arch'') = Inr canonical"
proof -
  have "validateLabel [] \<noteq> Inr ()" by (simp add: validateLabel_def)
  then show ?thesis
    by (cases "validateLabel (typedLabel P label)")
      (auto simp: previewCanonical_def Let_def typedLabel_def split: sum.splits)
qed

text \<open>The checks before the submission stay in the run.\<close>

lemma client_stays:
  assumes "showsPast (cl_transport c) I past"
  shows "envStays I (fetchNameAccount P c name)"
  unfolding envStays_def by (rule triple_weaken [OF fetchNameAccount_past [OF assms]]) simp_all

lemma remains_requireConnected: "outsideStays I X \<Longrightarrow> remains I (liftA (requireConnected X))"
  unfolding requireConnected_def
  by (intro remains_intros remains_lift) (auto simp: freshStatus_def dest: inRun_probe split: prod.splits)

lemma registerBody_Inr:
  assumes "registerBody P X c label w = Some (Inr outcome, w')"
    and "showsPast (cl_transport c) I past" "outsideStays I X" "inRun I T w"
  obtains canonical u where "validateLabel (typedLabel P label) = Inr ()"
    "canonicalizeName P (typedLabel P label @ js ''.arch'') = Inr canonical"
    "submitWithWindowArch X (registerBuilder P (os_base58 X) c (typedLabel P label))
       (Some (nameRegisteredTo P (os_base58 X) c canonical)) u = Some (Inr outcome, w')" "inRun I T u"
proof -
  obtain canonical v u where label: "validateLabel (typedLabel P label) = Inr ()"
    "canonicalizeName P (typedLabel P label @ js ''.arch'') = Inr canonical"
    and checks: "requireConnected X w = (Inr (), v)" "envIO (fetchNameAccount P c canonical) v = (Inr None, u)"
    and submit: "submitWithWindowArch X (registerBuilder P (os_base58 X) c (typedLabel P label))
       (Some (nameRegisteredTo P (os_base58 X) c canonical)) u = Some (Inr outcome, w')"
    using assms(1) by (auto simp: registerBody_def Let_def bindA_Inr typedLabel_def [symmetric] split: if_splits)
  have "inRun I T v" using remains_step [OF remains_requireConnected [OF assms(3)] assms(4)] checks(1) by (metis snd_conv)
  from remains_step [OF remains_env [OF client_stays [OF assms(2)]] this] checks(2) have "inRun I T u" by (metis snd_conv)
  with label submit show ?thesis by (rule that)
qed

lemma address_of_key:
  assumes "archAddressesEqual B actor address" "canonicalArchKey B (Some actor) = Some payer"
  shows "canonicalArchKey B (Some address) = Some payer"
  using assms(1) identities_by_key(1) [OF assms(2)] by (simp add: archAddressesEqual_def)

text \<open>C5. A registration that the page shows as confirmed has been paid for and is on the ledger. Over a transport whose reads
  may fail and may be old, in worlds of one run: when a click on the button ends with a transaction id and the page does not
  call it unconfirmed, then in this click a transaction was sent that carries the registration of the name that the form
  showed, built for an acting account, and whose fee payer is that account's key; the node answered it with the id that is
  shown; and one of the ledgers that the reads of the last moment can show holds a registration of the name whose owner's
  address is an address of the key that paid. The account that the page names, where it names one, is the acting account.\<close>

theorem registration_confirmed_on_ledger:
  assumes "showsPast (cl_transport c) I past" "outsideStays I X" "I (fl_env w)"
    and "runRegister P X c hasAccount label w = Some (page, w')" "gp_txid page = Some txid" "\<not> gp_unconfirmed page"
  shows "\<exists>canonical actor payer owner instruction tx pre post v v' L n.
    previewCanonical P label = Some canonical \<and>
    decodeArchAddress (os_base58 X) actor = Inr owner \<and> buildRegister P c owner (typedLabel P label) = Inr instruction \<and>
    canonicalArchKey (os_base58 X) (Some actor) = Some payer \<and> paidTransaction (os_sdk X) instruction payer tx \<and>
    fl_trace w' = fl_trace w @ pre @ Sent tx # post \<and> sendTransaction (os_transport X) tx v = (Inr txid, v') \<and>
    L \<in> past (fl_env w') \<and> registrationOn P c L canonical n \<and>
    canonicalArchKey (os_base58 X) (Some (b58_encode (os_base58 X) (na_owner n))) = Some payer \<and>
    (gp_actor page = None \<or> gp_actor page = Some actor)"
proof -
  let ?B = "os_base58 X"
  obtain outcome where o: "registerBody P X c label w = Some (Inr outcome, w')" "page = registeredPage outcome"
    using assms(4,5) by (auto simp: runRegister_def failedPage_def startedPage_def split: option.splits prod.splits sum.splits)
  have confirmed: "so_confirmed outcome" "so_txid outcome = txid" using assms(5,6) by (simp_all add: o(2) registeredPage_def)
  let ?actor = "so_actorArchAddress outcome"
  have w: "inRun I (fl_trace w) w" using assms(3) by (simp add: inRun_def)
  obtain canonical u where c: "validateLabel (typedLabel P label) = Inr ()"
    "canonicalizeName P (typedLabel P label @ js ''.arch'') = Inr canonical"
    "submitWithWindowArch X (registerBuilder P ?B c (typedLabel P label)) (Some (nameRegisteredTo P ?B c canonical)) u =
     Some (Inr outcome, w')" "inRun I (fl_trace w) u"
    using registerBody_Inr [OF o(1) assms(1,2) w] .
  let ?Q = "\<lambda>actor e. \<exists>L \<in> past e. \<exists>n. registrationOn P c L canonical n \<and> archAddressesEqual ?B actor (b58_encode ?B (na_owner n))"
  have "effectShows I (nameRegisteredTo P ?B c canonical) ?Q"
    unfolding effectShows_def nameRegisteredTo_def using nameOwnerEquals_past [OF assms(1)] by blast
  moreover have "envStays I (registerBuilder P ?B c (typedLabel P label) a)" for a
    by (simp add: registerBuilder_def envStays_iff)
  ultimately have seen: "?Q ?actor (fl_env w')" "sentFor X (registerBuilder P ?B c (typedLabel P label)) ?actor txid (fl_trace w) w'"
    using submission_seen [OF c(3) confirmed(1) assms(2) _ _ c(4)] confirmed(2) by blast+
  obtain instruction payer tx pre post e v v' where sent: "fst (registerBuilder P ?B c (typedLabel P label) ?actor e) = Inr instruction"
    "canonicalArchKey ?B (Some ?actor) = Some payer" "paidTransaction (os_sdk X) instruction payer tx"
    "fl_trace w' = fl_trace w @ pre @ Sent tx # post" "sendTransaction (os_transport X) tx v = (Inr txid, v')"
    using seen(2) unfolding sentFor_def by blast
  obtain owner where "decodeArchAddress ?B ?actor = Inr owner" "buildRegister P c owner (typedLabel P label) = Inr instruction"
    using sent(1) by (auto simp: registerBuilder_def bindR_eq_Inr_iff)
  moreover obtain L n where "L \<in> past (fl_env w')" "registrationOn P c L canonical n"
    "canonicalArchKey ?B (Some (b58_encode ?B (na_owner n))) = Some payer"
    using seen(1) address_of_key [OF _ sent(2)] by blast
  moreover have "previewCanonical P label = Some canonical" using c(1,2) by (simp add: preview_iff)
  moreover have "gp_actor page = None \<or> gp_actor page = Some ?actor" by (simp add: o(2) registeredPage_def)
  ultimately show ?thesis using sent(2-5) by blast
qed

text \<open>C34. A kit wallet is stopped at the gate. The flow takes the account of a connected kit wallet without reading the
  extension, and the page shows such a wallet as ready; but the page's handler asks for the extension's own reading, so
  where that is not connected the click ends in an error and nothing is shown, asked or sent.\<close>

theorem kit_wallet_stopped:
  assumes "kitPort X (fl_env w) = Some port" "\<not> isConnected (fst (probeFlow X w))"
  shows "walletStatusCta (Connected (portAccount port)) = None \<and>
    requireConnectedArchAccount X None None w = (Inr (portAccount port), w) \<and>
    (\<exists>page w'. runRegister P X c hasAccount label w = Some (page, w') \<and> gp_error page \<noteq> None \<and> gp_txid page = None \<and>
       fl_trace w' = fl_trace w)"
proof -
  have trace: "fl_trace (snd (probeFlow X v)) = fl_trace v" for v
    using probeFlow_quiet [of X v] by (cases "probeFlow X v") (auto simp: quiet_def)
  obtain status u where u: "probeFlow X w = (status, u)" by fastforce
  have "\<exists>e v. registerBody P X c label w = Some (Inl e, v) \<and> fl_trace v = fl_trace w"
    using assms(2) u trace [of w]
    by (auto simp: registerBody_def Let_def bindA_def liftA_def requireConnected_def freshStatus_def bindIO_def split: sum.splits)
  then have "\<exists>page w'. runRegister P X c hasAccount label w = Some (page, w') \<and> gp_error page \<noteq> None \<and> gp_txid page = None \<and>
       fl_trace w' = fl_trace w"
    by (auto simp: runRegister_def failedPage_def startedPage_def trace)
  moreover have "requireConnectedArchAccount X None None w = (Inr (portAccount port), w)"
    by (simp add: requireConnectedArchAccount_def assms(1) switchCheck_def truthyText_def Let_def)
  ultimately show ?thesis by (simp add: walletStatusCta_def)
qed

lemma runRegister_gate:
  assumes "runRegister P X c hasAccount label w = Some (page, w')" "fl_trace w' \<noteq> fl_trace w"
  shows "isConnected (fst (probeFlow X w)) \<and>
    (\<exists>canonical. previewCanonical P label = Some canonical \<and>
       fst (fetchNameAccount P c canonical (fl_env (snd (probeFlow X w)))) = Inr None)"
proof (rule ccontr)
  assume not: "\<not> ?thesis"
  have trace: "fl_trace (snd (probeFlow X v)) = fl_trace v" for v
    using probeFlow_quiet [of X v] by (cases "probeFlow X v") (auto simp: quiet_def)
  have env: "fl_trace v' = fl_trace v" if "envIO m v = (r, v')" for m r v v'
    using envIO_quiet [OF that] by (auto simp: quiet_def)
  have read: "fst (m (fl_env v)) = r" if "envIO m v = (r, v')" for m r v v'
    using that by (auto simp: envIO_Inr)
  obtain r v where body: "registerBody P X c label w = Some (r, v)" "fl_trace v = fl_trace w'"
    using assms(1) trace by (auto simp: runRegister_def split: option.splits prod.splits sum.splits)
  obtain status u where u: "probeFlow X w = (status, u)" by fastforce
  have "fl_trace v = fl_trace w"
    using body(1) not [unfolded preview_iff] u trace [of w] env
    by (auto simp: registerBody_def Let_def typedLabel_def bindA_def liftA_def requireConnected_def freshStatus_def bindIO_def
        split: sum.splits if_splits prod.splits option.splits)
      (auto dest: env read)
  with body(2) assms(2) show False by simp
qed

text \<open>Computations that keep a view of the world; those that keep trace and variables ask and send nothing.\<close>

definition keeps :: "('w flow \<Rightarrow> 'b) \<Rightarrow> ('w flow, 'a) io \<Rightarrow> bool" where
  "keeps view m \<longleftrightarrow> (\<forall>w. view (snd (m w)) = view w)"

lemma keepsI: "(\<And>w r w'. m w = (r, w') \<Longrightarrow> view w' = view w) \<Longrightarrow> keeps view m"
  unfolding keeps_def by (metis prod.collapse)

lemma keepsD: "keeps view m \<Longrightarrow> m w = (r, w') \<Longrightarrow> view w' = view w"
  unfolding keeps_def by (metis snd_conv)

lemma keeps_basic [simp]: "keeps view (retIO a)" "keeps view (throwIO e)" "keeps view (pureIO r)"
  by (simp_all add: keeps_def retIO_def throwIO_def pureIO_def)

lemma keeps_bind [intro!]: "keeps view m \<Longrightarrow> (\<And>a. keeps view (k a)) \<Longrightarrow> keeps view (bindIO m k)"
  unfolding keeps_def bindIO_def by (auto split: prod.splits sum.splits) (metis snd_conv)+

lemma keeps_catch [intro!]: "keeps view m \<Longrightarrow> (\<And>e. keeps view (k e)) \<Longrightarrow> keeps view (catchIO m k)"
  unfolding keeps_def catchIO_def by (auto split: prod.splits sum.splits) (metis snd_conv)+

abbreviation quietly :: "('w flow, 'a) io \<Rightarrow> bool" where
  "quietly m \<equiv> keeps (\<lambda>w. (fl_trace w, fl_vars w)) m"

lemma quietlyI: "(\<And>w r w'. m w = (r, w') \<Longrightarrow> quiet w w') \<Longrightarrow> quietly m"
  by (rule keepsI) (simp add: quiet_def)

lemma quietly_env [simp]: "quietly (envIO m)"
  by (rule quietlyI) (rule envIO_quiet)

lemma quietly_caught [intro!]: "quietly m \<Longrightarrow> quietly (caughtRecovery m)"
  unfolding caughtRecovery_def by (intro keeps_catch keeps_bind) simp_all

lemma quietly_status [simp]: "quietly (freshStatus X)"
  by (rule quietlyI) (auto simp: freshStatus_def dest: probeFlow_quiet split: prod.splits)

lemma quietly_adopt [simp]: "quietly (adoptCurrentArchAccount X)"
  unfolding adoptCurrentArchAccount_def by (rule quietlyI) (rule require_quiet)

lemma quietly_reconnect [simp]: "quietly (reconnectArchWallet X)"
proof -
  have "quietly (reconnect X connect)" for connect
    unfolding reconnect_def by (intro keeps_bind keeps_catch) (auto split: option.splits)
  then have "reconnect X connect v = (r, v') \<Longrightarrow> quiet v v'" for connect v r v'
    using keepsD by (fastforce simp: quiet_def)
  then show ?thesis
    by (intro quietlyI) (auto simp: reconnectArchWallet_def split: option.splits prod.splits if_splits
        dest!: probeFlow_quiet intro: quiet_trans)
qed

lemma quietly_recovery: "quietly (runRecovery X unlock action)"
  unfolding runRecovery_def by (cases action) auto

lemma intent_not_adopt: "intentAction intent \<noteq> Do_adopt"
  by (cases intent) simp_all

lemma cta_not_adopt: "walletStatusCta shown = Some call \<Longrightarrow> cta_action call \<noteq> Do_adopt"
  using intent_not_adopt
  by (cases shown) (auto simp: walletStatusCta_def cta_def promptUnansweredCta_def Let_def split: WalletPromptFailure.splits)

lemma recovery_trace:
  assumes "handleRecovery P X c hasAccount label unlock action page w = Some (page', w')" "action \<noteq> Do_adopt"
  shows "fl_trace w' = fl_trace w"
proof -
  obtain r v where run: "runRecovery X unlock action w = (r, v)" by fastforce
  have "fl_trace v = fl_trace w" using keepsD [OF quietly_recovery run] by simp
  then show ?thesis using assms by (auto simp: handleRecovery_def run split: sum.splits)
qed

text \<open>C7. What a click must pass before an approval is shown, a signature is asked of the wallet, or a transaction or a
  faucet request is sent: the page shows a wallet that needs no step of its own first, the form shows a name, the
  extension's own reading is connected, and the name's account reads as absent in the world right after that reading. The
  reads that these checks consist of, and the request to connect or unlock that a click on a blocked page makes instead,
  are not among those events.\<close>

theorem register_gate:
  assumes "onRegister P X c shown hasAccount label unlock page w = Some (page', w')" "fl_trace w' \<noteq> fl_trace w"
  shows "walletStatusCta shown = None \<and> isConnected (fst (probeFlow X w)) \<and>
    (\<exists>canonical. previewCanonical P label = Some canonical \<and>
       fst (fetchNameAccount P c canonical (fl_env (snd (probeFlow X w)))) = Inr None)"
proof (cases "walletStatusCta shown")
  case None
  then show ?thesis using assms runRegister_gate by (simp add: onRegister_def)
next
  case (Some call)
  then have "fl_trace w' = fl_trace w"
    using assms(1) recovery_trace cta_not_adopt [OF Some] by (simp add: onRegister_def)
  with assms(2) show ?thesis by contradiction
qed

text \<open>C24. One click, one wallet request. While the page shows a wallet that cannot sign, a click on the button runs one
  recovery step and stops: it returns, no signature is asked and nothing is sent, no transaction id appears and the page
  reaches no later step than asking for the approval.\<close>

theorem click_does_not_chain:
  assumes "walletStatusCta shown \<noteq> None"
  shows "\<exists>page' w'. onRegister P X c shown hasAccount label unlock page w = Some (page', w') \<and> fl_trace w' = fl_trace w \<and>
    gp_txid page' = gp_txid page \<and> (gp_step page' = ApproveStep \<or> gp_step page' = gp_step page)"
proof -
  obtain call where cta: "walletStatusCta shown = Some call" using assms by (cases "walletStatusCta shown") simp_all
  then have action: "cta_action call \<noteq> Do_adopt" by (rule cta_not_adopt)
  obtain r w' where run: "runRecovery X unlock (cta_action call) w = (r, w')" by fastforce
  have trace: "fl_trace w' = fl_trace w" using keepsD [OF quietly_recovery run] by simp
  have click: "onRegister P X c shown hasAccount label unlock page w =
      handleRecovery P X c hasAccount label unlock (cta_action call) page w"
    by (simp add: onRegister_def cta)
  note page = click handleRecovery_def run trace action recoveredPage_def stillBlockedPage_def
  show ?thesis
  proof (cases r)
    case (Inl e)
    then show ?thesis by (simp add: page)
  next
    case (Inr b)
    obtain x effect where "b = (x, effect)" by (cases b)
    with Inr show ?thesis by (cases x) (simp_all add: page)
  qed
qed

section \<open>An example\<close>

text \<open>A ledger that shows the registration of \<open>alice.arch\<close> once a transaction has been sent.\<close>

definition aliceAccount :: NameAccount where
  "aliceAccount = \<lparr>na_header = initializedHeader NAME_ACCOUNT_DISCRIMINATOR, na_nameHash = replicate 32 3,
     na_canonicalLabel = js ''alice'', na_owner = replicate 32 1, na_registeredAtSlot = 1, na_expiresAtSlot = 0,
     na_recordEpoch = 1, na_primaryBindingNonce = 0\<rparr>"

definition payerAccount :: "bytes \<times> AccountInfo" where
  "payerAccount = (replicate 32 1, \<lparr>ai_data = [], ai_owner = [], ai_lamports = 1, ai_isExecutable = False\<rparr>)"

definition pageLedger :: "bool \<Rightarrow> ledger" where
  "pageLedger sent = listLedger (if sent
     then [payerAccount, (replicate 32 7, \<lparr>ai_data = projr (encodeNameAccount aliceAccount), ai_owner = replicate 32 8,
             ai_lamports = 1, ai_isExecutable = False\<rparr>)]
     else [payerAccount]) 500"

definition pageTransport :: "(bool \<times> int, jsval) AnsTransport" where
  "pageTransport = \<lparr>
     readAccountInfo = (\<lambda>a w. (Inr (lg_account (pageLedger (fst w)) a), w)),
     getMultipleAccounts = None, getProgramAccounts = None,
     getCurrentSlot = (\<lambda>w. (Inr 500, w)), getBestBlockHash = (\<lambda>w. (Inr [], w)),
     sendTransaction = (\<lambda>tx (sent, t). (Inr [5], (True, t))),
     getProcessedTransaction = (\<lambda>txid w. (Inr None, w))\<rparr>"

definition pagePrims :: prims where
  "pagePrims = \<lparr>sha256 = (\<lambda>bs. replicate 32 3), findProgramAddress = (\<lambda>seeds pid. Inr (replicate 32 7, 255)),
     bech32m_toWords = (\<lambda>bs. []), bech32m_encode = (\<lambda>h ws. Inr []), bech32m_decode = (\<lambda>s. Inr ([], [])),
     bech32m_fromWords = (\<lambda>ws. Inr []), unicodeLower = (\<lambda>s. s)\<rparr>"

definition pageClient :: "(bool \<times> int, jsval) AnsClient" where
  "pageClient = \<lparr>cl_manifest = loadTestnetManifest, cl_transport = pageTransport, cl_programId = replicate 32 8,
     cl_registryConfigAddress = replicate 32 6\<rparr>"

definition pageSignature :: js_string where
  "pageSignature = bytesToHex (replicate 64 0)"

definition pagePort :: "(bool \<times> int) AnsWalletPort" where
  "pagePort = \<lparr>po_archAddress = [65], po_address = [], po_publicKey = [], po_kind = None, po_providerId = [7],
     po_providerLabel = [], po_signMessageHash = (\<lambda>h w. (Inr pageSignature, w))\<rparr>"

definition pageOutside :: "wallet_read \<Rightarrow> (bool \<times> int, nat) outside" where
  "pageOutside reading = \<lparr>
     os_transport = pageTransport, os_timer = \<lparr>now = snd, sleep = (\<lambda>ms (n, t). (n, t + ms))\<rparr>,
     os_readWallet = (\<lambda>w. (reading, w)), os_activePort = (\<lambda>w. Some pagePort),
     os_archSigner = (\<lambda>w. None), os_connect = (\<lambda>w. None), os_disconnect = retIO (),
     os_post = (\<lambda>u v w. (Inl (PlainError []), w)), os_rpcUrl = [],
     os_base58 = \<lparr>b58_decode = (\<lambda>s. Inr (replicate 32 1)), b58_encode = (\<lambda>bs. [65])\<rparr>,
     os_curve = sampleCurve, os_sdk = plainSdk, os_cause = (\<lambda>e. None), os_lower = (\<lambda>s. s), os_fraction = (\<lambda>q. [])\<rparr>"

definition pageFlow :: "(bool \<times> int) flow" where
  "pageFlow = \<lparr>fl_env = (False, 0), fl_session = \<lparr>se_knownNotInitialized = False, se_browser = \<lparr>br_blocked = True, br_seen = None, br_observation = None\<rparr>\<rparr>,
     fl_vars = \<lparr>sv_approvalIndex = 0, sv_phase = Mutation, sv_progress = None, sv_verifierProven = False\<rparr>, fl_trace = []\<rparr>"

definition readyWallet :: wallet_read where
  "readyWallet = ReadAnswer (Answered (Some \<lparr>ra_address = None, ra_publicKey = None, ra_archAddress = Some [65],
     ra_kind = None, ra_providerId = None, ra_providerLabel = None\<rparr>))"

subsection \<open>The ledger of the example\<close>

lemma pageLedger_shows: "showsPast pageTransport (\<lambda>_. True) (\<lambda>w. {pageLedger (fst w)})"
  by (auto simp: showsPast_def pageTransport_def intro: tripleI)

lemma pageOutside_stays: "outsideStays (\<lambda>_. True) (pageOutside r)"
  by (simp add: outsideStays_def envStays_iff)

lemma alice_ok: "okNameAccount aliceAccount"
  by (simp add: aliceAccount_def okNameAccount_def encodableText_ascii js_def okHeader_initializedHeader discriminator_bytes)

lemma page_derive: "deriveNameAddress pagePrims p ns h = Inr (replicate 32 7)"
  by (simp add: deriveNameAddress_def derive_def pagePrims_def)

lemma page_registration: "registrationOn pagePrims pageClient (pageLedger True) (js ''alice.arch'') aliceAccount"
proof -
  have "decodeNameAccount (projr (encodeNameAccount aliceAccount)) = Inr aliceAccount"
    using name_codec.roundtrip [OF alice_ok] by auto
  then show ?thesis
    using canonicalizeName_canonical [OF alice_canonical, of pagePrims]
    by (simp add: registrationOn_def page_derive pageLedger_def listLedger_def payerAccount_def pageClient_def)
      (simp add: aliceAccount_def)
qed

lemma page_hash: "nameHash pagePrims (js ''alice.arch'') = Inr (hashName pagePrims (js ''alice.arch''))"
  by (rule nameHash_canonical [OF canonicalizeName_canonical [OF alice_canonical]])

lemma page_slot: "lg_account (pageLedger sent) (replicate 32 7) = (if sent
   then Some \<lparr>ai_data = projr (encodeNameAccount aliceAccount), ai_owner = replicate 32 8, ai_lamports = 1, ai_isExecutable = False\<rparr>
   else None)"
  by (simp add: pageLedger_def listLedger_def payerAccount_def)

lemma page_payer: "lg_account (pageLedger sent) (replicate 32 1) \<noteq> None"
  by (simp add: pageLedger_def listLedger_def payerAccount_def)

lemma page_transport [simp]:
  "readAccountInfo pageTransport a w = (Inr (lg_account (pageLedger (fst w)) a), w)"
  "getBestBlockHash pageTransport w = (Inr [], w)" "sendTransaction pageTransport tx w = (Inr [5], (True, snd w))"
  by (simp_all add: pageTransport_def split: prod.splits)

lemma page_client [simp]: "cl_transport pageClient = pageTransport" "cl_programId pageClient = replicate 32 8"
  by (simp_all add: pageClient_def)

lemma page_fetch:
  "fetchNameAccount pagePrims pageClient (js ''alice.arch'') w = (Inr (if fst w then Some aliceAccount else None), w)"
proof -
  let ?d = "projr (encodeNameAccount aliceAccount)"
  have d: "decodeNameAccount ?d = Inr aliceAccount" using name_codec.roundtrip [OF alice_ok] by auto
  have header: "na_header aliceAccount = initializedHeader NAME_ACCOUNT_DISCRIMINATOR" by (simp add: aliceAccount_def)
  note blank = named_not_blank [OF d header]
  have taken: "cl_availability (classifyNameAccountData (Some ?d)) = Taken" "cl_account (classifyNameAccountData (Some ?d)) = Some aliceAccount"
    using classified_taken [of ?d aliceAccount] d header blank by simp_all
  show ?thesis
    using blank by (simp add: fetchNameAccount_def getNameAvailability_def bindIO_def page_derive page_hash page_slot taken
        canonicalizeName_canonical [OF alice_canonical] Let_def)
qed

subsection \<open>The run of the example\<close>

definition pageBase :: base58 where
  "pageBase = \<lparr>b58_decode = (\<lambda>s. Inr (replicate 32 1)), b58_encode = (\<lambda>bs. [65])\<rparr>"

lemma page_outside [simp]:
  "os_base58 (pageOutside r) = pageBase" "os_transport (pageOutside r) = pageTransport" "os_sdk (pageOutside r) = plainSdk"
  "kitPort (pageOutside r) e = Some pagePort" "os_activePort (pageOutside r) e = Some pagePort"
  "os_readWallet (pageOutside r) e = (r, e)"
  by (simp_all add: pageOutside_def pageBase_def kitPort_def pagePort_def js_def)

lemma page_key: "canonicalArchKey pageBase (Some [65]) = Some (replicate 32 1)"
  by code_simp

lemma page_require: "requireConnectedArchAccount (pageOutside r) (Some [65]) context w = (Inr (portAccount pagePort), w)"
  by (simp add: requireConnectedArchAccount_def switchCheck_def truthyText_def archAddressesEqual_def portAccount_def
      pagePort_def Let_def split: option.splits)

lemma unverifiable: "checkArchSignature B K a [] signature = SigUnverifiable"
  by (simp add: checkArchSignature_def isMessageHash_def trim_def split: option.splits)

lemma page_sign:
  assumes "at_reported A = [65]"
  shows "\<exists>w'. signWithActor (pageOutside r) A [] w = (Inr pageSignature, w') \<and> fl_env w' = fl_env w"
  using assms
  by (simp add: signWithActor_def page_require bindIO_def nextApproval_def Let_def emit_def signMessageHashHex_def envIO_def
      pagePort_def judgeSignature_def unverifiable)

lemma page_transaction: "\<exists>t. buildTransaction plainSdk (flowTransport pageTransport) [bi] fp w = (Inr (t, []), w)"
  by (simp add: buildTransaction_def flowTransport_def plainSdk_def bindIO_def envIO_def normalizeRuntimeTransaction_def
      normalizeMessage_def optField_def js_def arrayItems_def textDecode_def)

lemma page_node: "\<exists>w'. sendTransaction (flowTransport pageTransport) tx w = (Inr [5], w') \<and> fst (fl_env w') \<and> fl_trace w' \<noteq> []"
  by (simp add: flowTransport_def bindIO_def emit_def envIO_def)

lemma onSubmitted_quiet: "\<exists>w'. onSubmitted txid w = (Inr (), w') \<and> fl_env w' = fl_env w \<and> (fl_trace w \<noteq> [] \<longrightarrow> fl_trace w' \<noteq> [])"
  by (simp add: onSubmitted_def emit_def Let_def split: option.splits)

lemma page_submit:
  assumes "at_reported A = [65]"
  shows "\<exists>w'. submitInstruction plainSdk (flowTransport pageTransport) bi fp (makeAnsSigner plainSdk (signWithActor (pageOutside r) A))
     (Some onSubmitted) w = (Inr [5], w') \<and> fst (fl_env w') \<and> fl_trace w' \<noteq> []"
proof -
  obtain w1 where w1: "signWithActor (pageOutside r) A [] w = (Inr pageSignature, w1)"
    using page_sign [OF assms] by blast
  obtain t where built: "buildTransaction plainSdk (flowTransport pageTransport) [bi] fp w = (Inr (t, []), w)"
    using page_transaction by blast
  obtain sig where sig: "makeAnsSigner plainSdk (signWithActor (pageOutside r) A) [] w = (Inr sig, w1)"
    by (simp add: makeAnsSigner_def bindIO_def w1 pageSignature_def plainSdk_def)
  let ?tx = "transactionValue (t\<lparr>rt_signatures := [map (\<lambda>b. Fin (of_int (uint b))) (hexToBytesLoose sig)]\<rparr>)"
  obtain w2 where w2: "sendTransaction (flowTransport pageTransport) ?tx w1 = (Inr [5], w2)" "fst (fl_env w2)" "fl_trace w2 \<noteq> []"
    using page_node by blast
  obtain w3 where w3: "onSubmitted [5] w2 = (Inr (), w3)" "fl_env w3 = fl_env w2" "fl_trace w3 \<noteq> []"
    using onSubmitted_quiet [of "[5]" w2] w2(3) by blast
  have "submitInstruction plainSdk (flowTransport pageTransport) bi fp (makeAnsSigner plainSdk (signWithActor (pageOutside r) A))
     (Some onSubmitted) w = (Inr [5], w3)"
    by (simp only: submitInstruction_def bindIO_def built sig w2(1) w3(1) prod.case sum.case option.case Let_def retIO_def)
  with w2(2) w3 show ?thesis by simp
qed

lemma page_equal: "archAddressesEqual pageBase [65] [65]"
  by (simp add: archAddressesEqual_def archIdentitiesEqual_def split: option.splits)

lemma page_wait:
  assumes "fst (fl_env w)"
  shows "waitForTransaction C T txid (Some (envIO (nameRegisteredTo pagePrims pageBase pageClient (js ''alice.arch'') [65]))) None None w =
    Some (Inr Complete, w)"
proof -
  let ?probe = "envIO (nameRegisteredTo pagePrims pageBase pageClient (js ''alice.arch'') [65])"
  have check: "?probe w = (Inr True, w)"
    using assms by (simp add: envIO_def nameRegisteredTo_def nameOwnerEquals_def bindIO_def page_fetch page_equal pageBase_def)
      (simp add: page_equal [unfolded pageBase_def])
  have "waitRound T txid (Some ?probe) st w = (Return Complete, w)" for st
    by (simp only: waitRound_def probe_def check option.case prod.case sum.case bool.case round.case)
  then have "waitLoop C T txid (Some ?probe) i d st w = Some (Inr Complete, w)" for i d st
    by (subst waitLoop.simps) (simp only: prod.case round.case)
  then show ?thesis by (simp only: waitForTransaction_def Let_def)
qed

lemma page_decode: "decodeArchAddress pageBase [65] = Inr (replicate 32 1)"
  by code_simp

lemma page_build: "\<exists>bi. registerBuilder pagePrims pageBase pageClient (js ''alice'') [65] w = (Inr bi, w)"
proof -
  have "canonicalizeLabel pagePrims (js ''alice'') = Inr (js ''alice'')"
    using canonicalizeName_canonical [OF alice_canonical, of pagePrims]
    by (simp add: canonicalizeLabel_iff js_def trim_def isSpace_def ARCH_SUFFIX_def)
  moreover have "\<exists>d. encodeInstruction (Register (js ''alice'') 0) = Inr d"
    using encodes_ok [of "Register (js ''alice'') 0"] by (auto simp: encodableText_ascii js_def)
  ultimately show ?thesis
    using page_hash
    by (auto simp: registerBuilder_def pureIO_def page_decode buildRegister_def buildRegisterInstruction_def page_derive built_def js_def)
qed

lemma page_mutation:
  assumes "at_reported A = [65]" "at_actor A = [65]"
  shows "\<exists>w'. sendMutation (pageOutside r) (registerBuilder pagePrims pageBase pageClient (js ''alice''))
     (Some (nameRegisteredTo pagePrims pageBase pageClient (js ''alice.arch''))) A w = Some (Inr [5], w') \<and> fst (fl_env w') \<and> fl_trace w' \<noteq> []"
proof -
  obtain bi where bi: "envIO (registerBuilder pagePrims pageBase pageClient (js ''alice'') [65]) w = (Inr bi, w)"
    using page_build [of "fl_env w"] by (auto simp: envIO_def)
  obtain w' where sent: "submitInstruction plainSdk (flowTransport pageTransport) bi (replicate 32 1)
      (makeAnsSigner plainSdk (signWithActor (pageOutside r) A)) (Some onSubmitted) w = (Inr [5], w')" "fst (fl_env w')" "fl_trace w' \<noteq> []"
    using page_submit [OF assms(1)] by blast
  have "sendMutation (pageOutside r) (registerBuilder pagePrims pageBase pageClient (js ''alice''))
     (Some (nameRegisteredTo pagePrims pageBase pageClient (js ''alice.arch''))) A w = Some (Inr [5], w')"
    by (simp add: sendMutation_def assms(2) bindA_def liftA_def bi requireArchKey_def page_key signAndSendInstruction_def sent
        page_wait [OF sent(2)])
  with sent(2,3) show ?thesis by blast
qed

lemma page_attempt:
  "\<exists>w'. runSubmitAttempt (pageOutside r) (registerBuilder pagePrims pageBase pageClient (js ''alice''))
     (Some (nameRegisteredTo pagePrims pageBase pageClient (js ''alice.arch''))) [65] [65] Reported 1 w =
     Some (Inr ([5], True), w') \<and> fst (fl_env w') \<and> fl_trace w' \<noteq> []"
proof -
  have account: "archAccountExists (pageOutside r) [65] w = (Inr True, w)"
    using page_payer by (simp add: archAccountExists_def bindIO_def requireArchKey_def page_key envIO_def)
  let ?A = "\<lparr>at_actor = [65], at_reported = [65], at_pinSource = Reported, at_number = 1,
    at_pinnedAt = now (os_timer (pageOutside r)) (fl_env w), at_approvalTotal = 1\<rparr>"
  obtain u where u: "startAttempt False w = (Inr (), u)" by (simp add: startAttempt_def setVars_def)
  obtain w' where sent: "sendMutation (pageOutside r) (registerBuilder pagePrims pageBase pageClient (js ''alice''))
     (Some (nameRegisteredTo pagePrims pageBase pageClient (js ''alice.arch''))) ?A u = Some (Inr [5], w')"
    "fst (fl_env w')" "fl_trace w' \<noteq> []"
    using page_mutation [of ?A r u] by auto
  from sent(1) show ?thesis using sent(2,3)
    by (simp add: runSubmitAttempt_def bindA_def liftA_def account u catchA_def attemptBody_def)
qed

lemma page_submission:
  "\<exists>w'. submitWithWindowArch (pageOutside r) (registerBuilder pagePrims pageBase pageClient (js ''alice''))
     (Some (nameRegisteredTo pagePrims pageBase pageClient (js ''alice.arch''))) w =
     Some (Inr \<lparr>so_txid = [5], so_actorArchAddress = [65], so_adopted = False, so_confirmed = True\<rparr>, w') \<and> fl_trace w' \<noteq> []"
proof -
  have actor: "po_archAddress pagePort = [65]" by (simp add: pagePort_def)
  obtain w' where "runSubmitAttempt (pageOutside r) (registerBuilder pagePrims pageBase pageClient (js ''alice''))
     (Some (nameRegisteredTo pagePrims pageBase pageClient (js ''alice.arch''))) [65] [65] Reported 1 w =
     Some (Inr ([5], True), w')" "fl_trace w' \<noteq> []"
    using page_attempt by blast
  then show ?thesis by (simp add: submitWithWindowArch_def actor bindA_def liftA_def)
qed

lemma page_reading: "isConnected (fst (probeWalletStatus pageBase readyWallet (fl_session pageFlow)))"
  by code_simp

lemma page_probe: "\<exists>account w'. probeFlow (pageOutside readyWallet) pageFlow = (Connected account, w') \<and> \<not> fst (fl_env w') \<and> fl_trace w' = []"
proof -
  obtain account s where "probeWalletStatus pageBase readyWallet (fl_session pageFlow) = (Connected account, s)"
    using page_reading by (cases "probeWalletStatus pageBase readyWallet (fl_session pageFlow)")
      (auto simp: isConnected_def split: WalletStatus.splits)
  then show ?thesis by (simp add: probeFlow_def Let_def) (simp add: pageFlow_def)
qed

lemma page_label:
  "toLowerCase (unicodeLower pagePrims) (trim (js ''Alice '')) = js ''alice''" "validateLabel (js ''alice'') = Inr ()"
  "typedLabel pagePrims (js ''Alice '') = js ''alice''"
  by code_simp+

lemma page_click: "\<exists>page w'. runRegister pagePrims (pageOutside readyWallet) pageClient True (js ''Alice '') pageFlow = Some (page, w') \<and>
   gp_txid page \<noteq> None \<and> \<not> gp_unconfirmed page \<and> fl_trace w' \<noteq> fl_trace pageFlow"
proof -
  obtain account u where probe: "probeFlow (pageOutside readyWallet) pageFlow = (Connected account, u)" "\<not> fst (fl_env u)"
    using page_probe by auto
  have suffix: "js ''alice'' @ js ''.arch'' = js ''alice.arch''" by (simp add: js_def)
  obtain w' where "submitWithWindowArch (pageOutside readyWallet) (registerBuilder pagePrims pageBase pageClient (js ''alice''))
     (Some (nameRegisteredTo pagePrims pageBase pageClient (js ''alice.arch''))) u =
     Some (Inr \<lparr>so_txid = [5], so_actorArchAddress = [65], so_adopted = False, so_confirmed = True\<rparr>, w')" "fl_trace w' \<noteq> []"
    using page_submission by blast
  moreover have "fl_trace pageFlow = []" by (simp add: pageFlow_def)
  ultimately show ?thesis
    using probe by (simp add: runRegister_def registerBody_def page_label suffix canonicalizeName_canonical [OF alice_canonical]
        bindA_def liftA_def pureIO_def requireConnected_def freshStatus_def isConnected_def bindIO_def envIO_def page_fetch
        registeredPage_def startedPage_def)
qed

theorem registration_confirmed_on_ledger_witness:
  "\<exists>page w' txid canonical tx pre post n. runRegister pagePrims (pageOutside readyWallet) pageClient True (js ''Alice '') pageFlow = Some (page, w') \<and>
     gp_txid page = Some txid \<and> \<not> gp_unconfirmed page \<and> fl_trace w' = pre @ Sent tx # post \<and>
     registrationOn pagePrims pageClient (pageLedger (fst (fl_env w'))) canonical n"
proof -
  obtain page w' txid where run: "runRegister pagePrims (pageOutside readyWallet) pageClient True (js ''Alice '') pageFlow = Some (page, w')"
    "gp_txid page = Some txid" "\<not> gp_unconfirmed page"
    using page_click by blast
  have "showsPast (cl_transport pageClient) (\<lambda>_. True) (\<lambda>w. {pageLedger (fst w)})" by (simp add: pageLedger_shows)
  from registration_confirmed_on_ledger [OF this pageOutside_stays TrueI run] run show ?thesis
    by (auto simp: pageFlow_def)
qed

theorem kit_wallet_stopped_witness:
  "kitPort (pageOutside NoProvider) (fl_env pageFlow) = Some pagePort \<and>
   (\<exists>page w'. runRegister pagePrims (pageOutside NoProvider) pageClient True (js ''Alice '') pageFlow = Some (page, w') \<and>
      gp_error page \<noteq> None \<and> gp_txid page = None \<and> fl_trace w' = fl_trace pageFlow)"
proof -
  have "\<not> isConnected (fst (probeFlow (pageOutside NoProvider) pageFlow))"
    by (simp add: probeFlow_def probeWalletStatus_def isConnected_def Let_def)
  from kit_wallet_stopped [of "pageOutside NoProvider" pageFlow pagePort pagePrims pageClient True "js ''Alice ''", OF _ this]
  show ?thesis by simp
qed

theorem register_gate_witness:
  "\<exists>page w'. onRegister pagePrims (pageOutside readyWallet) pageClient (Connected (portAccount pagePort)) True (js ''Alice '')
       (throwIO typeError) startedPage pageFlow = Some (page, w') \<and>
     fl_trace w' \<noteq> fl_trace pageFlow \<and> isConnected (fst (probeFlow (pageOutside readyWallet) pageFlow))"
proof -
  obtain page w' where "runRegister pagePrims (pageOutside readyWallet) pageClient True (js ''Alice '') pageFlow = Some (page, w')"
    "fl_trace w' \<noteq> fl_trace pageFlow"
    using page_click by blast
  then have click: "onRegister pagePrims (pageOutside readyWallet) pageClient (Connected (portAccount pagePort)) True (js ''Alice '')
      (throwIO typeError) startedPage pageFlow = Some (page, w')" "fl_trace w' \<noteq> fl_trace pageFlow"
    by (simp_all add: onRegister_def walletStatusCta_def)
  from register_gate [OF this] click show ?thesis by blast
qed

theorem click_does_not_chain_witness:
  "\<exists>page' w'. onRegister pagePrims (pageOutside NoProvider) pageClient NoExtension False (js ''Alice '') (throwIO typeError)
     startedPage pageFlow = Some (page', w') \<and> fl_trace w' = fl_trace pageFlow \<and> gp_txid page' = None"
  using click_does_not_chain [of NoExtension pagePrims "pageOutside NoProvider" pageClient False "js ''Alice ''" "throwIO typeError"
      startedPage pageFlow]
  by (auto simp: walletStatusCta_def startedPage_def)

end
