(* ===== verification/Spec2Isabelle.thy ===== *)
theory Spec2Isabelle
  imports Runner Explorer_Rest Wallet_Page Submit_Safety Record_Rows Register_Page
begin

text \<open>
  Verification of the Arch Name Service client: the TypeScript SDK (\<^verbatim>\<open>packages/ans-sdk/src\<close>) and the core logic
  of the manager application (\<^verbatim>\<open>apps/ans-manager/src\<close>).

  \<^bold>\<open>The program.\<close> A registry program on the Arch network stores names, records, reverse bindings, listings and
  offers in accounts at derived addresses. The SDK derives the addresses, encodes and decodes accounts and
  instructions, resolves names from accounts, builds instructions, and talks to the network through a
  transport; the manager is a browser application that drives the SDK with a wallet extension.

  \<^bold>\<open>The model.\<close> A JavaScript string is its list of UTF-16 code units, a \<open>Uint8Array\<close> a list of 8-bit words, a
  \<open>bigint\<close> or integral \<open>number\<close> an \<open>int\<close>. A function that may throw returns a sum (\<open>Inl\<close> the error). An awaited
  promise is a state transformer on a world (\<open>io\<close> of Transport). Code outside the repository is a parameter: SHA-256,
  the program-address search, bech32m and Unicode lower-casing are the fields of \<open>prims\<close> (External); the URL
  parser is an argument in Catalog; clock and timer are \<open>timer\<close> (Confirm); \<open>fetch\<close> is a field of \<open>endpoint\<close> (Arch_Rpc)
  and of \<open>explorer\<close> (Explorer_Rest); the message compiler is \<open>arch_sdk\<close> (Runner); base58 is \<open>base58\<close> (Signers).

  \<^bold>\<open>Theories of the SDK.\<close>
  \<^item> Prelude, Js_Text, Js_Sort, Js_Value: results, text with UTF-8, stable sorting over the locale \<open>comparator\<close>, and
    JSON values with the conversions \<open>Number\<close>, \<open>String\<close> and \<open>BigInt\<close>.
  \<^item> Ans_Types (\<^verbatim>\<open>errors.ts\<close>, \<^verbatim>\<open>types.ts\<close>, \<^verbatim>\<open>constants.ts\<close>), Hex (\<^verbatim>\<open>hex.ts\<close>).
  \<^item> Borsh (\<^verbatim>\<open>codec/reader.ts\<close>, \<^verbatim>\<open>codec/writer.ts\<close>): the locale \<open>message_codec\<close> states what a codec promises and proves
    round trip, truncation, trailing bytes and prefix-freedom once; State_Codec (\<^verbatim>\<open>codec/state.ts\<close>) and
    Instruction_Codec (\<^verbatim>\<open>codec/instruction.ts\<close>) interpret it for every account kind and the instructions, and show
    what the unchecked integers do.
  \<^item> Names (\<^verbatim>\<open>name.ts\<close>, \<^verbatim>\<open>hash.ts\<close>): the label grammar, canonicalisation as a projection, separation of hashes.
    Derive (\<^verbatim>\<open>derive.ts\<close>): accounts have different seeds.
  \<^item> Validate (\<^verbatim>\<open>validate.ts\<close>), Resolve (\<^verbatim>\<open>resolve.ts\<close>), Availability (\<^verbatim>\<open>availability.ts\<close>): each check is equivalent to a
    relation between accounts; records do not outlive a transfer.
  \<^item> Builders (\<^verbatim>\<open>instructions/builders.ts\<close>): the locale \<open>instruction_builder\<close>, interpreted for all builders.
  \<^item> Catalog (\<^verbatim>\<open>records/catalog.ts\<close>), Manifest (\<^verbatim>\<open>config/manifest.ts\<close>).
  \<^item> Transport (\<^verbatim>\<open>transport/types.ts\<close>), Client (\<^verbatim>\<open>client/ans-client.ts\<close>), Ledger_Client: the client's queries over a
    transport that shows a ledger return exactly what the ledger holds. Transport also has the Hoare triples of awaited
    operations, \<open>triple I m Q E\<close>, with which reads that fail or are old are followed.
  \<^item> Rpc_Params (\<^verbatim>\<open>transport/rpc-params.ts\<close>), Arch_Rpc (\<^verbatim>\<open>transport/arch-rpc.ts\<close>): request shapes, the normal form of
    transactions, and the account cache with its reads in flight as a step relation and an invariant.
  \<^item> Explorer_Rest (\<^verbatim>\<open>transport/explorer-rest.ts\<close>, \<^verbatim>\<open>transport/split.ts\<close>): the retry loop, total by a measure, with
    bounds on requests and on the time until the head of the last answer. Timers may be late; the read of the body
    (\<open>ex_json\<close>) comes after the abort timer has been cleared, and has no bound.
  \<^item> Recent_Reads: what a read of the manager's transport, \<open>createSplitAnsTransport\<close> with its five-second account cache,
    tells about the ledger. The hypothesis \<open>honestNode\<close> is about the node only: an answered read shows the account of a
    moment at most \<open>D\<close> before the answer, and any read may fail. \<open>showsPast\<close>, the contract for a client of the transport, is
    proved for the split transport over such a node.
  \<^item> Confirm (\<^verbatim>\<open>transactions/confirm.ts\<close>): the polling loop is a \<open>partial_function\<close> into \<open>option\<close>; it returns when polls
    do not turn the clock back and sleeping takes the interval, and reports success when success stays visible, no lookup
    shows a failure and lookups take bounded time.
    Runner (\<^verbatim>\<open>transactions/runner.ts\<close>, \<^verbatim>\<open>transactions/builder.ts\<close>, \<^verbatim>\<open>wallet/adapter.ts\<close>): what a caller learns about an
    accepted transaction, and the case in which a pending one is reported as a taken name.

  \<^bold>\<open>Theories of the manager.\<close>
  \<^item> Quote (\<^verbatim>\<open>quote-amount.ts\<close>, \<^verbatim>\<open>quote-balance.ts\<close>, \<^verbatim>\<open>domain-profile.ts\<close>): amounts survive display and parsing.
  \<^item> Market (\<^verbatim>\<open>register-handoff.ts\<close>, \<^verbatim>\<open>marketplace.ts\<close>): deep links, collections, sorting and floors.
  \<^item> Signers (\<^verbatim>\<open>arch-identity.ts\<close>, \<^verbatim>\<open>signer-registry.ts\<close>): identities by key, storage that stays well formed, the exact
    set of candidate signers.
  \<^item> Wallet (\<^verbatim>\<open>wallet-state.ts\<close>, \<^verbatim>\<open>wallet-initialization.ts\<close>, \<^verbatim>\<open>wallet-status.ts\<close>, \<^verbatim>\<open>wallet-watch.ts\<close>,
    \<^verbatim>\<open>wallet-gateway.ts\<close>): classification of wallet errors, readings, prompts. Wallet_Page (\<^verbatim>\<open>hooks/useArchWallet.ts\<close>): the
    page's wallet state, with its error text, busy button and picker, as a step relation, and the invariant of its reachable
    states; what the answer of a superseded prompt does.
  \<^item> App_Types, Wallet_Port (\<^verbatim>\<open>ans-wallet-port.ts\<close>, \<^verbatim>\<open>ans-wallet-session.ts\<close>), Wallet_Notices (\<^verbatim>\<open>wallet-state.ts\<close>,
    \<^verbatim>\<open>wallet-status.ts\<close>): the values they exchange, the wallet in use, the notices.
  \<^item> Bip322 (\<^verbatim>\<open>bip322.ts\<close>, \<^verbatim>\<open>bip322-witness.ts\<close>): the digest a wallet signs binds key and message, the witness parser is
    exact. The curve library is the parameter \<open>curve\<close>.
  \<^item> Submit_Text, Submit, Submit_Flow, Submit_Safety (\<^verbatim>\<open>lib/ans.ts\<close>): errors and copy of a submission; the flow itself on
    a world that records every prompt, request and transaction, with everything outside the flow in the parameter
    \<open>outside\<close>; the order of the steps, the refusal of signatures, and that a submission settles.
  \<^item> Owned_Names (\<^verbatim>\<open>owned-names.ts\<close>): the names of all reported accounts, over a transport whose answered scans show a
    ledger of the run and whose reads may fail (\<open>scansShow\<close>): an account is listed exactly or is shown with its error.
    Confirm_Effects (\<^verbatim>\<open>confirm-effects.ts\<close>): the confirmation probes; a confirmed change is on a ledger of the last five
    seconds and the time of one read.
  \<^item> Submit_Effects: a confirmed submission has, in its own trace, sent a transaction with the built instruction, paid by the
    acting account, that the node has answered with the reported id, and its probe has said yes. \<open>outsideStays\<close> names
    the worlds of one run; \<open>inRun\<close> adds the trace with which a click begins.
  \<^item> Explorer_Rows (\<^verbatim>\<open>explorer.ts\<close>, \<^verbatim>\<open>explorer-tx.ts\<close>, \<^verbatim>\<open>activity-labels.ts\<close>), Registry_Activity
    (\<^verbatim>\<open>name-activity.ts\<close>, \<^verbatim>\<open>registry-activity.ts\<close>): rows of the Explorer read back as the instructions the builders
    encode, the timeline and the list of registered names; the reads are the parameter \<open>feed_host\<close>.
  \<^item> Name_Profile (\<^verbatim>\<open>name-profile.ts\<close>): the profile cache with its reads in flight as a step relation. An answer
    may show, in each of its parts, a moment up to the five seconds of the account cache and the time of one account
    read (the parameter \<open>readTime\<close>) before its own start; so how old a shown profile can be, and what an
    invalidation does not reach. Record_Rows (\<^verbatim>\<open>records.ts\<close>): the rows of the profile editor.
  \<^item> Register_Page (\<^verbatim>\<open>views/RegisterView.tsx\<close>, \<^verbatim>\<open>hooks/useWalletRecovery.ts\<close>): the handlers of the registration page on
    top of the submit flow; what a confirmed registration means for the payer and on the ledger, what a click must pass
    before it asks for or sends anything, and the kit wallets that its gate refuses.

  \<^bold>\<open>Bounds and fuel.\<close> The only bounds are the program's own: eight links in the walk along error causes, \<open>retries\<close> of the
  Explorer loop, eight remembered accounts, two attempts of a submission, and the deadline of a wait. No definition
  takes fuel.

  \<^bold>\<open>Not modelled.\<close> Rounding of numbers to 53 bits; objects that redefine \<open>toString\<close> or \<open>valueOf\<close>; React wiring and the
  views other than the registration page, which render the results of the modelled functions; the promise queue of
  \<open>walletRequest\<close>, whose fairness is that of the host's scheduler; the wallet-connect kit bindings; console diagnostics; infrastructure; the Rust program and tools, which are another language.
\<close>

end
